(* ===== verification/Prelude.thy ===== *)
theory Prelude
  imports Main "HOL-Library.Sublist"
begin

text \<open>
  Shared vocabulary of the development: the names of Go's scalar types, durations,
  fallible results, and the collections of rewrite rules the component theories fill.

  Go strings are byte sequences; a \<^typ>\<open>char\<close> of HOL is one byte, so \<open>string\<close> is
  exactly Go's \<open>string\<close> and \<open>length\<close> is Go's \<open>len\<close>. A \<open>time.Duration\<close> is an
  \<^typ>\<open>int\<close> number of nanoseconds, an instant an \<^typ>\<open>int\<close> number of nanoseconds since
  the Unix epoch. A Go function returning \<open>(T, error)\<close> returns a sum: \<open>Inl\<close> the error,
  \<open>Inr\<close> the value.
\<close>

named_theorems go_text \<open>equations for Go's string functions on ASCII text\<close>
named_theorems redis_sem \<open>what the Redis commands do to a keyspace\<close>
named_theorems sim_rules \<open>simulation rules between two Redis back ends\<close>
named_theorems store_defs \<open>definitions of the Redis backed stores\<close>
named_theorems handler_defs \<open>definitions of the HTTP handlers\<close>

type_synonym duration = int
type_synonym instant = int

abbreviation millisecond :: duration where "millisecond \<equiv> 1000000"
abbreviation second :: duration where "second \<equiv> 1000000000"
abbreviation minute :: duration where "minute \<equiv> 60000000000"
abbreviation hour :: duration where "hour \<equiv> 3600000000000"

text \<open>Go's integer division truncates towards zero.\<close>

definition quot :: "int \<Rightarrow> int \<Rightarrow> int" where
  "quot a b = sgn a * sgn b * (\<bar>a\<bar> div \<bar>b\<bar>)"

lemma quot_pos: "0 \<le> a \<Longrightarrow> 0 < b \<Longrightarrow> quot a b = a div b"
  by (cases "a = 0") (simp_all add: quot_def sgn_if)

text \<open>\<open>d.Seconds()\<close> converted to an \<open>int\<close>, and \<open>t.UnixMilli()\<close> (floor).\<close>

definition whole_seconds :: "duration \<Rightarrow> int" where
  "whole_seconds d = quot d second"

definition unix_milli :: "instant \<Rightarrow> int" where
  "unix_milli t = t div millisecond"

text \<open>Sequencing of fallible steps: the first error is returned.\<close>

fun rbind :: "'e + 'a \<Rightarrow> ('a \<Rightarrow> 'e + 'b) \<Rightarrow> 'e + 'b" where
  "rbind (Inl e) f = Inl e"
| "rbind (Inr a) f = f a"

lemma rbind_Inr_iff: "rbind x f = Inr b \<longleftrightarrow> (\<exists>a. x = Inr a \<and> f a = Inr b)"
  by (cases x) auto

lemma rbind_Inl:
  assumes "rbind x f = Inl e" "\<And>e. x = Inl e \<Longrightarrow> P e" "\<And>a e. f a = Inl e \<Longrightarrow> P e"
  shows "P e"
  using assms by (cases x) auto

text \<open>The first error of a list of results, as a pipeline reports it.\<close>

fun first_error :: "('e + 'a) list \<Rightarrow> 'e option" where
  "first_error [] = None"
| "first_error (Inl e # xs) = Some e"
| "first_error (Inr a # xs) = first_error xs"

lemma first_error_None_iff: "first_error xs = None \<longleftrightarrow> (\<forall>x \<in> set xs. \<exists>a. x = Inr a)"
  by (induction xs rule: first_error.induct) auto

lemma first_error_map_Inr [simp]: "first_error (map Inr xs) = None"
  by (induction xs) auto

text \<open>Generic facts on lists and maps.\<close>

lemma append_same_prefix_iff [simp]: "p @ x = p @ y \<longleftrightarrow> x = y"
  by simp

lemma map_upd_other [simp]: "k \<noteq> k' \<Longrightarrow> (m(k \<mapsto> v)) k' = m k'"
  by simp

lemma hd_filter_mem: "filter P xs = y # ys \<Longrightarrow> y \<in> set xs \<and> P y"
  by (metis filter_eq_ConsD in_set_conv_decomp)

end
