(* ===== verification/GoText.thy ===== *)
theory GoText
  imports Prelude
begin

text \<open>
  The parts of Go's \<open>unicode/utf8\<close>, \<open>unicode\<close> and \<open>strings\<close> packages that the server
  uses: decoding a byte string into runes, \<open>TrimSpace\<close>, \<open>ToLower\<close>, \<open>ToUpper\<close>,
  \<open>Fields\<close> and the byte replacer. The case tables of package \<open>unicode\<close> are data: they
  are a parameter \<open>unicode_tables\<close>, read only for text that is not ASCII.
\<close>

section \<open>Runes\<close>

type_synonym rune = nat

definition RuneError :: rune where "RuneError = 65533"

definition is_ascii :: "string \<Rightarrow> bool" where
  "is_ascii s = list_all (\<lambda>c. of_char c < (128::nat)) s"

definition cont :: "nat \<Rightarrow> nat \<Rightarrow> nat \<Rightarrow> bool" where
  "cont lo hi b = (lo \<le> b \<and> b \<le> hi)"

text \<open>\<open>utf8.DecodeRune\<close>: the rune at the front and its width; \<open>(RuneError, 1)\<close> for a byte
  that does not start a valid encoding.\<close>

fun decode_bytes :: "nat list \<Rightarrow> rune \<times> nat" where
  "decode_bytes [] = (RuneError, 0)"
| "decode_bytes (b0 # bs) =
     (if b0 < 128 then (b0, 1)
      else if 194 \<le> b0 \<and> b0 \<le> 223 then
        (case bs of
           b1 # _ \<Rightarrow> if cont 128 191 b1 then ((b0 - 192) * 64 + (b1 - 128), 2) else (RuneError, 1)
         | _ \<Rightarrow> (RuneError, 1))
      else if 224 \<le> b0 \<and> b0 \<le> 239 then
        (case bs of
           b1 # b2 # _ \<Rightarrow>
             if cont (if b0 = 224 then 160 else 128) (if b0 = 237 then 159 else 191) b1
                \<and> cont 128 191 b2
             then ((b0 - 224) * 4096 + (b1 - 128) * 64 + (b2 - 128), 3) else (RuneError, 1)
         | _ \<Rightarrow> (RuneError, 1))
      else if 240 \<le> b0 \<and> b0 \<le> 244 then
        (case bs of
           b1 # b2 # b3 # _ \<Rightarrow>
             if cont (if b0 = 240 then 144 else 128) (if b0 = 244 then 143 else 191) b1
                \<and> cont 128 191 b2 \<and> cont 128 191 b3
             then ((b0 - 240) * 262144 + (b1 - 128) * 4096 + (b2 - 128) * 64 + (b3 - 128), 4)
             else (RuneError, 1)
         | _ \<Rightarrow> (RuneError, 1))
      else (RuneError, 1))"

definition DecodeRune :: "string \<Rightarrow> rune \<times> nat" where
  "DecodeRune s = decode_bytes (map of_char s)"

text \<open>\<open>utf8.AppendRune\<close> on an empty buffer.\<close>

definition bytes :: "nat list \<Rightarrow> string" where
  "bytes ns = map char_of ns"

definition EncodeRune :: "rune \<Rightarrow> string" where
  "EncodeRune r =
     (if r < 128 then bytes [r]
      else if r < 2048 then bytes [192 + r div 64, 128 + r mod 64]
      else if 1114111 < r \<or> (55296 \<le> r \<and> r \<le> 57343) then bytes [239, 191, 189]
      else if r < 65536 then bytes [224 + r div 4096, 128 + r div 64 mod 64, 128 + r mod 64]
      else bytes [240 + r div 262144, 128 + r div 4096 mod 64, 128 + r div 64 mod 64,
                  128 + r mod 64])"

text \<open>The segments of a string: each rune with the bytes it came from.\<close>

lemma decode_bytes_size: "0 < snd (decode_bytes (b # bs)) \<and> snd (decode_bytes (b # bs)) \<le> length (b # bs)"
  by (auto split: list.splits)

function segs :: "string \<Rightarrow> (rune \<times> string) list" where
  "segs [] = []"
| "segs (c # cs) =
     (let (r, n) = DecodeRune (c # cs)
      in (r, take n (c # cs)) # segs (drop n (c # cs)))"
  by pat_completeness auto
termination
proof (relation "measure length")
  fix c cs and x :: "rune \<times> nat" and r n
  assume "x = DecodeRune (c # cs)" "(r, n) = x"
  then have "n = snd (decode_bytes (of_char c # map of_char cs))"
    by (metis DecodeRune_def list.simps(9) snd_conv)
  then show "(drop n (c # cs), c # cs) \<in> measure length"
    using decode_bytes_size [of "of_char c" "map of_char cs"] by auto
qed simp

declare segs.simps(2) [simp del]

lemma concat_segs: "concat (map snd (segs s)) = s"
proof (induction s rule: segs.induct)
  case (2 c cs)
  then show ?case
    by (auto simp: segs.simps(2) split: prod.splits)
qed simp

lemma segs_Cons_ascii: "of_char c < (128::nat) \<Longrightarrow> segs (c # cs) = (of_char c, [c]) # segs cs"
  by (simp add: segs.simps(2) DecodeRune_def)

lemma is_ascii_simps [simp]:
  "is_ascii []"
  "is_ascii (c # cs) \<longleftrightarrow> of_char c < (128::nat) \<and> is_ascii cs"
  "is_ascii (xs @ ys) \<longleftrightarrow> is_ascii xs \<and> is_ascii ys"
  by (simp_all add: is_ascii_def)

lemma segs_ascii [go_text]: "is_ascii s \<Longrightarrow> segs s = map (\<lambda>c. (of_char c, [c])) s"
  by (induction s) (simp_all add: segs_Cons_ascii)

section \<open>Package strings\<close>

text \<open>\<open>unicode.IsSpace\<close>: the Latin-1 cases, then the White\_Space property.\<close>

definition IsSpace :: "rune \<Rightarrow> bool" where
  "IsSpace r = (r \<in> {9, 10, 11, 12, 13, 32, 133, 160, 5760, 8232, 8233, 8239, 8287, 12288}
                \<or> (8192 \<le> r \<and> r \<le> 8202))"

abbreviation seg_space :: "rune \<times> string \<Rightarrow> bool" where
  "seg_space p \<equiv> IsSpace (fst p)"

definition TrimSpace :: "string \<Rightarrow> string" where
  "TrimSpace s =
     concat (map snd (rev (dropWhile seg_space (rev (dropWhile seg_space (segs s))))))"

text \<open>\<open>strings.Fields\<close>: the maximal runs of non-space runes.\<close>

fun fields_of :: "(rune \<times> string) list \<Rightarrow> string \<Rightarrow> string list" where
  "fields_of [] cur = (if cur = [] then [] else [cur])"
| "fields_of ((r, b) # ps) cur =
     (if IsSpace r then (if cur = [] then fields_of ps [] else cur # fields_of ps [])
      else fields_of ps (cur @ b))"

definition Fields :: "string \<Rightarrow> string list" where
  "Fields s = fields_of (segs s) []"

record unicode_tables =
  uni_lower :: "rune \<Rightarrow> rune"
  uni_upper :: "rune \<Rightarrow> rune"

definition ascii_lower :: "char \<Rightarrow> char" where
  "ascii_lower c = (let n = of_char c :: nat in if 65 \<le> n \<and> n \<le> 90 then char_of (n + 32) else c)"

definition ascii_upper :: "char \<Rightarrow> char" where
  "ascii_upper c = (let n = of_char c :: nat in if 97 \<le> n \<and> n \<le> 122 then char_of (n - 32) else c)"

definition map_runes :: "(rune \<Rightarrow> rune) \<Rightarrow> string \<Rightarrow> string" where
  "map_runes f s = concat (map (\<lambda>(r, _). EncodeRune (f r)) (segs s))"

definition ToLower :: "unicode_tables \<Rightarrow> string \<Rightarrow> string" where
  "ToLower U s = (if is_ascii s then map ascii_lower s else map_runes (uni_lower U) s)"

definition ToUpper :: "unicode_tables \<Rightarrow> string \<Rightarrow> string" where
  "ToUpper U s = (if is_ascii s then map ascii_upper s else map_runes (uni_upper U) s)"

section \<open>ASCII text\<close>

abbreviation ascii_space :: "char \<Rightarrow> bool" where
  "ascii_space c \<equiv> IsSpace (of_char c)"

lemma is_ascii_set: "is_ascii s \<longleftrightarrow> (\<forall>c \<in> set s. of_char c < (128::nat))"
  by (simp add: is_ascii_def list_all_iff)

lemma dropWhile_map_seg:
  "dropWhile seg_space (map (\<lambda>c. (of_char c, [c])) cs) =
   map (\<lambda>c. (of_char c, [c])) (dropWhile ascii_space cs)"
  by (induction cs) auto

lemma TrimSpace_ascii [go_text]:
  assumes "is_ascii s"
  shows "TrimSpace s = rev (dropWhile ascii_space (rev (dropWhile ascii_space s)))"
proof -
  have singletons: "concat (map (\<lambda>c. [c]) xs) = xs" for xs :: string
    by (induction xs) auto
  have trailing: "dropWhile seg_space (rev (map (\<lambda>c. (of_char c, [c])) cs)) =
      map (\<lambda>c. (of_char c, [c])) (dropWhile ascii_space (rev cs))" for cs
    by (simp add: rev_map dropWhile_map_seg)
  show ?thesis
    by (simp add: TrimSpace_def segs_ascii [OF assms] dropWhile_map_seg trailing comp_def
        rev_map singletons)
qed

lemma set_TrimSpace_ascii: "is_ascii s \<Longrightarrow> set (TrimSpace s) \<subseteq> set s"
  by (auto simp: TrimSpace_ascii dest!: set_dropWhileD)

lemma is_ascii_TrimSpace: "is_ascii s \<Longrightarrow> is_ascii (TrimSpace s)"
  using set_TrimSpace_ascii by (auto simp: is_ascii_set)

lemma dropWhile_idle: "xs = [] \<or> \<not> P (hd xs) \<Longrightarrow> dropWhile P xs = xs"
  by (cases xs) auto

lemma TrimSpace_idem:
  assumes "is_ascii s"
  shows "TrimSpace (TrimSpace s) = TrimSpace s"
proof -
  define a where "a = dropWhile ascii_space s"
  define b where "b = dropWhile ascii_space (rev a)"
  have trim: "TrimSpace s = rev b"
    using assms by (simp add: TrimSpace_ascii a_def b_def)
  have front: "rev b = [] \<or> \<not> ascii_space (hd (rev b))"
  proof (cases "b = []")
    case False
    then have "last b = hd a"
      unfolding b_def by (metis last_appendR last_rev takeWhile_dropWhile_id)
    moreover have "a \<noteq> []" using False by (auto simp: b_def)
    ultimately show ?thesis
      unfolding a_def using hd_dropWhile [of ascii_space s] by (simp add: hd_rev a_def)
  qed simp
  have "is_ascii (rev b)"
    using assms is_ascii_TrimSpace trim by metis
  then have "TrimSpace (rev b) = rev (dropWhile ascii_space (rev (dropWhile ascii_space (rev b))))"
    by (rule TrimSpace_ascii)
  also have "\<dots> = rev (dropWhile ascii_space b)"
    using front by (simp add: dropWhile_idle)
  also have "\<dots> = rev b"
    by (simp add: b_def)
  finally show ?thesis using trim by simp
qed

lemma of_char_ascii_lower:
  "of_char (ascii_lower c) = (let n = of_char c :: nat in if 65 \<le> n \<and> n \<le> 90 then n + 32 else n)"
  by (simp add: ascii_lower_def Let_def)

lemma of_char_ascii_upper:
  "of_char (ascii_upper c) = (let n = of_char c :: nat in if 97 \<le> n \<and> n \<le> 122 then n - 32 else n)"
  by (auto simp: ascii_upper_def Let_def)

lemma ascii_lower_idem [simp]: "ascii_lower (ascii_lower c) = ascii_lower c"
  unfolding ascii_lower_def [of "ascii_lower c"] by (auto simp: of_char_ascii_lower Let_def)

lemma ascii_upper_idem [simp]: "ascii_upper (ascii_upper c) = ascii_upper c"
  unfolding ascii_upper_def [of "ascii_upper c"] by (auto simp: of_char_ascii_upper Let_def)

lemma ascii_upper_lower [simp]: "ascii_upper (ascii_lower c) = ascii_upper c"
  by (auto simp: ascii_upper_def of_char_ascii_lower Let_def) (auto simp: ascii_lower_def Let_def)

lemma is_ascii_map_lower [simp]: "is_ascii s \<Longrightarrow> is_ascii (map ascii_lower s)"
  by (induction s) (auto simp: of_char_ascii_lower Let_def)

lemma is_ascii_map_upper [simp]: "is_ascii s \<Longrightarrow> is_ascii (map ascii_upper s)"
  by (induction s) (auto simp: of_char_ascii_upper Let_def)

lemma ToLower_ascii [go_text]: "is_ascii s \<Longrightarrow> ToLower U s = map ascii_lower s"
  by (simp add: ToLower_def)

lemma ToUpper_ascii [go_text]: "is_ascii s \<Longrightarrow> ToUpper U s = map ascii_upper s"
  by (simp add: ToUpper_def)

lemma ascii_space_lower [simp]: "ascii_space (ascii_lower c) = ascii_space c"
  by (auto simp: IsSpace_def of_char_ascii_lower Let_def)

lemma ascii_space_upper [simp]: "ascii_space (ascii_upper c) = ascii_space c"
  by (auto simp: IsSpace_def of_char_ascii_upper Let_def)

lemma dropWhile_ascii_map:
  assumes "\<And>c. ascii_space (f c) = ascii_space c"
  shows "dropWhile ascii_space (map f s) = map f (dropWhile ascii_space s)"
  by (simp add: dropWhile_map comp_def assms)

lemma TrimSpace_map_ascii:
  assumes "is_ascii s" "is_ascii (map f s)" "\<And>c. ascii_space (f c) = ascii_space c"
  shows "TrimSpace (map f s) = map f (TrimSpace s)"
  by (simp add: TrimSpace_ascii [OF assms(1)] TrimSpace_ascii [OF assms(2)]
      dropWhile_ascii_map [OF assms(3)] rev_map)

text \<open>\<open>strings.ToLower(strings.TrimSpace(s))\<close> is idempotent on ASCII text.\<close>

lemma lower_trim_idem:
  assumes "is_ascii s"
  shows "ToLower U (TrimSpace (ToLower U (TrimSpace s))) = ToLower U (TrimSpace s)"
  using assms
  by (simp add: ToLower_ascii is_ascii_TrimSpace TrimSpace_map_ascii TrimSpace_idem comp_def)

section \<open>Valid UTF-8\<close>

definition bad_seg :: "rune \<times> string \<Rightarrow> bool" where
  "bad_seg p = (fst p = RuneError \<and> length (snd p) = 1)"

definition valid_utf8 :: "string \<Rightarrow> bool" where
  "valid_utf8 s = list_all (\<lambda>p. \<not> bad_seg p) (segs s)"

lemma good_seg: "s \<noteq> [] \<Longrightarrow> \<not> bad_seg (r, take n s) \<Longrightarrow> n \<noteq> 1 \<or> r \<noteq> RuneError"
  by (cases s) (auto simp: bad_seg_def)

lemma is_ascii_valid_utf8: "is_ascii s \<Longrightarrow> valid_utf8 s"
  by (auto simp: valid_utf8_def segs_ascii bad_seg_def RuneError_def list_all_iff is_ascii_set)

lemma decode_bytes_stable:
  "decode_bytes bs = (r, n) \<Longrightarrow> bs \<noteq> [] \<Longrightarrow> n \<noteq> 1 \<or> r \<noteq> RuneError \<Longrightarrow>
   decode_bytes (take n bs @ rest) = (r, n)"
  by (cases bs) (auto simp: RuneError_def split: if_splits list.splits)

text \<open>The digits of a rune in base 64, as the encoder extracts them.\<close>

lemma digits64:
  fixes x y :: nat
  assumes "y < 64"
  shows "(x * 64 + y) div 64 = x" "(x * 64 + y) mod 64 = y"
  using assms by auto

lemma digits64_3:
  fixes x y z :: nat
  assumes "y < 64" "z < 64"
  shows "(x * 4096 + y * 64 + z) div 4096 = x" "(x * 4096 + y * 64 + z) div 64 mod 64 = y"
    "(x * 4096 + y * 64 + z) mod 64 = z"
proof -
  have eq: "x * 4096 + y * 64 + z = (x * 64 + y) * 64 + z" by simp
  have "(x * 4096 + y * 64 + z) div 4096 = ((x * 64 + y) * 64 + z) div 64 div 64"
    unfolding eq by (simp add: div_mult2_eq [symmetric])
  then show "(x * 4096 + y * 64 + z) div 4096 = x"
    using assms by (simp only: digits64)
  show "(x * 4096 + y * 64 + z) div 64 mod 64 = y" "(x * 4096 + y * 64 + z) mod 64 = z"
    using assms by (simp_all only: eq digits64)
qed

lemma digits64_4:
  fixes x y z w :: nat
  assumes "y < 64" "z < 64" "w < 64"
  shows "(x * 262144 + y * 4096 + z * 64 + w) div 262144 = x"
    "(x * 262144 + y * 4096 + z * 64 + w) div 4096 mod 64 = y"
    "(x * 262144 + y * 4096 + z * 64 + w) div 64 mod 64 = z"
    "(x * 262144 + y * 4096 + z * 64 + w) mod 64 = w"
proof -
  let ?r = "x * 262144 + y * 4096 + z * 64 + w"
  have eq: "?r = (x * 4096 + y * 64 + z) * 64 + w" by simp
  have d: "?r div 64 = x * 4096 + y * 64 + z" and "?r mod 64 = w"
    using assms by (simp_all only: eq digits64)
  have "?r div 262144 = ?r div 64 div 4096" "?r div 4096 = ?r div 64 div 64"
    by (simp_all only: div_mult2_eq [symmetric]) simp_all
  then show "?r div 262144 = x" "?r div 4096 mod 64 = y" "?r div 64 mod 64 = z" "?r mod 64 = w"
    using assms d \<open>?r mod 64 = w\<close> by (simp_all only: digits64_3)
qed

lemma EncodeRune_2:
  assumes "2 \<le> x" "x < 32" "y < 64"
  shows "EncodeRune (x * 64 + y) = bytes [192 + x, 128 + y]"
proof -
  have "128 \<le> x * 64 + y" "x * 64 + y < 2048" using assms by auto
  then show ?thesis
    using assms(3) by (simp only: EncodeRune_def digits64) simp
qed

lemma EncodeRune_3:
  assumes "x < 16" "y < 64" "z < 64" "x = 0 \<longrightarrow> 32 \<le> y" "x = 13 \<longrightarrow> y < 32"
  shows "EncodeRune (x * 4096 + y * 64 + z) = bytes [224 + x, 128 + y, 128 + z]"
proof -
  let ?r = "x * 4096 + y * 64 + z"
  have "2048 \<le> ?r" "?r < 65536" "\<not> (55296 \<le> ?r \<and> ?r \<le> 57343)"
    using assms by (cases "x = 0"; cases "x = 13"; arith)+
  then show ?thesis
    using assms(2,3) by (simp only: EncodeRune_def digits64_3) simp
qed

lemma EncodeRune_4:
  assumes "x < 5" "y < 64" "z < 64" "w < 64" "x = 0 \<longrightarrow> 16 \<le> y" "x = 4 \<longrightarrow> y < 16"
  shows "EncodeRune (x * 262144 + y * 4096 + z * 64 + w)
         = bytes [240 + x, 128 + y, 128 + z, 128 + w]"
proof -
  let ?r = "x * 262144 + y * 4096 + z * 64 + w"
  have "65536 \<le> ?r" "?r \<le> 1114111"
    using assms by (cases "x = 0"; cases "x = 4"; arith)+
  then show ?thesis
    using assms(2-4) by (simp only: EncodeRune_def digits64_4) simp
qed

lemma encode_decoded_3:
  assumes "224 \<le> b0" "b0 \<le> 239" "cont (if b0 = 224 then 160 else 128) (if b0 = 237 then 159 else 191) b1"
    "cont 128 191 b2"
  shows "EncodeRune ((b0 - 224) * 4096 + (b1 - 128) * 64 + (b2 - 128)) = bytes [b0, b1, b2]"
  using EncodeRune_3 [of "b0 - 224" "b1 - 128" "b2 - 128"] assms
  by (auto simp: cont_def split: if_splits)

lemma encode_decoded_4:
  assumes "240 \<le> b0" "b0 \<le> 244" "cont (if b0 = 240 then 144 else 128) (if b0 = 244 then 143 else 191) b1"
    "cont 128 191 b2" "cont 128 191 b3"
  shows "EncodeRune ((b0 - 240) * 262144 + (b1 - 128) * 4096 + (b2 - 128) * 64 + (b3 - 128))
         = bytes [b0, b1, b2, b3]"
  using EncodeRune_4 [of "b0 - 240" "b1 - 128" "b2 - 128" "b3 - 128"] assms
  by (auto simp: cont_def split: if_splits)

lemma encode_decoded_2:
  assumes "194 \<le> b0" "b0 \<le> 223" "cont 128 191 b1"
  shows "EncodeRune ((b0 - 192) * 64 + (b1 - 128)) = bytes [b0, b1]"
  using EncodeRune_2 [of "b0 - 192" "b1 - 128"] assms by (auto simp: cont_def)

lemma encode_decoded_bytes:
  assumes "decode_bytes bs = (r, n)" "bs \<noteq> []" "n \<noteq> 1 \<or> r \<noteq> RuneError"
  shows "EncodeRune r = bytes (take n bs)"
proof (cases bs)
  case (Cons b0 bs')
  consider "b0 < 128" | "194 \<le> b0" "b0 \<le> 223" | "224 \<le> b0" "b0 \<le> 239" | "240 \<le> b0" "b0 \<le> 244"
    using assms Cons by (fastforce split: if_splits)
  then show ?thesis
  proof cases
    case 1
    then show ?thesis using assms Cons by (auto simp: EncodeRune_def)
  next
    case 2
    then obtain b1 rest where "bs' = b1 # rest" "cont 128 191 b1" "r = (b0 - 192) * 64 + (b1 - 128)" "n = 2"
      using assms Cons by (auto split: if_splits list.splits)
    then show ?thesis using 2 Cons encode_decoded_2 [of b0 b1] by simp
  next
    case 3
    then obtain b1 b2 rest where "bs' = b1 # b2 # rest"
      "cont (if b0 = 224 then 160 else 128) (if b0 = 237 then 159 else 191) b1" "cont 128 191 b2"
      "r = (b0 - 224) * 4096 + (b1 - 128) * 64 + (b2 - 128)" "n = 3"
      using assms Cons by (auto split: if_splits list.splits)
    then show ?thesis using 3 Cons encode_decoded_3 [of b0 b1 b2] by simp
  next
    case 4
    then obtain b1 b2 b3 rest where "bs' = b1 # b2 # b3 # rest"
      "cont (if b0 = 240 then 144 else 128) (if b0 = 244 then 143 else 191) b1"
      "cont 128 191 b2" "cont 128 191 b3"
      "r = (b0 - 240) * 262144 + (b1 - 128) * 4096 + (b2 - 128) * 64 + (b3 - 128)" "n = 4"
      using assms Cons by (auto split: if_splits list.splits)
    then show ?thesis using 4 Cons encode_decoded_4 [of b0 b1 b2 b3] by simp
  qed
qed (use assms in simp)

lemma bytes_of_char [simp]: "bytes (map of_char s) = s"
  by (induction s) (auto simp: bytes_def)

lemma encode_decoded:
  assumes "DecodeRune s = (r, n)" "s \<noteq> []" "n \<noteq> 1 \<or> r \<noteq> RuneError"
  shows "EncodeRune r = take n s"
  using encode_decoded_bytes [of "map of_char s" r n] assms
  by (simp add: DecodeRune_def take_map)

lemma DecodeRune_stable:
  assumes "DecodeRune s = (r, n)" "s \<noteq> []" "n \<noteq> 1 \<or> r \<noteq> RuneError"
  shows "DecodeRune (take n s @ rest) = (r, n)"
  using decode_bytes_stable [of "map of_char s" r n "map of_char rest"] assms
  by (simp add: DecodeRune_def take_map)

end
