(* ===== verification/GoJson.thy ===== *)
theory GoJson
  imports GoText
begin

text \<open>
  The parts of Go's \<open>encoding/json\<close> that the session store relies on: string quoting as
  \<open>json.Marshal\<close> does it (HTML escaping on, invalid UTF-8 replaced), a parser for JSON
  texts as \<open>json.Unmarshal\<close> reads them (RFC 8259 grammar, \<open>\uXXXX\<close> escapes with surrogate
  pairs, invalid UTF-8 replaced), and the case-insensitive field match. The parser carries
  fuel; \<open>json_parse\<close> starts it with twice the text's length plus two, one unit per value or
  list element plus one per separator, more than a parse can use.
\<close>

section \<open>Quoting\<close>

definition hex_digit :: "nat \<Rightarrow> char" where
  "hex_digit n = (if n < 10 then char_of (48 + n) else char_of (87 + n))"

definition html_safe :: "nat \<Rightarrow> bool" where
  "html_safe n = (32 \<le> n \<and> n < 128 \<and> n \<notin> {34, 38, 60, 62, 92})"

definition quote_seg :: "rune \<times> string \<Rightarrow> string" where
  "quote_seg p =
     (let r = fst p; raw = snd p in
      if r < 128 then
        (if html_safe r then raw
         else if r = 34 \<or> r = 92 then CHR 0x5C # raw
         else if r = 8 then [CHR 0x5C, CHR ''b'']
         else if r = 12 then [CHR 0x5C, CHR ''f'']
         else if r = 10 then [CHR 0x5C, CHR ''n'']
         else if r = 13 then [CHR 0x5C, CHR ''r'']
         else if r = 9 then [CHR 0x5C, CHR ''t'']
         else CHR 0x5C # ''u00'' @ [hex_digit (r div 16), hex_digit (r mod 16)])
      else if bad_seg p then CHR 0x5C # ''ufffd''
      else if r = 8232 \<or> r = 8233 then CHR 0x5C # ''u202'' @ [hex_digit (r mod 16)]
      else raw)"

definition quote_body :: "string \<Rightarrow> string" where
  "quote_body s = concat (map quote_seg (segs s))"

definition json_quote :: "string \<Rightarrow> string" where
  "json_quote s = CHR 0x22 # quote_body s @ [CHR 0x22]"

section \<open>Parsing\<close>

datatype json =
    JNull
  | JBool bool
  | JNum string
  | JStr string
  | JArr "json list"
  | JObj "(string \<times> json) list"

definition hex_val :: "char \<Rightarrow> nat option" where
  "hex_val c =
     (let n = of_char c :: nat in
      if 48 \<le> n \<and> n \<le> 57 then Some (n - 48)
      else if 97 \<le> n \<and> n \<le> 102 then Some (n - 87)
      else if 65 \<le> n \<and> n \<le> 70 then Some (n - 55)
      else None)"

fun hex4 :: "string \<Rightarrow> (nat \<times> string) option" where
  "hex4 (a # b # c # d # rest) =
     (case (hex_val a, hex_val b, hex_val c, hex_val d) of
        (Some a', Some b', Some c', Some d') \<Rightarrow>
          Some (a' * 4096 + b' * 256 + c' * 16 + d', rest)
      | _ \<Rightarrow> None)"
| "hex4 _ = None"

text \<open>\<open>getu4\<close>: a whole \<open>\uXXXX\<close> escape at the front.\<close>

fun getu4 :: "string \<Rightarrow> (nat \<times> string) option" where
  "getu4 (x # y # rest) = (if x = CHR 0x5C \<and> y = CHR ''u'' then hex4 rest else None)"
| "getu4 _ = None"

text \<open>\<open>utf16.IsSurrogate\<close> and \<open>utf16.DecodeRune\<close> as the unquoter combines them: the rune
  written for an escape \<open>rr\<close> and the text left.\<close>

definition escape_rune :: "nat \<Rightarrow> string \<Rightarrow> rune \<times> string" where
  "escape_rune rr rest =
     (if 55296 \<le> rr \<and> rr \<le> 57343 then
        (case getu4 rest of
           Some (rr1, rest') \<Rightarrow>
             if rr < 56320 \<and> 56320 \<le> rr1 \<and> rr1 \<le> 57343
             then ((rr - 55296) * 1024 + (rr1 - 56320) + 65536, rest')
             else (RuneError, rest)
         | None \<Rightarrow> (RuneError, rest))
      else (rr, rest))"

definition simple_escape :: "char \<Rightarrow> string option" where
  "simple_escape c =
     (if c = CHR 0x22 \<or> c = CHR 0x5C \<or> c = CHR ''/'' then Some [c]
      else if c = CHR ''b'' then Some [char_of (8::nat)]
      else if c = CHR ''f'' then Some [char_of (12::nat)]
      else if c = CHR ''n'' then Some [char_of (10::nat)]
      else if c = CHR ''r'' then Some [char_of (13::nat)]
      else if c = CHR ''t'' then Some [char_of (9::nat)]
      else None)"

lemma hex4_length: "hex4 s = Some (n, rest) \<Longrightarrow> length rest < length s"
  by (cases s rule: hex4.cases) (auto split: option.splits)

lemma getu4_length: "getu4 s = Some (n, rest) \<Longrightarrow> length rest < length s"
  by (cases s rule: getu4.cases) (auto split: if_splits dest: hex4_length)

lemma escape_rune_length: "length (snd (escape_rune rr rest)) \<le> length rest"
  by (auto simp: escape_rune_def split: option.splits dest: getu4_length)

text \<open>The text after an opening quote: the unquoted contents and what follows the closing one.\<close>

function parse_str :: "string \<Rightarrow> string \<Rightarrow> (string \<times> string) option" where
  "parse_str [] acc = None"
| "parse_str (c # cs) acc =
     (if c = CHR 0x22 then Some (acc, cs)
      else if c = CHR 0x5C then
        (case cs of
           [] \<Rightarrow> None
         | e # rest \<Rightarrow>
             if e = CHR ''u'' then
               (case hex4 rest of
                  None \<Rightarrow> None
                | Some (rr, rest') \<Rightarrow>
                    parse_str (snd (escape_rune rr rest')) (acc @ EncodeRune (fst (escape_rune rr rest'))))
             else
               (case simple_escape e of
                  None \<Rightarrow> None
                | Some t \<Rightarrow> parse_str rest (acc @ t)))
      else if of_char c < (32::nat) then None
      else
        parse_str (drop (snd (DecodeRune (c # cs))) (c # cs))
          (acc @ EncodeRune (fst (DecodeRune (c # cs)))))"
  by pat_completeness auto
termination
proof (relation "measure (\<lambda>(s, _). length s)", goal_cases)
  case (2 c cs acc e rest p rr rest')
  then show ?case
    using hex4_length [of rest rr rest'] escape_rune_length [of rr rest'] by auto
next
  case (4 c cs acc)
  then show ?case
    using decode_bytes_size [of "of_char c" "map of_char cs"] by (auto simp: DecodeRune_def)
qed auto

declare parse_str.simps(2) [simp del]

definition skip_ws :: "string \<Rightarrow> string" where
  "skip_ws s = dropWhile (\<lambda>c. (of_char c :: nat) \<in> {9, 10, 13, 32}) s"

fun strip :: "string \<Rightarrow> string \<Rightarrow> string option" where
  "strip [] s = Some s"
| "strip (p # ps) (c # cs) = (if p = c then strip ps cs else None)"
| "strip (p # ps) [] = None"

definition is_digit :: "char \<Rightarrow> bool" where
  "is_digit c = (48 \<le> (of_char c :: nat) \<and> (of_char c :: nat) \<le> 57)"

text \<open>Numbers: \<open>-? (0 | [1-9][0-9]*) (. [0-9]+)? ([eE] [+-]? [0-9]+)?\<close>.\<close>

definition digits1 :: "string \<Rightarrow> (string \<times> string) option" where
  "digits1 s = (let d = takeWhile is_digit s in
                if d = [] then None else Some (d, dropWhile is_digit s))"

definition parse_frac :: "string \<Rightarrow> (string \<times> string) option" where
  "parse_frac s =
     (case s of
        c # cs \<Rightarrow> if c = CHR ''.'' then map_option (\<lambda>(d, r). (c # d, r)) (digits1 cs) else Some ([], s)
      | [] \<Rightarrow> Some ([], s))"

definition parse_exp :: "string \<Rightarrow> (string \<times> string) option" where
  "parse_exp s =
     (case s of
        c # cs \<Rightarrow>
          if c = CHR ''e'' \<or> c = CHR ''E'' then
            (case cs of
               x # xs \<Rightarrow>
                 if x = CHR ''+'' \<or> x = CHR ''-''
                 then map_option (\<lambda>(d, r). (c # x # d, r)) (digits1 xs)
                 else map_option (\<lambda>(d, r). (c # d, r)) (digits1 cs)
             | [] \<Rightarrow> None)
          else Some ([], s)
      | [] \<Rightarrow> Some ([], s))"

definition parse_int :: "string \<Rightarrow> (string \<times> string) option" where
  "parse_int s =
     (case s of
        c # cs \<Rightarrow> if c = CHR ''0'' then Some ([c], cs) else digits1 s
      | [] \<Rightarrow> None)"

definition parse_num :: "string \<Rightarrow> (string \<times> string) option" where
  "parse_num s =
     (let (sg, s1) = (case s of c # cs \<Rightarrow> if c = CHR ''-'' then ([c], cs) else ([], s) | [] \<Rightarrow> ([], s)) in
      Option.bind (parse_int s1) (\<lambda>(i, s2).
      Option.bind (parse_frac s2) (\<lambda>(f, s3).
      map_option (\<lambda>(e, s4). (sg @ i @ f @ e, s4)) (parse_exp s3))))"

fun parse_val :: "nat \<Rightarrow> string \<Rightarrow> (json \<times> string) option"
  and parse_members :: "nat \<Rightarrow> string \<Rightarrow> (string \<times> json) list \<Rightarrow> (json \<times> string) option"
  and parse_elems :: "nat \<Rightarrow> string \<Rightarrow> json list \<Rightarrow> (json \<times> string) option" where
  "parse_val 0 s = None"
| "parse_val (Suc f) s =
     (case s of
        [] \<Rightarrow> None
      | c # cs \<Rightarrow>
          if c = CHR 0x22 then map_option (\<lambda>(t, r). (JStr t, r)) (parse_str cs [])
          else if c = CHR ''{'' then
            (case strip ''}'' (skip_ws cs) of
               Some r \<Rightarrow> Some (JObj [], r)
             | None \<Rightarrow> parse_members f (skip_ws cs) [])
          else if c = CHR ''['' then
            (case strip '']'' (skip_ws cs) of
               Some r \<Rightarrow> Some (JArr [], r)
             | None \<Rightarrow> parse_elems f (skip_ws cs) [])
          else
            (case strip ''true'' s of
               Some r \<Rightarrow> Some (JBool True, r)
             | None \<Rightarrow>
                 (case strip ''false'' s of
                    Some r \<Rightarrow> Some (JBool False, r)
                  | None \<Rightarrow>
                      (case strip ''null'' s of
                         Some r \<Rightarrow> Some (JNull, r)
                       | None \<Rightarrow> map_option (\<lambda>(n, r). (JNum n, r)) (parse_num s)))))"
| "parse_members 0 s acc = None"
| "parse_members (Suc f) s acc =
     Option.bind (strip [CHR 0x22] s) (\<lambda>s1.
     Option.bind (parse_str s1 []) (\<lambda>(k, s2).
     Option.bind (strip '':'' (skip_ws s2)) (\<lambda>s3.
     Option.bind (parse_val f (skip_ws s3)) (\<lambda>(v, s4).
       (case strip ''}'' (skip_ws s4) of
          Some r \<Rightarrow> Some (JObj (acc @ [(k, v)]), r)
        | None \<Rightarrow>
            Option.bind (strip '','' (skip_ws s4)) (\<lambda>s5.
            parse_members f (skip_ws s5) (acc @ [(k, v)])))))))"
| "parse_elems 0 s acc = None"
| "parse_elems (Suc f) s acc =
     Option.bind (parse_val f s) (\<lambda>(v, s1).
       (case strip '']'' (skip_ws s1) of
          Some r \<Rightarrow> Some (JArr (acc @ [v]), r)
        | None \<Rightarrow>
            Option.bind (strip '','' (skip_ws s1)) (\<lambda>s2.
            parse_elems f (skip_ws s2) (acc @ [v]))))"

definition json_parse :: "string \<Rightarrow> json option" where
  "json_parse s =
     (case parse_val (2 * length s + 2) (skip_ws s) of
        Some (v, rest) \<Rightarrow> if skip_ws rest = [] then Some v else None
      | None \<Rightarrow> None)"

text \<open>\<open>foldName\<close>: field names match up to ASCII case, U+017F and U+212A.\<close>

definition fold_rune :: "rune \<Rightarrow> rune" where
  "fold_rune r = (if 97 \<le> r \<and> r \<le> 122 then r - 32 else if r = 383 then 83 else if r = 8490 then 75 else r)"

definition field_matches :: "string \<Rightarrow> string \<Rightarrow> bool" where
  "field_matches name key = (map_runes fold_rune name = map_runes fold_rune key)"

section \<open>Unquoting inverts quoting\<close>

lemma parse_str_close [simp]: "parse_str (CHR 0x22 # rest) acc = Some (acc, rest)"
  by (simp add: parse_str.simps(2))

lemma parse_str_plain:
  assumes "32 \<le> (of_char c :: nat)" "of_char c < (128::nat)" "c \<noteq> CHR 0x22" "c \<noteq> CHR 0x5C"
  shows "parse_str (c # rest) acc = parse_str rest (acc @ [c])"
  using assms by (simp add: parse_str.simps(2) DecodeRune_def EncodeRune_def bytes_def)

lemma parse_str_simple:
  assumes "simple_escape e = Some t"
  shows "parse_str (CHR 0x5C # e # rest) acc = parse_str rest (acc @ t)"
proof -
  have "e \<noteq> CHR ''u''" using assms by (auto simp: simple_escape_def)
  then show ?thesis using assms by (simp add: parse_str.simps(2))
qed

lemma parse_str_unicode:
  assumes "hex4 hs = Some (rr, rest)" "rr < 55296"
  shows "parse_str (CHR 0x5C # CHR ''u'' # hs) acc = parse_str rest (acc @ EncodeRune rr)"
  using assms by (simp add: parse_str.simps(2) escape_rune_def)

lemma parse_str_rune:
  assumes "DecodeRune s = (r, n)" "s \<noteq> []" "\<not> bad_seg (r, take n s)" "128 \<le> r"
  shows "parse_str (take n s @ rest) acc = parse_str rest (acc @ take n s)"
proof -
  obtain c cs where s: "s = c # cs" using assms(2) by (cases s) auto
  have n: "0 < n" "n \<le> length s"
    using decode_bytes_size [of "of_char c" "map of_char cs"] assms(1) s
    by (auto simp: DecodeRune_def)
  have c: "128 \<le> (of_char c :: nat)"
  proof (rule ccontr)
    assume "\<not> 128 \<le> (of_char c :: nat)"
    then have "r = of_char c" using assms(1) s by (simp add: DecodeRune_def)
    with \<open>\<not> 128 \<le> (of_char c :: nat)\<close> assms(4) show False by simp
  qed
  have ok: "n \<noteq> 1 \<or> r \<noteq> RuneError" by (rule good_seg [OF assms(2,3)])
  have t: "take n s @ rest = c # (take (n - 1) cs @ rest)"
    using n(1) s by (cases n) auto
  have "DecodeRune (take n s @ rest) = (r, n)"
    by (rule DecodeRune_stable [OF assms(1,2) ok])
  moreover have "EncodeRune r = take n s" by (rule encode_decoded [OF assms(1,2) ok])
  moreover have "drop n (take n s @ rest) = rest" using n(2) by simp
  moreover have "c \<noteq> CHR 0x22" "c \<noteq> CHR 0x5C" using c by auto
  ultimately show ?thesis
    using c unfolding t by (simp add: parse_str.simps(2))
qed

lemma char_of_quote [simp]: "char_of (34::nat) = CHR 0x22" "char_of (92::nat) = CHR 0x5C"
  by (simp_all add: char_of_eq_iff)

lemma hex_val_digit: "n < 16 \<Longrightarrow> hex_val (hex_digit n) = Some n"
  by (auto simp: hex_val_def hex_digit_def)

lemma hex_val_zero [simp]: "hex_val CHR ''0'' = Some 0" "hex_val CHR ''2'' = Some 2"
  by (simp_all add: hex_val_def)

lemma parse_str_seg:
  assumes "DecodeRune s = (r, n)" "s \<noteq> []" "\<not> bad_seg (r, take n s)"
  shows "parse_str (quote_seg (r, take n s) @ rest) acc = parse_str rest (acc @ take n s)"
proof (cases "r < 128")
  case True
  obtain c cs where s: "s = c # cs" using assms(2) by (cases s) auto
  have rc: "of_char c = r" "n = 1"
    using assms(1) True s by (auto simp: DecodeRune_def RuneError_def cont_def split: if_splits list.splits)
  then have raw: "take n s = [c]" using s by simp
  have c: "c = char_of r" using rc(1) by auto
  show ?thesis
  proof (cases "html_safe r")
    case True
    then have "c \<noteq> CHR 0x22" "c \<noteq> CHR 0x5C" using rc by (auto simp: html_safe_def)
    then show ?thesis
      using True raw rc parse_str_plain [of c rest acc]
      by (auto simp: quote_seg_def html_safe_def Let_def)
  next
    case False
    consider "r \<in> {34, 92, 8, 12, 10, 13, 9}" | "r \<notin> {34, 92, 8, 12, 10, 13, 9}" by blast
    then show ?thesis
    proof cases
      case 1
      then show ?thesis
        using raw c by (auto simp: quote_seg_def html_safe_def parse_str_simple simple_escape_def)
    next
      case 2
      have "hex4 (CHR ''0'' # CHR ''0'' # hex_digit (r div 16) # hex_digit (r mod 16) # rest) = Some (r, rest)"
        using \<open>r < 128\<close> by (simp add: hex_val_digit)
      then show ?thesis
        using 2 False raw c \<open>r < 128\<close> parse_str_unicode [of _ r rest acc]
        by (simp add: quote_seg_def Let_def EncodeRune_def bytes_def)
    qed
  qed
next
  case False
  have enc: "EncodeRune r = take n s"
    by (rule encode_decoded [OF assms(1,2) good_seg [OF assms(2,3)]])
  show ?thesis
  proof (cases "r = 8232 \<or> r = 8233")
    case True
    then have "hex4 (''202'' @ hex_digit (r mod 16) # rest) = Some (r, rest)"
      by (auto simp: hex_val_digit)
    then show ?thesis
      using True False assms(3) enc parse_str_unicode [of _ r rest acc]
      by (auto simp: quote_seg_def)
  next
    case False
    with \<open>\<not> r < 128\<close> assms show ?thesis
      by (simp add: quote_seg_def parse_str_rune)
  qed
qed

lemma parse_str_quote:
  "valid_utf8 s \<Longrightarrow> parse_str (quote_body s @ CHR 0x22 # rest) acc = Some (acc @ s, rest)"
proof (induction s arbitrary: acc rule: segs.induct)
  case 1
  then show ?case by (simp add: quote_body_def)
next
  case (2 c cs)
  obtain r n where d: "DecodeRune (c # cs) = (r, n)" by fastforce
  have segs: "segs (c # cs) = (r, take n (c # cs)) # segs (drop n (c # cs))"
    by (simp add: segs.simps(2) d)
  have ok: "\<not> bad_seg (r, take n (c # cs))" and v: "valid_utf8 (drop n (c # cs))"
    using "2.prems" by (auto simp: valid_utf8_def segs)
  have "parse_str (quote_body (c # cs) @ CHR 0x22 # rest) acc
      = parse_str (quote_body (drop n (c # cs)) @ CHR 0x22 # rest) (acc @ take n (c # cs))"
    using parse_str_seg [OF d _ ok] by (simp add: quote_body_def segs)
  also have "\<dots> = Some (acc @ (c # cs), rest)"
    using "2.IH" [OF d [symmetric] refl v] by simp
  finally show ?case .
qed

section \<open>Flat objects\<close>

text \<open>The text \<open>json.Marshal\<close> prints for a struct whose fields are strings and booleans.\<close>

fun json_atom :: "json \<Rightarrow> string" where
  "json_atom (JStr s) = json_quote s"
| "json_atom (JBool b) = (if b then ''true'' else ''false'')"
| "json_atom _ = ''null''"

fun is_atom :: "json \<Rightarrow> bool" where
  "is_atom (JStr s) = valid_utf8 s"
| "is_atom (JBool b) = True"
| "is_atom _ = False"

fun json_members :: "(string \<times> json) list \<Rightarrow> string" where
  "json_members [] = []"
| "json_members [(k, v)] = json_quote k @ CHR '':'' # json_atom v"
| "json_members ((k, v) # kvs) = json_quote k @ CHR '':'' # json_atom v @ CHR '','' # json_members kvs"

definition json_object :: "(string \<times> json) list \<Rightarrow> string" where
  "json_object kvs = CHR ''{'' # json_members kvs @ ''}''"

lemma skip_ws_idle [simp]:
  "of_char c \<notin> {9, 10, 13, 32 :: nat} \<Longrightarrow> skip_ws (c # cs) = c # cs"
  by (simp add: skip_ws_def)

lemma skip_ws_Nil [simp]: "skip_ws [] = []"
  by (simp add: skip_ws_def)

lemma strip_self [simp]: "strip p (p @ s) = Some s"
  by (induction p) auto

lemma parse_atom:
  assumes "is_atom v"
  shows "parse_val (Suc f) (json_atom v @ rest) = Some (v, rest)"
  using assms
  by (cases v rule: is_atom.cases) (auto simp: json_quote_def parse_str_quote strip_self [of "''true''", simplified]
      strip_self [of "''false''", simplified])

lemma skip_ws_atom [simp]: "is_atom v \<Longrightarrow> skip_ws (json_atom v @ rest) = json_atom v @ rest"
  by (cases v rule: is_atom.cases) (auto simp: json_quote_def)

lemma skip_ws_members [simp]: "kvs \<noteq> [] \<Longrightarrow> skip_ws (json_members kvs @ rest) = json_members kvs @ rest"
  by (cases kvs rule: json_members.cases) (auto simp: json_quote_def)

lemma parse_members_object:
  assumes "kvs \<noteq> []" "list_all (\<lambda>(k, v). valid_utf8 k \<and> is_atom v) kvs" "length kvs \<le> f"
  shows "parse_members (Suc f) (json_members kvs @ CHR ''}'' # rest) acc = Some (JObj (acc @ kvs), rest)"
  using assms
proof (induction kvs arbitrary: f acc rule: json_members.induct)
  case (2 k v)
  then obtain f' where "f = Suc f'" by (cases f) auto
  with 2 show ?case
    by (simp add: json_quote_def parse_str_quote parse_atom del: parse_val.simps)
next
  case (3 k v kv kvs)
  then obtain f' where f: "f = Suc f'" by (cases f) auto
  have ih: "parse_members (Suc f') (json_members (kv # kvs) @ CHR ''}'' # rest) (acc @ [(k, v)])
      = Some (JObj ((acc @ [(k, v)]) @ kv # kvs), rest)"
    by (rule "3.IH") (use "3.prems" f in auto)
  with "3.prems" f show ?case
    by (simp add: json_quote_def parse_str_quote parse_atom del: parse_val.simps parse_members.simps(2))
      (simp add: parse_str_quote parse_atom del: parse_val.simps)
qed simp

lemma json_members_length: "2 * length kvs \<le> length (json_members kvs)"
  by (induction kvs rule: json_members.induct) (auto simp: json_quote_def)

text \<open>Parsing inverts printing, for objects with valid UTF-8 text.\<close>

lemma json_parse_object:
  assumes "kvs \<noteq> []" "list_all (\<lambda>(k, v). valid_utf8 k \<and> is_atom v) kvs"
  shows "json_parse (json_object kvs) = Some (JObj kvs)"
proof -
  let ?f = "2 * length (json_object kvs) + 1"
  have start: "strip ''}'' (json_members kvs @ ''}'') = None"
    using assms(1) by (cases kvs rule: json_members.cases) (auto simp: json_quote_def)
  have "length kvs \<le> 2 * length (json_object kvs)"
    using json_members_length [of kvs] by (simp add: json_object_def)
  then have "parse_members ?f (json_members kvs @ ''}'') [] = Some (JObj kvs, [])"
    using parse_members_object [OF assms, of "2 * length (json_object kvs)" "[]" "[]"] by simp
  then have "parse_val (Suc ?f) (json_object kvs) = Some (JObj kvs, [])"
    using start assms(1) by (simp add: json_object_def del: parse_members.simps)
  moreover have "skip_ws (json_object kvs) = json_object kvs"
    by (simp add: json_object_def)
  ultimately show ?thesis by (simp add: json_parse_def del: parse_val.simps)
qed

end
