(* ===== verification/Redis.thy ===== *)
theory Redis
  imports GoJson "HOL-Library.List_Lexorder" "HOL-Library.Char_ord"
begin

text \<open>
  The interface to the Redis service. Redis and its client library are not part of the
  repository, so the commands the server issues are a parameter: a record of type
  \<open>'r redis\<close> over an opaque server state \<open>'r\<close>. Every command takes the server's clock
  in milliseconds and returns a reply or an error, and the new server state.

  The locale \<open>redis_server\<close> states what the code relies on: there is a view of the server
  state as a keyspace on which every command acts as its documentation says (the \<open>ks_*\<close>
  functions). The reference server \<open>ks_redis\<close>, which is these functions, shows that the
  laws can hold. A simulation calculus lets every store operation over any such server be
  replayed on the keyspace.

  Round trips may fail: the connection carries a script of faults, one per round trip. A
  lost request changes nothing, a lost reply has taken effect; both are an error for Go.
\<close>

section \<open>Commands\<close>

datatype redis_error = WrongType | InvalidExpire | NotAnInteger | IncrOverflow

type_synonym ('r, 'a) cmd = "'r \<Rightarrow> (redis_error + 'a) \<times> 'r"

record 'r redis =
  rd_get :: "int \<Rightarrow> string \<Rightarrow> ('r, string option) cmd"
  rd_set :: "int \<Rightarrow> string \<Rightarrow> string \<Rightarrow> duration \<Rightarrow> ('r, unit) cmd"
  rd_set_px :: "int \<Rightarrow> string \<Rightarrow> string \<Rightarrow> int \<Rightarrow> ('r, unit) cmd"
  rd_del :: "int \<Rightarrow> string \<Rightarrow> ('r, unit) cmd"
  rd_pttl :: "int \<Rightarrow> string \<Rightarrow> ('r, int) cmd"
  rd_exists :: "int \<Rightarrow> string \<Rightarrow> ('r, int) cmd"
  rd_incr :: "int \<Rightarrow> string \<Rightarrow> ('r, int) cmd"
  rd_expire :: "int \<Rightarrow> string \<Rightarrow> int \<Rightarrow> ('r, unit) cmd"
  rd_expire_nx :: "int \<Rightarrow> string \<Rightarrow> duration \<Rightarrow> ('r, unit) cmd"
  rd_expire_gt :: "int \<Rightarrow> string \<Rightarrow> duration \<Rightarrow> ('r, unit) cmd"
  rd_zadd :: "int \<Rightarrow> string \<Rightarrow> int \<Rightarrow> string \<Rightarrow> ('r, unit) cmd"
  rd_zrem :: "int \<Rightarrow> string \<Rightarrow> string \<Rightarrow> ('r, unit) cmd"
  rd_zremrangebyscore :: "int \<Rightarrow> string \<Rightarrow> int \<Rightarrow> ('r, unit) cmd"
  rd_zrange :: "int \<Rightarrow> string \<Rightarrow> ('r, string list) cmd"
  rd_zrangebyscore :: "int \<Rightarrow> string \<Rightarrow> int \<Rightarrow> nat \<Rightarrow> ('r, string list) cmd"
  rd_cjson :: "string \<Rightarrow> (string \<Rightarrow> string option) option"

definition cret :: "'a \<Rightarrow> ('r, 'a) cmd" where
  "cret a r = (Inr a, r)"

text \<open>\<open>redis.call\<close> in a script: an error reply ends the script, earlier effects stay.\<close>

definition cbind :: "('r, 'a) cmd \<Rightarrow> ('a \<Rightarrow> ('r, 'b) cmd) \<Rightarrow> ('r, 'b) cmd" where
  "cbind m f r = (case m r of (Inl e, r') \<Rightarrow> (Inl e, r') | (Inr a, r') \<Rightarrow> f a r')"

text \<open>A pipeline sends its commands together; each one runs whatever the others reply.\<close>

fun run_all :: "('r, 'a) cmd list \<Rightarrow> 'r \<Rightarrow> (redis_error + 'a) list \<times> 'r" where
  "run_all [] r = ([], r)"
| "run_all (m # ms) r =
     (let (x, r1) = m r; (xs, r2) = run_all ms r1 in (x # xs, r2))"

definition pipelined :: "('r, 'a) cmd list \<Rightarrow> ('r, 'a list) cmd" where
  "pipelined ms r =
     (let (xs, r') = run_all ms r in
      (case first_error xs of Some e \<Rightarrow> Inl e | None \<Rightarrow> Inr (map projr xs), r'))"

section \<open>Connections\<close>

datatype fault = Delivered | RequestLost | ReplyLost

datatype client_error = NetError | ReplyError redis_error

record 'r conn =
  server :: 'r
  clock :: int
  faults :: "fault list"

text \<open>A round trip; \<open>redis.Nil\<close> is an ordinary reply here (\<^const>\<open>None\<close> of \<open>rd_get\<close>).\<close>

definition call :: "(int \<Rightarrow> ('r, 'a) cmd) \<Rightarrow> 'r conn \<Rightarrow> (client_error + 'a) \<times> 'r conn" where
  "call m c =
     (let (x, r') = m (clock c) (server c) in
      (case faults c of
         [] \<Rightarrow> (map_sum ReplyError id x, c\<lparr>server := r'\<rparr>)
       | Delivered # fs \<Rightarrow> (map_sum ReplyError id x, c\<lparr>server := r', faults := fs\<rparr>)
       | RequestLost # fs \<Rightarrow> (Inl NetError, c\<lparr>faults := fs\<rparr>)
       | ReplyLost # fs \<Rightarrow> (Inl NetError, c\<lparr>server := r', faults := fs\<rparr>)))"

section \<open>The keyspace view\<close>

type_synonym zset = "(string \<times> int) list"

datatype rvalue = RStr string | RInt int | RZset zset

type_synonym entry = "rvalue \<times> int option"
type_synonym keyspace = "string \<Rightarrow> entry option"

text \<open>A key with expiry \<open>e\<close> exists while the clock is at most \<open>e\<close>; its PTTL is then \<open>e - t\<close>.\<close>

definition live :: "int \<Rightarrow> keyspace \<Rightarrow> keyspace" where
  "live t ks k =
     (case ks k of
        Some (v, Some e) \<Rightarrow> if t \<le> e then Some (v, Some e) else None
      | x \<Rightarrow> x)"

fun dec_nat :: "nat \<Rightarrow> string" where
  "dec_nat n = (if n < 10 then [char_of (48 + n)] else dec_nat (n div 10) @ [char_of (48 + n mod 10)])"

declare dec_nat.simps [simp del]

definition dec_int :: "int \<Rightarrow> string" where
  "dec_int i = (if i < 0 then CHR ''-'' # dec_nat (nat (- i)) else dec_nat (nat i))"

definition ks_get :: "int \<Rightarrow> string \<Rightarrow> (keyspace, string option) cmd" where
  "ks_get t k ks =
     (case live t ks k of
        None \<Rightarrow> (Inr None, ks)
      | Some (RStr s, _) \<Rightarrow> (Inr (Some s), ks)
      | Some (RInt i, _) \<Rightarrow> (Inr (Some (dec_int i)), ks)
      | Some (RZset _, _) \<Rightarrow> (Inl WrongType, ks))"

definition ks_set_px :: "int \<Rightarrow> string \<Rightarrow> string \<Rightarrow> int \<Rightarrow> (keyspace, unit) cmd" where
  "ks_set_px t k v ms ks =
     (if ms \<le> 0 then (Inl InvalidExpire, ks) else (Inr (), ks(k \<mapsto> (RStr v, Some (t + ms)))))"

text \<open>Durations are sent as milliseconds or seconds, truncated, but at least one unit.\<close>

definition dur_ms :: "duration \<Rightarrow> int" where
  "dur_ms d = (if 0 < d \<and> d < millisecond then 1 else quot d millisecond)"

definition dur_s :: "duration \<Rightarrow> int" where
  "dur_s d = (if 0 < d \<and> d < second then 1 else quot d second)"

definition ks_set :: "int \<Rightarrow> string \<Rightarrow> string \<Rightarrow> duration \<Rightarrow> (keyspace, unit) cmd" where
  "ks_set t k v d = ks_set_px t k v (dur_ms d)"

definition ks_del :: "int \<Rightarrow> string \<Rightarrow> (keyspace, unit) cmd" where
  "ks_del t k ks = (Inr (), ks(k := None))"

definition ks_pttl :: "int \<Rightarrow> string \<Rightarrow> (keyspace, int) cmd" where
  "ks_pttl t k ks =
     (case live t ks k of
        None \<Rightarrow> (Inr (-2), ks)
      | Some (_, None) \<Rightarrow> (Inr (-1), ks)
      | Some (_, Some e) \<Rightarrow> (Inr (e - t), ks))"

definition ks_exists :: "int \<Rightarrow> string \<Rightarrow> (keyspace, int) cmd" where
  "ks_exists t k ks = (Inr (if live t ks k = None then 0 else 1), ks)"

definition ks_incr :: "int \<Rightarrow> string \<Rightarrow> (keyspace, int) cmd" where
  "ks_incr t k ks =
     (case live t ks k of
        None \<Rightarrow> (Inr 1, ks(k \<mapsto> (RInt 1, None)))
      | Some (RInt i, e) \<Rightarrow>
          if i = 9223372036854775807 then (Inl IncrOverflow, ks)
          else (Inr (i + 1), ks(k \<mapsto> (RInt (i + 1), e)))
      | Some (RStr _, _) \<Rightarrow> (Inl NotAnInteger, ks)
      | Some (RZset _, _) \<Rightarrow> (Inl WrongType, ks))"

definition ks_expire_if :: "(int option \<Rightarrow> int \<Rightarrow> bool) \<Rightarrow> int \<Rightarrow> string \<Rightarrow> int \<Rightarrow> (keyspace, unit) cmd" where
  "ks_expire_if cond t k s ks =
     (case live t ks k of
        None \<Rightarrow> (Inr (), ks)
      | Some (v, e) \<Rightarrow>
          if \<not> cond e (t + s * 1000) then (Inr (), ks)
          else if s \<le> 0 then (Inr (), ks(k := None))
          else (Inr (), ks(k \<mapsto> (v, Some (t + s * 1000)))))"

definition ks_expire :: "int \<Rightarrow> string \<Rightarrow> int \<Rightarrow> (keyspace, unit) cmd" where
  "ks_expire = ks_expire_if (\<lambda>_ _. True)"

definition ks_expire_nx :: "int \<Rightarrow> string \<Rightarrow> duration \<Rightarrow> (keyspace, unit) cmd" where
  "ks_expire_nx t k d = ks_expire_if (\<lambda>e _. e = None) t k (dur_s d)"

definition ks_expire_gt :: "int \<Rightarrow> string \<Rightarrow> duration \<Rightarrow> (keyspace, unit) cmd" where
  "ks_expire_gt t k d =
     ks_expire_if (\<lambda>e n. case e of None \<Rightarrow> False | Some x \<Rightarrow> x < n) t k (dur_s d)"

text \<open>Sorted sets: members ordered by score, then by name.\<close>

fun zinsert :: "int \<Rightarrow> string \<Rightarrow> zset \<Rightarrow> zset" where
  "zinsert s m [] = [(m, s)]"
| "zinsert s m ((m', s') # zs) =
     (if s < s' \<or> (s = s' \<and> m < m') then (m, s) # (m', s') # zs else (m', s') # zinsert s m zs)"

definition zset_add :: "int \<Rightarrow> string \<Rightarrow> zset \<Rightarrow> zset" where
  "zset_add s m zs = zinsert s m (filter (\<lambda>p. fst p \<noteq> m) zs)"

definition put_zset :: "string \<Rightarrow> zset \<Rightarrow> int option \<Rightarrow> keyspace \<Rightarrow> keyspace" where
  "put_zset k zs e ks = (if zs = [] then ks(k := None) else ks(k \<mapsto> (RZset zs, e)))"

text \<open>A command that rewrites a sorted set; a missing key is an empty set.\<close>

definition on_zset :: "(zset \<Rightarrow> zset) \<Rightarrow> int \<Rightarrow> string \<Rightarrow> (keyspace, unit) cmd" where
  "on_zset f t k ks =
     (case live t ks k of
        None \<Rightarrow> (Inr (), put_zset k (f []) None ks)
      | Some (RZset zs, e) \<Rightarrow> (Inr (), put_zset k (f zs) e ks)
      | Some _ \<Rightarrow> (Inl WrongType, ks))"

definition ks_zadd :: "int \<Rightarrow> string \<Rightarrow> int \<Rightarrow> string \<Rightarrow> (keyspace, unit) cmd" where
  "ks_zadd t k s m = on_zset (zset_add s m) t k"

definition ks_zrem :: "int \<Rightarrow> string \<Rightarrow> string \<Rightarrow> (keyspace, unit) cmd" where
  "ks_zrem t k m = on_zset (filter (\<lambda>p. fst p \<noteq> m)) t k"

definition ks_zremrangebyscore :: "int \<Rightarrow> string \<Rightarrow> int \<Rightarrow> (keyspace, unit) cmd" where
  "ks_zremrangebyscore t k hi = on_zset (filter (\<lambda>p. hi < snd p)) t k"

definition ask_zset :: "(zset \<Rightarrow> string list) \<Rightarrow> int \<Rightarrow> string \<Rightarrow> (keyspace, string list) cmd" where
  "ask_zset f t k ks =
     (case live t ks k of
        None \<Rightarrow> (Inr (f []), ks)
      | Some (RZset zs, _) \<Rightarrow> (Inr (f zs), ks)
      | Some _ \<Rightarrow> (Inl WrongType, ks))"

definition ks_zrange :: "int \<Rightarrow> string \<Rightarrow> (keyspace, string list) cmd" where
  "ks_zrange = ask_zset (map fst)"

definition ks_zrangebyscore :: "int \<Rightarrow> string \<Rightarrow> int \<Rightarrow> nat \<Rightarrow> (keyspace, string list) cmd" where
  "ks_zrangebyscore t k lo n = ask_zset (\<lambda>zs. take n (map fst (filter (\<lambda>p. lo \<le> snd p) zs))) t k"

definition atom_field :: "(string \<times> json) list \<Rightarrow> string \<Rightarrow> string option" where
  "atom_field kvs k = (case map_of kvs k of Some (JStr v) \<Rightarrow> Some v | _ \<Rightarrow> None)"

definition ks_cjson :: "string \<Rightarrow> (string \<Rightarrow> string option) option" where
  "ks_cjson s = (case json_parse s of Some (JObj kvs) \<Rightarrow> Some (atom_field kvs) | _ \<Rightarrow> None)"

definition ks_redis :: "(string \<Rightarrow> (string \<Rightarrow> string option) option) \<Rightarrow> keyspace redis" where
  "ks_redis cj =
     \<lparr>rd_get = ks_get, rd_set = ks_set, rd_set_px = ks_set_px, rd_del = ks_del,
      rd_pttl = ks_pttl, rd_exists = ks_exists, rd_incr = ks_incr, rd_expire = ks_expire,
      rd_expire_nx = ks_expire_nx, rd_expire_gt = ks_expire_gt, rd_zadd = ks_zadd,
      rd_zrem = ks_zrem, rd_zremrangebyscore = ks_zremrangebyscore, rd_zrange = ks_zrange,
      rd_zrangebyscore = ks_zrangebyscore, rd_cjson = cj\<rparr>"

lemma ks_redis_simps [simp]:
  "rd_get (ks_redis cj) = ks_get"
  "rd_set (ks_redis cj) = ks_set"
  "rd_set_px (ks_redis cj) = ks_set_px"
  "rd_del (ks_redis cj) = ks_del"
  "rd_pttl (ks_redis cj) = ks_pttl"
  "rd_exists (ks_redis cj) = ks_exists"
  "rd_incr (ks_redis cj) = ks_incr"
  "rd_expire (ks_redis cj) = ks_expire"
  "rd_expire_nx (ks_redis cj) = ks_expire_nx"
  "rd_expire_gt (ks_redis cj) = ks_expire_gt"
  "rd_zadd (ks_redis cj) = ks_zadd"
  "rd_zrem (ks_redis cj) = ks_zrem"
  "rd_zremrangebyscore (ks_redis cj) = ks_zremrangebyscore"
  "rd_zrange (ks_redis cj) = ks_zrange"
  "rd_zrangebyscore (ks_redis cj) = ks_zrangebyscore"
  "rd_cjson (ks_redis cj) = cj"
  by (simp_all add: ks_redis_def)

section \<open>Simulation\<close>

definition sim :: "('r \<Rightarrow> 's) \<Rightarrow> ('r, 'a) cmd \<Rightarrow> ('s, 'a) cmd \<Rightarrow> bool" where
  "sim h m1 m2 = (\<forall>r. m2 (h r) = (fst (m1 r), h (snd (m1 r))))"

lemma sim_id [simp]: "sim (\<lambda>r. r) m m"
  by (simp add: sim_def)

lemma sim_cret [sim_rules]: "sim h (cret a) (cret a)"
  by (simp add: sim_def cret_def)

lemma sim_cbind [sim_rules]:
  "sim h m1 m2 \<Longrightarrow> (\<And>a. sim h (f1 a) (f2 a)) \<Longrightarrow> sim h (cbind m1 f1) (cbind m2 f2)"
  by (auto simp: sim_def cbind_def split: sum.splits prod.splits)

lemma sim_if [sim_rules]:
  "(b \<Longrightarrow> sim h m1 m2) \<Longrightarrow> (\<not> b \<Longrightarrow> sim h n1 n2) \<Longrightarrow>
   sim h (if b then m1 else n1) (if b then m2 else n2)"
  by simp

lemma sim_option [sim_rules]:
  "(x = None \<Longrightarrow> sim h m1 m2) \<Longrightarrow> (\<And>a. x = Some a \<Longrightarrow> sim h (f1 a) (f2 a)) \<Longrightarrow>
   sim h (case x of None \<Rightarrow> m1 | Some a \<Rightarrow> f1 a) (case x of None \<Rightarrow> m2 | Some a \<Rightarrow> f2 a)"
  by (cases x) auto

lemma sim_run_all:
  "list_all2 (sim h) ms1 ms2 \<Longrightarrow> run_all ms2 (h r) = (fst (run_all ms1 r), h (snd (run_all ms1 r)))"
proof (induction arbitrary: r rule: list_all2_induct)
  case (Cons m1 ms1 m2 ms2)
  then show ?case by (simp add: sim_def Let_def split_beta)
qed simp

lemma sim_pipelined [sim_rules]: "list_all2 (sim h) ms1 ms2 \<Longrightarrow> sim h (pipelined ms1) (pipelined ms2)"
  by (auto simp: sim_def pipelined_def sim_run_all Let_def split_beta split: option.splits)

definition conn_view :: "('r \<Rightarrow> 's) \<Rightarrow> 'r conn \<Rightarrow> 's conn" where
  "conn_view h c = \<lparr>server = h (server c), clock = clock c, faults = faults c\<rparr>"

lemma conn_view_simps [simp]:
  "server (conn_view h c) = h (server c)"
  "clock (conn_view h c) = clock c"
  "faults (conn_view h c) = faults c"
  by (simp_all add: conn_view_def)

lemma conn_view_id [simp]: "conn_view (\<lambda>r. r) c = c"
  by (simp add: conn_view_def)

lemma call_sim:
  assumes "\<And>t. sim h (m1 t) (m2 t)"
  shows "call m2 (conn_view h c) = map_prod id (conn_view h) (call m1 c)"
  using assms
  by (auto simp: call_def sim_def conn_view_def split_beta Let_def split: list.splits fault.splits)

section \<open>The contract\<close>

text \<open>\<open>cjson.decode\<close> on a flat object: a table with the string fields of the object.\<close>

locale cjson_decoder =
  fixes cj :: "string \<Rightarrow> (string \<Rightarrow> string option) option"
  assumes cjson_object:
    "kvs \<noteq> [] \<Longrightarrow> list_all (\<lambda>(k, v). valid_utf8 k \<and> is_atom v) kvs \<Longrightarrow>
     cj (json_object kvs) = Some (atom_field kvs)"

interpretation parsed_cjson: cjson_decoder ks_cjson
  by unfold_locales (simp add: ks_cjson_def json_parse_object)

locale redis_server = cjson_decoder "rd_cjson R"
  for R :: "'r redis" +
  fixes ks :: "'r \<Rightarrow> keyspace"
  assumes sim_get [sim_rules]: "sim ks (rd_get R t k) (ks_get t k)"
    and sim_set [sim_rules]: "0 < d \<Longrightarrow> sim ks (rd_set R t k v d) (ks_set t k v d)"
    and sim_set_px [sim_rules]: "sim ks (rd_set_px R t k v ms) (ks_set_px t k v ms)"
    and sim_del [sim_rules]: "sim ks (rd_del R t k) (ks_del t k)"
    and sim_pttl [sim_rules]: "sim ks (rd_pttl R t k) (ks_pttl t k)"
    and sim_exists [sim_rules]: "sim ks (rd_exists R t k) (ks_exists t k)"
    and sim_incr [sim_rules]: "sim ks (rd_incr R t k) (ks_incr t k)"
    and sim_expire [sim_rules]: "sim ks (rd_expire R t k secs) (ks_expire t k secs)"
    and sim_expire_nx [sim_rules]: "0 < d \<Longrightarrow> sim ks (rd_expire_nx R t k d) (ks_expire_nx t k d)"
    and sim_expire_gt [sim_rules]: "0 < d \<Longrightarrow> sim ks (rd_expire_gt R t k d) (ks_expire_gt t k d)"
    and sim_zadd [sim_rules]: "sim ks (rd_zadd R t k score m) (ks_zadd t k score m)"
    and sim_zrem [sim_rules]: "sim ks (rd_zrem R t k m) (ks_zrem t k m)"
    and sim_zremrangebyscore [sim_rules]:
      "sim ks (rd_zremrangebyscore R t k hi) (ks_zremrangebyscore t k hi)"
    and sim_zrange [sim_rules]: "sim ks (rd_zrange R t k) (ks_zrange t k)"
    and sim_zrangebyscore [sim_rules]:
      "sim ks (rd_zrangebyscore R t k lo n) (ks_zrangebyscore t k lo n)"

interpretation reference_server: redis_server "ks_redis ks_cjson" "\<lambda>ks. ks"
  by unfold_locales (simp_all add: parsed_cjson.cjson_object)

end
