(* ===== verification/Entity.thy ===== *)
theory Entity
  imports GoText
begin

text \<open>
  The data types of \<open>pkg/constant\<close>, \<open>internal/model\<close>, \<open>internal/entity\<close> and
  \<open>pkg/response\<close>: the role, the row of the users table, the session snapshot, the
  principal, the request commands and the response bodies, with their conversions. A Go
  pointer field is an option, \<open>nil\<close> being \<^const>\<open>None\<close>. A \<open>time.Time\<close> is an
  instant. The \<open>binding\<close> tags are read by Gin's validator, which is not part of the
  repository: a handler's model gets the outcome of the binding as an argument.
\<close>

section \<open>Roles\<close>

type_synonym role = string

definition RoleAdmin :: role where "RoleAdmin = ''admin''"
definition RoleUser :: role where "RoleUser = ''user''"

definition Valid :: "role \<Rightarrow> bool" where
  "Valid r = (r = RoleAdmin \<or> r = RoleUser)"

lemma Valid_roles [simp]: "Valid RoleAdmin" "Valid RoleUser"
  by (simp_all add: Valid_def)

lemma not_Valid_Nil [simp]: "\<not> Valid []"
  by (simp add: Valid_def RoleAdmin_def RoleUser_def)

section \<open>Table rows and sessions\<close>

record user =
  ID :: string
  Email :: string
  Remark :: string
  PasswordHash :: string
  Active :: bool
  Role :: role
  CreatedAt :: instant
  UpdatedAt :: instant

record auth_session =
  s_UserID :: string
  s_Email :: string
  s_Remark :: string
  s_Role :: role
  s_Active :: bool
  s_AccessJTI :: string

record principal =
  p_ID :: string
  p_Email :: string
  p_Remark :: string
  p_Role :: role
  p_SessionID :: string

definition NewAuthSession :: "user \<Rightarrow> auth_session" where
  "NewAuthSession u =
     \<lparr>s_UserID = ID u, s_Email = Email u, s_Remark = Remark u, s_Role = Role u,
      s_Active = Active u, s_AccessJTI = []\<rparr>"

definition Principal :: "auth_session \<Rightarrow> string \<Rightarrow> principal" where
  "Principal s sessionID =
     \<lparr>p_ID = s_UserID s, p_Email = s_Email s, p_Remark = s_Remark s, p_Role = s_Role s,
      p_SessionID = sessionID\<rparr>"

section \<open>Errors of the data layer\<close>

text \<open>The sentinels of \<open>internal/data\<close>; any other error carries the message it is wrapped with.\<close>

datatype data_error = ErrNotFound | ErrConflict | ErrOther string

section \<open>Authentication messages\<close>

record login_command =
  l_Email :: string
  l_Password :: string
  l_CaptchaID :: string
  l_Captcha :: string

record captcha_challenge =
  c_CaptchaID :: string
  c_Image :: string
  c_ExpiresIn :: int

record auth_user =
  au_ID :: string
  au_Email :: string
  au_Remark :: string
  au_Role :: role

record token =
  t_AccessToken :: string
  t_TokenType :: string
  t_ExpiresIn :: int
  t_User :: auth_user

record login_result =
  lr_AccessToken :: string
  lr_RefreshToken :: string
  lr_RefreshExpiresAt :: instant
  lr_User :: user

definition ToAuthUser :: "user \<Rightarrow> auth_user" where
  "ToAuthUser u = \<lparr>au_ID = ID u, au_Email = Email u, au_Remark = Remark u, au_Role = Role u\<rparr>"

section \<open>User management messages\<close>

record user_dto =
  d_ID :: string
  d_Email :: string
  d_Remark :: string
  d_Role :: role
  d_Active :: bool
  d_Online :: bool
  d_CreatedAt :: instant
  d_UpdatedAt :: instant

definition ToUser :: "user \<Rightarrow> user_dto" where
  "ToUser u =
     \<lparr>d_ID = ID u, d_Email = Email u, d_Remark = Remark u, d_Role = Role u,
      d_Active = Active u, d_Online = False, d_CreatedAt = CreatedAt u, d_UpdatedAt = UpdatedAt u\<rparr>"

definition ToUsers :: "user list \<Rightarrow> user_dto list" where
  "ToUsers us = map ToUser us"

record user_list_query =
  q_Page :: int
  q_PageSize :: int
  q_Email :: string
  q_Role :: role
  q_Active :: "bool option"

record create_user_command =
  cu_Email :: string
  cu_Remark :: string
  cu_Password :: string
  cu_Role :: role
  cu_Active :: "bool option"

record update_user_command =
  uu_Email :: "string option"
  uu_Remark :: "string option"
  uu_Password :: "string option"
  uu_Role :: "role option"

record set_user_active_command =
  sa_Active :: "bool option"

definition UpdateUserCommand_Empty :: "update_user_command \<Rightarrow> bool" where
  "UpdateUserCommand_Empty c =
     (uu_Email c = None \<and> uu_Remark c = None \<and> uu_Password c = None \<and> uu_Role c = None)"

section \<open>Response bodies\<close>

record page_data =
  pg_Data :: "user_dto list"
  pg_Total :: int
  pg_Page :: int
  pg_PageSize :: int

datatype payload =
    Nil_data
  | Auth_user_data auth_user
  | Token_data token
  | Captcha_data captcha_challenge
  | User_data user_dto
  | Page_data page_data

record response =
  Code :: int
  Message :: string
  Reason :: string
  Success :: bool
  Data :: payload

definition SuccessResponse :: int where "SuccessResponse = 0"
definition ErrorResponse :: int where "ErrorResponse = 1000"

definition OK :: "string \<Rightarrow> payload \<Rightarrow> response" where
  "OK message d = \<lparr>Code = SuccessResponse, Message = message, Reason = [], Success = True, Data = d\<rparr>"

definition OKWithMessage :: "string \<Rightarrow> response" where
  "OKWithMessage message =
     \<lparr>Code = SuccessResponse, Message = message, Reason = [], Success = True, Data = Nil_data\<rparr>"

definition OKWithData :: "payload \<Rightarrow> response" where
  "OKWithData d =
     \<lparr>Code = SuccessResponse, Message = ''success'', Reason = [], Success = True, Data = d\<rparr>"

definition OKWithPageData :: "user_dto list \<Rightarrow> int \<Rightarrow> int \<Rightarrow> int \<Rightarrow> response" where
  "OKWithPageData d n page pageSize =
     OKWithData (Page_data \<lparr>pg_Data = d, pg_Total = n, pg_Page = page, pg_PageSize = pageSize\<rparr>)"

definition FailWithCode :: "string \<Rightarrow> string \<Rightarrow> response" where
  "FailWithCode message reason =
     \<lparr>Code = ErrorResponse, Message = message, Reason = reason, Success = False, Data = Nil_data\<rparr>"

end
