(* ===== verification/SessionStore.thy ===== *)
theory SessionStore
  imports Redis Entity
begin

text \<open>
  \<open>internal/data/auth_session.go\<close> and \<open>auth_session_scripts.go\<close>: the session record and
  its JSON form, the three Lua scripts, and every method of \<open>RedisAuthSessionStore\<close>. An
  operation takes the Redis back end, the connection and, where the code reads it, the Go
  clock; it returns the Go result and the connection after it.
\<close>

section \<open>Keys and records\<close>

definition authSessionKeyPrefix :: string where "authSessionKeyPrefix = ''auth:v2:session:''"
definition authRefreshKeyPrefix :: string where "authRefreshKeyPrefix = ''auth:v2:refresh:''"
definition authUserSessionsKeyPrefix :: string where
  "authUserSessionsKeyPrefix = ''auth:v2:user-sessions:''"

definition authSessionKey :: "string \<Rightarrow> string" where
  "authSessionKey sessionID = authSessionKeyPrefix @ sessionID"
definition authRefreshKey :: "string \<Rightarrow> string" where
  "authRefreshKey digest = authRefreshKeyPrefix @ digest"
definition authUserSessionsKey :: "string \<Rightarrow> string" where
  "authUserSessionsKey userID = authUserSessionsKeyPrefix @ userID"

record authSessionRecord =
  ar_AuthSession :: auth_session
  ar_RefreshDigest :: string

definition validateAuthSessionRecord :: "authSessionRecord \<Rightarrow> data_error + unit" where
  "validateAuthSessionRecord r =
     (if s_UserID (ar_AuthSession r) = [] \<or> s_AccessJTI (ar_AuthSession r) = []
         \<or> ar_RefreshDigest r = [] \<or> \<not> Valid (s_Role (ar_AuthSession r))
      then Inl (ErrOther ''invalid authentication session data'') else Inr ())"

text \<open>The struct's fields under their JSON tags, in declaration order (the embedded
  \<open>AuthSession\<close> first).\<close>

definition record_fields :: "authSessionRecord \<Rightarrow> (string \<times> json) list" where
  "record_fields r =
     (let s = ar_AuthSession r in
      [(''user_id'', JStr (s_UserID s)), (''email'', JStr (s_Email s)),
       (''remark'', JStr (s_Remark s)), (''role'', JStr (s_Role s)),
       (''active'', JBool (s_Active s)), (''access_jti'', JStr (s_AccessJTI s)),
       (''refresh_digest'', JStr (ar_RefreshDigest r))])"

definition encodeAuthSessionRecord :: "authSessionRecord \<Rightarrow> data_error + string" where
  "encodeAuthSessionRecord r =
     rbind (validateAuthSessionRecord r) (\<lambda>_. Inr (json_object (record_fields r)))"

definition zeroRecord :: authSessionRecord where
  "zeroRecord =
     \<lparr>ar_AuthSession = \<lparr>s_UserID = [], s_Email = [], s_Remark = [], s_Role = [], s_Active = False,
        s_AccessJTI = []\<rparr>, ar_RefreshDigest = []\<rparr>"

definition field_names :: "string list" where
  "field_names = [''user_id'', ''email'', ''remark'', ''role'', ''active'', ''access_jti'', ''refresh_digest'']"

text \<open>The struct field a JSON key selects: the exact tag first, then the folded one.\<close>

definition field_of :: "string \<Rightarrow> string option" where
  "field_of key =
     (if key \<in> set field_names then Some key else find (\<lambda>n. field_matches n key) field_names)"

definition store_string ::
    "json \<Rightarrow> (string \<Rightarrow> authSessionRecord \<Rightarrow> authSessionRecord) \<Rightarrow>
     authSessionRecord \<times> bool \<Rightarrow> authSessionRecord \<times> bool" where
  "store_string v f st =
     (case v of JStr s \<Rightarrow> (f s (fst st), snd st) | JNull \<Rightarrow> st | _ \<Rightarrow> (fst st, True))"

definition on_session :: "(auth_session \<Rightarrow> auth_session) \<Rightarrow> authSessionRecord \<Rightarrow> authSessionRecord" where
  "on_session f r = r\<lparr>ar_AuthSession := f (ar_AuthSession r)\<rparr>"

text \<open>One member of the object; the flag records a type mismatch, which \<open>json.Unmarshal\<close>
  reports at the end.\<close>

definition store_member :: "string \<times> json \<Rightarrow> authSessionRecord \<times> bool \<Rightarrow> authSessionRecord \<times> bool" where
  "store_member kv st =
     (let v = snd kv in
      case field_of (fst kv) of
        None \<Rightarrow> st
      | Some n \<Rightarrow>
          if n = ''user_id'' then store_string v (\<lambda>s. on_session (\<lambda>a. a\<lparr>s_UserID := s\<rparr>)) st
          else if n = ''email'' then store_string v (\<lambda>s. on_session (\<lambda>a. a\<lparr>s_Email := s\<rparr>)) st
          else if n = ''remark'' then store_string v (\<lambda>s. on_session (\<lambda>a. a\<lparr>s_Remark := s\<rparr>)) st
          else if n = ''role'' then store_string v (\<lambda>s. on_session (\<lambda>a. a\<lparr>s_Role := s\<rparr>)) st
          else if n = ''access_jti'' then store_string v (\<lambda>s. on_session (\<lambda>a. a\<lparr>s_AccessJTI := s\<rparr>)) st
          else if n = ''refresh_digest'' then store_string v (\<lambda>s r. r\<lparr>ar_RefreshDigest := s\<rparr>) st
          else
            (case v of
               JBool b \<Rightarrow> (on_session (\<lambda>a. a\<lparr>s_Active := b\<rparr>) (fst st), snd st)
             | JNull \<Rightarrow> st
             | _ \<Rightarrow> (fst st, True)))"

definition json_Unmarshal :: "string \<Rightarrow> authSessionRecord option" where
  "json_Unmarshal encoded =
     (case json_parse encoded of
        None \<Rightarrow> None
      | Some JNull \<Rightarrow> Some zeroRecord
      | Some (JObj kvs) \<Rightarrow>
          (let (r, mismatch) = fold store_member kvs (zeroRecord, False) in
           if mismatch then None else Some r)
      | Some _ \<Rightarrow> None)"

definition decodeAuthSessionRecord :: "string \<Rightarrow> data_error + authSessionRecord" where
  "decodeAuthSessionRecord encoded =
     (case json_Unmarshal encoded of
        None \<Rightarrow> Inl (ErrOther ''decode authentication session'')
      | Some r \<Rightarrow> rbind (validateAuthSessionRecord r) (\<lambda>_. Inr r))"

section \<open>Scripts\<close>

definition rotateSessionScript ::
    "'r redis \<Rightarrow> int \<Rightarrow> string \<Rightarrow> string \<Rightarrow> string \<Rightarrow> string \<Rightarrow> string \<Rightarrow> string \<Rightarrow> ('r, int) cmd" where
  "rotateSessionScript R t key1 key2 key3 arg1 arg2 arg3 =
     cbind (rd_get R t key2) (\<lambda>current.
       if current \<noteq> Some arg3 then cret 0 else
     cbind (rd_get R t key1) (\<lambda>raw.
       if raw \<noteq> Some arg1 then cret 0 else
     cbind (rd_pttl R t key1) (\<lambda>ttl.
       if ttl \<le> 0 then cret 0 else
     cbind (rd_set_px R t key1 arg2 ttl) (\<lambda>_.
     cbind (rd_del R t key2) (\<lambda>_.
     cbind (rd_set_px R t key3 arg3 ttl) (\<lambda>_.
       cret ttl))))))"

text \<open>A field of the decoded table; \<^const>\<open>None\<close> when decoding failed or the field is nil.\<close>

definition lua_field :: "(string \<Rightarrow> string option) option \<Rightarrow> string \<Rightarrow> string option" where
  "lua_field session f = Option.bind session (\<lambda>tbl. tbl f)"

definition deleteSessionScript ::
    "'r redis \<Rightarrow> int \<Rightarrow> string \<Rightarrow> string \<Rightarrow> string \<Rightarrow> string \<Rightarrow> ('r, int) cmd" where
  "deleteSessionScript R t key1 arg1 arg2 arg3 =
     cbind (rd_get R t key1) (\<lambda>raw.
       case raw of
         None \<Rightarrow> cret 0
       | Some raw \<Rightarrow>
           cbind (rd_del R t key1) (\<lambda>_.
           cbind (case lua_field (rd_cjson R raw) ''refresh_digest'' of
                    None \<Rightarrow> cret () | Some d \<Rightarrow> rd_del R t (arg2 @ d)) (\<lambda>_.
           cbind (case lua_field (rd_cjson R raw) ''user_id'' of
                    None \<Rightarrow> cret () | Some u \<Rightarrow> rd_zrem R t (arg3 @ u) arg1) (\<lambda>_.
             cret 1))))"

fun delete_sessions_loop ::
    "'r redis \<Rightarrow> int \<Rightarrow> string \<Rightarrow> string \<Rightarrow> string list \<Rightarrow> ('r, unit) cmd" where
  "delete_sessions_loop R t arg1 arg2 [] = cret ()"
| "delete_sessions_loop R t arg1 arg2 (sessionID # ids) =
     cbind (rd_get R t (arg1 @ sessionID)) (\<lambda>raw.
     cbind (case raw of
              None \<Rightarrow> cret ()
            | Some raw \<Rightarrow>
                cbind (case lua_field (rd_cjson R raw) ''refresh_digest'' of
                         None \<Rightarrow> cret () | Some d \<Rightarrow> rd_del R t (arg2 @ d)) (\<lambda>_.
                rd_del R t (arg1 @ sessionID))) (\<lambda>_.
     delete_sessions_loop R t arg1 arg2 ids))"

definition deleteUserSessionsScript ::
    "'r redis \<Rightarrow> int \<Rightarrow> string \<Rightarrow> string \<Rightarrow> string \<Rightarrow> ('r, int) cmd" where
  "deleteUserSessionsScript R t key1 arg1 arg2 =
     cbind (rd_zrange R t key1) (\<lambda>sessionIDs.
     cbind (delete_sessions_loop R t arg1 arg2 sessionIDs) (\<lambda>_.
     cbind (rd_del R t key1) (\<lambda>_.
       cret (int (length sessionIDs)))))"

section \<open>Operations\<close>

definition create_commands ::
    "'r redis \<Rightarrow> instant \<Rightarrow> string \<Rightarrow> string \<Rightarrow> string \<Rightarrow> string \<Rightarrow> duration \<Rightarrow> int \<Rightarrow> ('r, unit) cmd list" where
  "create_commands R now sessionID recordJSON refreshDigest userID ttl t =
     (let userSessionsKey = authUserSessionsKey userID in
      [rd_set R t (authSessionKey sessionID) recordJSON ttl,
       rd_set R t (authRefreshKey refreshDigest) sessionID ttl,
       rd_zremrangebyscore R t userSessionsKey (unix_milli now),
       rd_zadd R t userSessionsKey (unix_milli (now + ttl)) sessionID,
       rd_expire_nx R t userSessionsKey ttl,
       rd_expire_gt R t userSessionsKey ttl])"

definition SessionStore_Create ::
    "'r redis \<Rightarrow> 'r conn \<Rightarrow> instant \<Rightarrow> string \<Rightarrow> auth_session \<Rightarrow> string \<Rightarrow> duration \<Rightarrow>
     (data_error + unit) \<times> 'r conn" where
  "SessionStore_Create R c now sessionID session refreshDigest ttl =
     (if sessionID = [] \<or> s_UserID session = [] \<or> s_AccessJTI session = [] \<or> refreshDigest = []
         \<or> ttl \<le> 0 \<or> \<not> Valid (s_Role session)
      then (Inl (ErrOther ''invalid authentication session''), c)
      else
        (case encodeAuthSessionRecord \<lparr>ar_AuthSession = session, ar_RefreshDigest = refreshDigest\<rparr> of
           Inl e \<Rightarrow> (Inl e, c)
         | Inr recordJSON \<Rightarrow>
             (case call (\<lambda>t. pipelined (create_commands R now sessionID recordJSON refreshDigest
                              (s_UserID session) ttl t)) c of
                (Inl e, c') \<Rightarrow> (Inl (ErrOther ''store authentication session''), c')
              | (Inr _, c') \<Rightarrow> (Inr (), c'))))"

definition getRecord ::
    "'r redis \<Rightarrow> 'r conn \<Rightarrow> string \<Rightarrow> (data_error + authSessionRecord \<times> string) \<times> 'r conn" where
  "getRecord R c sessionID =
     (if sessionID = [] then (Inl ErrNotFound, c)
      else
        (case call (\<lambda>t. rd_get R t (authSessionKey sessionID)) c of
           (Inl e, c') \<Rightarrow> (Inl (ErrOther ''load authentication session''), c')
         | (Inr None, c') \<Rightarrow> (Inl ErrNotFound, c')
         | (Inr (Some recordJSON), c') \<Rightarrow>
             (rbind (decodeAuthSessionRecord recordJSON) (\<lambda>r. Inr (r, recordJSON)), c')))"

definition SessionStore_Get ::
    "'r redis \<Rightarrow> 'r conn \<Rightarrow> string \<Rightarrow> (data_error + auth_session) \<times> 'r conn" where
  "SessionStore_Get R c sessionID =
     (case getRecord R c sessionID of (x, c') \<Rightarrow> (rbind x (\<lambda>(r, _). Inr (ar_AuthSession r)), c'))"

text \<open>\<open>Rotate\<close> makes three round trips; the script of the last one is the compare-and-swap.\<close>

definition rotate_swap ::
    "'r redis \<Rightarrow> 'r conn \<Rightarrow> string \<Rightarrow> string \<Rightarrow> string \<Rightarrow> authSessionRecord \<Rightarrow> string \<Rightarrow> string \<Rightarrow>
     (data_error + string \<times> auth_session \<times> duration) \<times> 'r conn" where
  "rotate_swap R c refreshDigest nextRefreshDigest nextAccessJTI rcd recordJSON sessionID =
     (let rcd' = rcd\<lparr>ar_RefreshDigest := nextRefreshDigest,
                     ar_AuthSession := (ar_AuthSession rcd)\<lparr>s_AccessJTI := nextAccessJTI\<rparr>\<rparr> in
      case encodeAuthSessionRecord rcd' of
        Inl e \<Rightarrow> (Inl e, c)
      | Inr nextRecordJSON \<Rightarrow>
          (case call (\<lambda>t. rotateSessionScript R t (authSessionKey sessionID) (authRefreshKey refreshDigest)
                            (authRefreshKey nextRefreshDigest) recordJSON nextRecordJSON sessionID) c of
             (Inl e, c') \<Rightarrow> (Inl (ErrOther ''rotate authentication session''), c')
           | (Inr remainingMillis, c') \<Rightarrow>
               if remainingMillis \<le> 0 then (Inl ErrNotFound, c')
               else (Inr (sessionID, ar_AuthSession rcd', remainingMillis * millisecond), c')))"

definition SessionStore_Rotate ::
    "'r redis \<Rightarrow> 'r conn \<Rightarrow> string \<Rightarrow> string \<Rightarrow> string \<Rightarrow>
     (data_error + string \<times> auth_session \<times> duration) \<times> 'r conn" where
  "SessionStore_Rotate R c refreshDigest nextRefreshDigest nextAccessJTI =
     (if refreshDigest = [] \<or> nextRefreshDigest = [] \<or> nextAccessJTI = []
      then (Inl (ErrOther ''invalid refresh token rotation''), c)
      else
        (case call (\<lambda>t. rd_get R t (authRefreshKey refreshDigest)) c of
           (Inl e, c1) \<Rightarrow> (Inl (ErrOther ''load refresh token session''), c1)
         | (Inr None, c1) \<Rightarrow> (Inl ErrNotFound, c1)
         | (Inr (Some sessionID), c1) \<Rightarrow>
             (case getRecord R c1 sessionID of
                (Inl e, c2) \<Rightarrow> (Inl e, c2)
              | (Inr (rcd, recordJSON), c2) \<Rightarrow>
                  if ar_RefreshDigest rcd \<noteq> refreshDigest then (Inl ErrNotFound, c2)
                  else rotate_swap R c2 refreshDigest nextRefreshDigest nextAccessJTI rcd recordJSON
                         sessionID)))"

definition SessionStore_Delete :: "'r redis \<Rightarrow> 'r conn \<Rightarrow> string \<Rightarrow> (data_error + unit) \<times> 'r conn" where
  "SessionStore_Delete R c sessionID =
     (if sessionID = [] then (Inr (), c)
      else
        (case call (\<lambda>t. deleteSessionScript R t (authSessionKey sessionID) sessionID
                          authRefreshKeyPrefix authUserSessionsKeyPrefix) c of
           (Inl e, c') \<Rightarrow> (Inl (ErrOther ''delete authentication session''), c')
         | (Inr _, c') \<Rightarrow> (Inr (), c')))"

definition SessionStore_DeleteByRefreshDigest ::
    "'r redis \<Rightarrow> 'r conn \<Rightarrow> string \<Rightarrow> (data_error + unit) \<times> 'r conn" where
  "SessionStore_DeleteByRefreshDigest R c refreshDigest =
     (if refreshDigest = [] then (Inr (), c)
      else
        (case call (\<lambda>t. rd_get R t (authRefreshKey refreshDigest)) c of
           (Inl e, c1) \<Rightarrow> (Inl (ErrOther ''load refresh token session for deletion''), c1)
         | (Inr None, c1) \<Rightarrow> (Inr (), c1)
         | (Inr (Some sessionID), c1) \<Rightarrow> SessionStore_Delete R c1 sessionID))"

definition SessionStore_DeleteUserSessions ::
    "'r redis \<Rightarrow> 'r conn \<Rightarrow> string \<Rightarrow> (data_error + unit) \<times> 'r conn" where
  "SessionStore_DeleteUserSessions R c userID =
     (if userID = [] then (Inr (), c)
      else
        (case call (\<lambda>t. deleteUserSessionsScript R t (authUserSessionsKey userID)
                          authSessionKeyPrefix authRefreshKeyPrefix) c of
           (Inl e, c') \<Rightarrow> (Inl (ErrOther ''delete user authentication sessions''), c')
         | (Inr _, c') \<Rightarrow> (Inr (), c')))"

section \<open>Online state\<close>

fun unique_loop :: "string set \<Rightarrow> string list \<Rightarrow> string list" where
  "unique_loop seen [] = []"
| "unique_loop seen (uid # ids) =
     (if uid = [] then unique_loop seen ids
      else if uid \<in> seen then unique_loop seen ids
      else uid # unique_loop (insert uid seen) ids)"

definition uniqueUserIDs :: "string list \<Rightarrow> string list" where
  "uniqueUserIDs userIDs = unique_loop {} userIDs"

text \<open>The first member of each user's reply: the session list and the owner of each.\<close>

fun first_sessions ::
    "(string \<times> string list) list \<Rightarrow> string list \<times> (string \<rightharpoonup> string) \<Rightarrow> string list \<times> (string \<rightharpoonup> string)" where
  "first_sessions [] st = st"
| "first_sessions ((uid, members) # rest) (sessionIDs, sessionUser) =
     (case members of
        [] \<Rightarrow> first_sessions rest (sessionIDs, sessionUser)
      | m # _ \<Rightarrow>
          if m = [] then first_sessions rest (sessionIDs, sessionUser)
          else first_sessions rest (sessionIDs @ [m], sessionUser(m \<mapsto> uid)))"

fun mark_online ::
    "(string \<rightharpoonup> string) \<Rightarrow> (string \<times> int) list \<Rightarrow> (string \<rightharpoonup> bool) \<Rightarrow> (string \<rightharpoonup> bool)" where
  "mark_online sessionUser [] online = online"
| "mark_online sessionUser ((sessionID, n) # rest) online =
     mark_online sessionUser rest
       (if n > 0 then online((case sessionUser sessionID of Some u \<Rightarrow> u | None \<Rightarrow> []) \<mapsto> True) else online)"

definition SessionStore_OnlineMap ::
    "'r redis \<Rightarrow> 'r conn \<Rightarrow> instant \<Rightarrow> string list \<Rightarrow> (data_error + (string \<rightharpoonup> bool)) \<times> 'r conn" where
  "SessionStore_OnlineMap R c now userIDs =
     (let ids = uniqueUserIDs userIDs in
      if ids = [] then (Inr Map.empty, c)
      else
        (let online = map_of (map (\<lambda>uid. (uid, False)) ids) in
         case call (\<lambda>t. pipelined (map (\<lambda>uid. rd_zrangebyscore R t (authUserSessionsKey uid)
                                          (unix_milli now) 1) ids)) c of
           (Inl e, c1) \<Rightarrow> (Inl (ErrOther ''list user sessions''), c1)
         | (Inr replies, c1) \<Rightarrow>
             (let (sessionIDs, sessionUser) = first_sessions (zip ids replies) ([], Map.empty) in
              if sessionIDs = [] then (Inr online, c1)
              else
                (case call (\<lambda>t. pipelined (map (\<lambda>s. rd_exists R t (authSessionKey s)) sessionIDs)) c1 of
                   (Inl e, c2) \<Rightarrow> (Inl (ErrOther ''check user sessions''), c2)
                 | (Inr counts, c2) \<Rightarrow>
                     (Inr (mark_online sessionUser (zip sessionIDs counts) online), c2)))))"

section \<open>Keys never collide\<close>

lemmas key_defs = authSessionKey_def authRefreshKey_def authUserSessionsKey_def
  authSessionKeyPrefix_def authRefreshKeyPrefix_def authUserSessionsKeyPrefix_def

lemma key_inject [simp]:
  "authSessionKey a = authSessionKey b \<longleftrightarrow> a = b"
  "authRefreshKey a = authRefreshKey b \<longleftrightarrow> a = b"
  "authUserSessionsKey a = authUserSessionsKey b \<longleftrightarrow> a = b"
  by (simp_all add: authSessionKey_def authRefreshKey_def authUserSessionsKey_def)

lemma key_distinct [simp]:
  "authSessionKey a \<noteq> authRefreshKey b" "authRefreshKey b \<noteq> authSessionKey a"
  "authSessionKey a \<noteq> authUserSessionsKey b" "authUserSessionsKey b \<noteq> authSessionKey a"
  "authRefreshKey a \<noteq> authUserSessionsKey b" "authUserSessionsKey b \<noteq> authRefreshKey a"
  by (simp_all add: key_defs)

lemma key_fold [simp]:
  "authSessionKeyPrefix @ a = authSessionKey a"
  "authRefreshKeyPrefix @ a = authRefreshKey a"
  "authUserSessionsKeyPrefix @ a = authUserSessionsKey a"
  by (simp_all add: authSessionKey_def authRefreshKey_def authUserSessionsKey_def)

section \<open>Codec\<close>

text \<open>A record the store can hold: its required fields are set, its texts are valid UTF-8.\<close>

definition utf8_record :: "authSessionRecord \<Rightarrow> bool" where
  "utf8_record r =
     (let s = ar_AuthSession r in
      valid_utf8 (s_UserID s) \<and> valid_utf8 (s_Email s) \<and> valid_utf8 (s_Remark s) \<and> valid_utf8 (s_Role s)
      \<and> valid_utf8 (s_AccessJTI s) \<and> valid_utf8 (ar_RefreshDigest r))"

definition record_ok :: "authSessionRecord \<Rightarrow> bool" where
  "record_ok r = (validateAuthSessionRecord r = Inr () \<and> utf8_record r)"

lemma validate_iff:
  "validateAuthSessionRecord r = Inr () \<longleftrightarrow>
     s_UserID (ar_AuthSession r) \<noteq> [] \<and> s_AccessJTI (ar_AuthSession r) \<noteq> []
     \<and> ar_RefreshDigest r \<noteq> [] \<and> Valid (s_Role (ar_AuthSession r))"
  by (simp add: validateAuthSessionRecord_def)

lemma record_fields_atoms:
  "utf8_record r \<Longrightarrow> list_all (\<lambda>(k, v). valid_utf8 k \<and> is_atom v) (record_fields r)"
  by (simp add: record_fields_def utf8_record_def Let_def is_ascii_valid_utf8)

lemma record_fields_nonempty [simp]: "record_fields r \<noteq> []"
  by (simp add: record_fields_def Let_def)

lemma store_member_field:
  "store_member (''user_id'', JStr x) (r, b) = (on_session (\<lambda>a. a\<lparr>s_UserID := x\<rparr>) r, b)"
  "store_member (''email'', JStr x) (r, b) = (on_session (\<lambda>a. a\<lparr>s_Email := x\<rparr>) r, b)"
  "store_member (''remark'', JStr x) (r, b) = (on_session (\<lambda>a. a\<lparr>s_Remark := x\<rparr>) r, b)"
  "store_member (''role'', JStr x) (r, b) = (on_session (\<lambda>a. a\<lparr>s_Role := x\<rparr>) r, b)"
  "store_member (''active'', JBool f) (r, b) = (on_session (\<lambda>a. a\<lparr>s_Active := f\<rparr>) r, b)"
  "store_member (''access_jti'', JStr x) (r, b) = (on_session (\<lambda>a. a\<lparr>s_AccessJTI := x\<rparr>) r, b)"
  "store_member (''refresh_digest'', JStr x) (r, b) = (r\<lparr>ar_RefreshDigest := x\<rparr>, b)"
  by (simp_all add: store_member_def field_of_def field_names_def store_string_def)

lemma store_fields: "fold store_member (record_fields r) (zeroRecord, False) = (r, False)"
  unfolding record_fields_def Let_def fold_simps store_member_field
  by (simp add: on_session_def zeroRecord_def)

lemma json_Unmarshal_record: "utf8_record r \<Longrightarrow> json_Unmarshal (json_object (record_fields r)) = Some r"
  by (simp add: json_Unmarshal_def json_parse_object record_fields_atoms store_fields)

lemma decode_record: "record_ok r \<Longrightarrow> decodeAuthSessionRecord (json_object (record_fields r)) = Inr r"
  by (simp add: decodeAuthSessionRecord_def record_ok_def json_Unmarshal_record)

lemma encode_record:
  "validateAuthSessionRecord r = Inr () \<Longrightarrow> encodeAuthSessionRecord r = Inr (json_object (record_fields r))"
  by (simp add: encodeAuthSessionRecord_def)

lemma encode_record_eq:
  "encodeAuthSessionRecord r = Inr j \<longleftrightarrow> validateAuthSessionRecord r = Inr () \<and> j = json_object (record_fields r)"
  by (auto simp: encodeAuthSessionRecord_def rbind_Inr_iff)

lemma record_text_inject:
  assumes "utf8_record r" "utf8_record r'"
  shows "json_object (record_fields r) = json_object (record_fields r') \<longleftrightarrow> r = r'"
  by (metis assms json_Unmarshal_record option.inject)

section \<open>Simulation\<close>

context redis_server
begin

abbreviation K :: "keyspace redis" where "K \<equiv> ks_redis (rd_cjson R)"

lemma rotateSessionScript_sim [sim_rules]:
  "sim ks (rotateSessionScript R t k1 k2 k3 a1 a2 a3) (rotateSessionScript K t k1 k2 k3 a1 a2 a3)"
  unfolding rotateSessionScript_def ks_redis_simps by (intro sim_rules)

lemma deleteSessionScript_sim [sim_rules]:
  "sim ks (deleteSessionScript R t k1 a1 a2 a3) (deleteSessionScript K t k1 a1 a2 a3)"
  unfolding deleteSessionScript_def ks_redis_simps by (intro sim_rules)

lemma delete_sessions_loop_sim [sim_rules]:
  "sim ks (delete_sessions_loop R t a1 a2 ids) (delete_sessions_loop K t a1 a2 ids)"
  by (induction ids) (simp_all add: sim_rules)

lemma deleteUserSessionsScript_sim [sim_rules]:
  "sim ks (deleteUserSessionsScript R t k1 a1 a2) (deleteUserSessionsScript K t k1 a1 a2)"
  unfolding deleteUserSessionsScript_def ks_redis_simps by (intro sim_rules)

lemma create_commands_sim:
  "0 < ttl \<Longrightarrow> sim ks (pipelined (create_commands R now sid j d u ttl t))
                   (pipelined (create_commands K now sid j d u ttl t))"
  by (rule sim_pipelined) (simp add: create_commands_def Let_def sim_rules)

lemma getRecord_sim: "getRecord K (conn_view ks c) sid = map_prod id (conn_view ks) (getRecord R c sid)"
  unfolding getRecord_def ks_redis_simps
  by (simp add: call_sim [OF sim_get] split: prod.splits sum.splits option.splits)

lemma Get_sim: "SessionStore_Get K (conn_view ks c) sid = map_prod id (conn_view ks) (SessionStore_Get R c sid)"
  unfolding SessionStore_Get_def getRecord_sim by (simp split: prod.splits)

lemma Create_sim:
  "SessionStore_Create K (conn_view ks c) now sid s d ttl =
   map_prod id (conn_view ks) (SessionStore_Create R c now sid s d ttl)"
proof (cases "0 < ttl")
  case True
  then show ?thesis
    unfolding SessionStore_Create_def
    by (simp add: call_sim [OF create_commands_sim] split: prod.splits sum.splits)
qed (simp add: SessionStore_Create_def)

lemma rotate_swap_sim:
  "rotate_swap K (conn_view ks c) d d' j rcd js sid =
   map_prod id (conn_view ks) (rotate_swap R c d d' j rcd js sid)"
  unfolding rotate_swap_def
  by (simp add: call_sim [OF rotateSessionScript_sim] Let_def split: prod.splits sum.splits)

lemma Rotate_sim:
  "SessionStore_Rotate K (conn_view ks c) d d' j =
   map_prod id (conn_view ks) (SessionStore_Rotate R c d d' j)"
  unfolding SessionStore_Rotate_def ks_redis_simps
  by (simp add: call_sim [OF sim_get] getRecord_sim rotate_swap_sim
      split: prod.splits sum.splits option.splits)

lemma Delete_sim:
  "SessionStore_Delete K (conn_view ks c) sid = map_prod id (conn_view ks) (SessionStore_Delete R c sid)"
  unfolding SessionStore_Delete_def
  by (simp add: call_sim [OF deleteSessionScript_sim] split: prod.splits sum.splits)

lemma DeleteByRefreshDigest_sim:
  "SessionStore_DeleteByRefreshDigest K (conn_view ks c) d =
   map_prod id (conn_view ks) (SessionStore_DeleteByRefreshDigest R c d)"
  unfolding SessionStore_DeleteByRefreshDigest_def ks_redis_simps
  by (simp add: call_sim [OF sim_get] Delete_sim split: prod.splits sum.splits option.splits)

lemma DeleteUserSessions_sim:
  "SessionStore_DeleteUserSessions K (conn_view ks c) u =
   map_prod id (conn_view ks) (SessionStore_DeleteUserSessions R c u)"
  unfolding SessionStore_DeleteUserSessions_def
  by (simp add: call_sim [OF deleteUserSessionsScript_sim] split: prod.splits sum.splits)

lemma OnlineMap_sim:
  "SessionStore_OnlineMap K (conn_view ks c) now us =
   map_prod id (conn_view ks) (SessionStore_OnlineMap R c now us)"
proof -
  have list: "sim ks (pipelined (map (\<lambda>u. rd_zrangebyscore R t (authUserSessionsKey u) n (Suc 0)) ids))
      (pipelined (map (\<lambda>u. ks_zrangebyscore t (authUserSessionsKey u) n (Suc 0)) ids))" for t n ids
    by (rule sim_pipelined) (simp add: list_all2_conv_all_nth sim_rules)
  have ex: "sim ks (pipelined (map (\<lambda>s. rd_exists R t (authSessionKey s)) ids))
      (pipelined (map (\<lambda>s. ks_exists t (authSessionKey s)) ids))" for t ids
    by (rule sim_pipelined) (simp add: list_all2_conv_all_nth sim_rules)
  show ?thesis
    unfolding SessionStore_OnlineMap_def ks_redis_simps
    by (simp add: call_sim [OF list] call_sim [OF ex] Let_def split: prod.splits sum.splits)
qed

lemmas store_sims = Get_sim Create_sim Rotate_sim Delete_sim DeleteByRefreshDigest_sim
  DeleteUserSessions_sim OnlineMap_sim

end

end
