(* ===== verification/SessionInvariant.thy ===== *)
theory SessionInvariant
  imports SessionStore
begin

text \<open>
  What the session store keeps in Redis. The abstract specification is a table
  \<open>sessions\<close> from session ids to records with their expiry; \<open>session_inv\<close> says how the
  three kinds of keys represent it: the refresh index has exactly the digests of the live
  sessions, and every session that still has time left is listed in its owner's index.
  Every operation keeps the invariant and acts on the table as its specification says.
\<close>

section \<open>Live keys\<close>

lemma live_upd [simp]: "t \<le> e \<Longrightarrow> live t (ks(k \<mapsto> (v, Some e))) = (live t ks)(k \<mapsto> (v, Some e))"
  by (auto simp: live_def fun_eq_iff)

lemma live_upd_None [simp]: "live t (ks(k \<mapsto> (v, None))) = (live t ks)(k \<mapsto> (v, None))"
  by (auto simp: live_def fun_eq_iff)

lemma live_del [simp]: "live t (ks(k := None)) = (live t ks)(k := None)"
  by (auto simp: live_def fun_eq_iff)

lemma live_SomeD: "live t ks k = Some (v, Some e) \<Longrightarrow> t \<le> e"
  by (auto simp: live_def split: option.splits if_splits)

lemma live_later: "t \<le> t' \<Longrightarrow> live t' ks k = Some x \<Longrightarrow> live t ks k = Some x"
  by (auto simp: live_def split: option.splits if_splits)

lemma live_at_later: "live t ks k = Some (v, Some e) \<Longrightarrow> t' \<le> e \<Longrightarrow> live t' ks k = Some (v, Some e)"
  by (auto simp: live_def split: option.splits if_splits)

section \<open>The abstract table and the invariant\<close>

definition holds :: "int \<Rightarrow> keyspace \<Rightarrow> string \<Rightarrow> authSessionRecord \<Rightarrow> int \<Rightarrow> bool" where
  "holds t ks sid r e \<longleftrightarrow>
     record_ok r \<and> live t ks (authSessionKey sid) = Some (RStr (json_object (record_fields r)), Some e)"

definition sessions :: "int \<Rightarrow> keyspace \<Rightarrow> string \<rightharpoonup> authSessionRecord \<times> int" where
  "sessions t ks sid =
     (case live t ks (authSessionKey sid) of
        Some (RStr j, Some e) \<Rightarrow> (case decodeAuthSessionRecord j of Inr r \<Rightarrow> Some (r, e) | Inl _ \<Rightarrow> None)
      | _ \<Rightarrow> None)"

abbreviation owner :: "authSessionRecord \<Rightarrow> string" where
  "owner r \<equiv> s_UserID (ar_AuthSession r)"

definition session_keys_ok :: "int \<Rightarrow> keyspace \<Rightarrow> bool" where
  "session_keys_ok t ks \<longleftrightarrow>
     (\<forall>sid v. live t ks (authSessionKey sid) = Some v \<longrightarrow>
        (\<exists>r e. sid \<noteq> [] \<and> holds t ks sid r e \<and>
           live t ks (authRefreshKey (ar_RefreshDigest r)) = Some (RStr sid, Some e) \<and>
           (t < e \<longrightarrow> (\<exists>zs x. live t ks (authUserSessionsKey (owner r)) = Some (RZset zs, Some x)
                        \<and> (sid, e) \<in> set zs \<and> e \<le> x))))"

definition refresh_keys_ok :: "int \<Rightarrow> keyspace \<Rightarrow> bool" where
  "refresh_keys_ok t ks \<longleftrightarrow>
     (\<forall>d v. live t ks (authRefreshKey d) = Some v \<longrightarrow>
        (\<exists>sid r e. v = (RStr sid, Some e) \<and> holds t ks sid r e \<and> ar_RefreshDigest r = d))"

text \<open>An index entry whose score has not passed names a live session with that expiry; a live
  session named by an entry belongs to the index's user.\<close>

definition entry_ok :: "int \<Rightarrow> keyspace \<Rightarrow> string \<Rightarrow> string \<Rightarrow> int \<Rightarrow> bool" where
  "entry_ok t ks u sid e \<longleftrightarrow>
     (t \<le> e \<longrightarrow> (\<exists>r. holds t ks sid r e)) \<and> (\<forall>r e'. holds t ks sid r e' \<longrightarrow> owner r = u)"

definition index_keys_ok :: "int \<Rightarrow> keyspace \<Rightarrow> bool" where
  "index_keys_ok t ks \<longleftrightarrow>
     (\<forall>u v. live t ks (authUserSessionsKey u) = Some v \<longrightarrow>
        (\<exists>zs x. v = (RZset zs, Some x) \<and>
           (\<forall>sid e. (sid, e) \<in> set zs \<longrightarrow> entry_ok t ks u sid e)))"

definition session_inv :: "int \<Rightarrow> keyspace \<Rightarrow> bool" where
  "session_inv t ks \<longleftrightarrow> session_keys_ok t ks \<and> refresh_keys_ok t ks \<and> index_keys_ok t ks"

lemma session_inv_empty: "session_inv t Map.empty"
  by (simp add: session_inv_def session_keys_ok_def refresh_keys_ok_def index_keys_ok_def live_def)

lemma holds_det:
  assumes "holds t ks sid r e" "holds t ks sid r' e'"
  shows "r' = r" "e' = e"
proof -
  have "json_object (record_fields r) = json_object (record_fields r')" "e' = e"
    using assms by (auto simp: holds_def)
  then show "r' = r" "e' = e"
    using assms record_text_inject [of r r'] by (auto simp: holds_def record_ok_def)
qed

lemma holds_sessions: "holds t ks sid r e \<Longrightarrow> sessions t ks sid = Some (r, e)"
  by (simp add: holds_def sessions_def decode_record)

text \<open>The invariant's content, as rules.\<close>

lemma inv_session:
  assumes "session_inv t ks" "live t ks (authSessionKey sid) = Some v"
  obtains r e where "sid \<noteq> []" "holds t ks sid r e"
    "live t ks (authRefreshKey (ar_RefreshDigest r)) = Some (RStr sid, Some e)"
  using assms unfolding session_inv_def session_keys_ok_def by blast

lemma inv_indexed:
  assumes "session_inv t ks" "holds t ks sid r e" "t < e"
  obtains zs x where "live t ks (authUserSessionsKey (owner r)) = Some (RZset zs, Some x)"
    "(sid, e) \<in> set zs" "e \<le> x"
proof -
  obtain r' e' where h: "holds t ks sid r' e'" and idx: "t < e' \<longrightarrow>
      (\<exists>zs x. live t ks (authUserSessionsKey (owner r')) = Some (RZset zs, Some x) \<and> (sid, e') \<in> set zs \<and> e' \<le> x)"
    using assms(1,2) unfolding session_inv_def session_keys_ok_def holds_def by blast
  then show thesis using holds_det [OF assms(2) h] assms(3) that by blast
qed

lemma inv_indexed_ex:
  assumes "session_inv t ks" "holds t ks sid r e"
  shows "t < e \<longrightarrow> (\<exists>zs x. live t ks (authUserSessionsKey (owner r)) = Some (RZset zs, Some x)
           \<and> (sid, e) \<in> set zs \<and> e \<le> x)"
  using inv_indexed [OF assms] by metis

lemma inv_refresh:
  assumes "session_inv t ks" "live t ks (authRefreshKey d) = Some v"
  obtains sid r e where "v = (RStr sid, Some e)" "holds t ks sid r e" "ar_RefreshDigest r = d" "sid \<noteq> []"
proof -
  obtain sid r e where *: "v = (RStr sid, Some e)" "holds t ks sid r e" "ar_RefreshDigest r = d"
    using assms unfolding session_inv_def refresh_keys_ok_def by blast
  moreover have "sid \<noteq> []"
    using assms(1) *(2) inv_session [of t ks sid] by (auto simp: holds_def)
  ultimately show thesis by (rule that)
qed

lemma inv_index:
  assumes "session_inv t ks" "live t ks (authUserSessionsKey u) = Some v"
  obtains zs x where "v = (RZset zs, Some x)"
    "\<And>sid e. (sid, e) \<in> set zs \<Longrightarrow> entry_ok t ks u sid e"
  using assms unfolding session_inv_def index_keys_ok_def by blast

lemma inv_sessions_iff:
  assumes "session_inv t ks"
  shows "sessions t ks sid = Some (r, e) \<longleftrightarrow> holds t ks sid r e"
proof
  assume s: "sessions t ks sid = Some (r, e)"
  then obtain v where "live t ks (authSessionKey sid) = Some v"
    by (auto simp: sessions_def split: option.splits)
  then obtain r' e' where h: "holds t ks sid r' e'" using inv_session [OF assms] by metis
  then show "holds t ks sid r e" using holds_sessions [OF h] s by simp
qed (rule holds_sessions)

lemma holds_live:
  "holds t ks sid r e \<Longrightarrow> live t ks (authSessionKey sid) = Some (RStr (json_object (record_fields r)), Some e)"
  by (simp add: holds_def)

lemma holds_time: "holds t ks sid r e \<Longrightarrow> t \<le> e"
  by (auto dest: holds_live live_SomeD)

lemma inv_refresh_of:
  assumes "session_inv t ks" "holds t ks sid r e"
  shows "live t ks (authRefreshKey (ar_RefreshDigest r)) = Some (RStr sid, Some e)" "sid \<noteq> []"
proof -
  obtain r' e' where "sid \<noteq> []" and h: "holds t ks sid r' e'"
    and "live t ks (authRefreshKey (ar_RefreshDigest r')) = Some (RStr sid, Some e')"
    using inv_session [OF assms(1) holds_live [OF assms(2)]] by metis
  then show "live t ks (authRefreshKey (ar_RefreshDigest r)) = Some (RStr sid, Some e)" "sid \<noteq> []"
    using holds_det [OF assms(2) h] by simp_all
qed

lemma inv_digest_unique:
  assumes "session_inv t ks" "holds t ks sid r e" "holds t ks sid' r' e'" "ar_RefreshDigest r = ar_RefreshDigest r'"
  shows "sid = sid'"
  using inv_refresh_of(1) [OF assms(1,2)] inv_refresh_of(1) [OF assms(1,3)] assms(4) by simp

section \<open>Passing of time\<close>

lemma holds_later: "holds t ks sid r e \<Longrightarrow> t' \<le> e \<Longrightarrow> holds t' ks sid r e"
  by (auto simp: holds_def intro: live_at_later)

lemma holds_earlier: "holds t' ks sid r e \<Longrightarrow> t \<le> t' \<Longrightarrow> holds t ks sid r e"
  by (auto simp: holds_def intro: live_later)

lemma session_inv_later:
  assumes inv: "session_inv t ks" and "t \<le> t'"
  shows "session_inv t' ks"
  unfolding session_inv_def
proof (intro conjI)
  show "session_keys_ok t' ks"
    unfolding session_keys_ok_def
  proof (intro allI impI)
    fix sid v assume v: "live t' ks (authSessionKey sid) = Some v"
    then obtain r e where h: "sid \<noteq> []" "holds t ks sid r e"
      and f: "live t ks (authRefreshKey (ar_RefreshDigest r)) = Some (RStr sid, Some e)"
      using inv_session [OF inv live_later [OF assms(2) v]] by blast
    have "t' \<le> e" using v live_later [OF assms(2) v] holds_live [OF h(2)] live_SomeD by fastforce
    moreover have "\<exists>zs x. live t' ks (authUserSessionsKey (owner r)) = Some (RZset zs, Some x)
        \<and> (sid, e) \<in> set zs \<and> e \<le> x" if "t' < e"
    proof -
      have "t < e" using that assms(2) by simp
      then obtain zs x where "live t ks (authUserSessionsKey (owner r)) = Some (RZset zs, Some x)"
        and "(sid, e) \<in> set zs" and "e \<le> x"
        using inv_indexed [OF inv h(2)] by blast
      moreover from this have "t' \<le> x" using that by simp
      ultimately show ?thesis using live_at_later by blast
    qed
    ultimately show "\<exists>r e. sid \<noteq> [] \<and> holds t' ks sid r e \<and>
        live t' ks (authRefreshKey (ar_RefreshDigest r)) = Some (RStr sid, Some e) \<and>
        (t' < e \<longrightarrow> (\<exists>zs x. live t' ks (authUserSessionsKey (owner r)) = Some (RZset zs, Some x)
           \<and> (sid, e) \<in> set zs \<and> e \<le> x))"
      using h(1) holds_later [OF h(2)] live_at_later [OF f] by blast
  qed
  show "refresh_keys_ok t' ks"
    unfolding refresh_keys_ok_def
  proof (intro allI impI)
    fix d v assume v: "live t' ks (authRefreshKey d) = Some v"
    obtain sid r e where "v = (RStr sid, Some e)" "holds t ks sid r e" "ar_RefreshDigest r = d"
      using inv_refresh [OF inv live_later [OF assms(2) v]] by metis
    then show "\<exists>sid r e. v = (RStr sid, Some e) \<and> holds t' ks sid r e \<and> ar_RefreshDigest r = d"
      using v live_SomeD holds_later by metis
  qed
  show "index_keys_ok t' ks"
    unfolding index_keys_ok_def
  proof (intro allI impI)
    fix u v assume v: "live t' ks (authUserSessionsKey u) = Some v"
    obtain zs x where "v = (RZset zs, Some x)"
      and zs: "\<And>sid e. (sid, e) \<in> set zs \<Longrightarrow> entry_ok t ks u sid e"
      using inv_index [OF inv live_later [OF assms(2) v]] by metis
    moreover have "entry_ok t' ks u sid e" if "(sid, e) \<in> set zs" for sid e
      using zs [OF that] assms(2) holds_later holds_earlier unfolding entry_ok_def by (meson order.trans)
    ultimately show "\<exists>zs x. v = (RZset zs, Some x) \<and> (\<forall>sid e. (sid, e) \<in> set zs \<longrightarrow> entry_ok t' ks u sid e)"
      by blast
  qed
qed

section \<open>Rotation\<close>

lemmas ks_defs = ks_get_def ks_set_px_def ks_del_def ks_pttl_def ks_exists_def
lemmas cmd_defs = cbind_def cret_def

definition rotated :: "authSessionRecord \<Rightarrow> string \<Rightarrow> string \<Rightarrow> authSessionRecord" where
  "rotated r d jti = r\<lparr>ar_RefreshDigest := d, ar_AuthSession := (ar_AuthSession r)\<lparr>s_AccessJTI := jti\<rparr>\<rparr>"

lemma rotated_simps [simp]:
  "ar_RefreshDigest (rotated r d jti) = d"
  "owner (rotated r d jti) = owner r"
  "ar_AuthSession (rotated r d jti) = (ar_AuthSession r)\<lparr>s_AccessJTI := jti\<rparr>"
  by (simp_all add: rotated_def)

definition rotate_effect :: "string \<Rightarrow> string \<Rightarrow> string \<Rightarrow> string \<Rightarrow> int \<Rightarrow> keyspace \<Rightarrow> keyspace" where
  "rotate_effect sid d d' j e ks =
     ks(authSessionKey sid \<mapsto> (RStr j, Some e), authRefreshKey d := None,
        authRefreshKey d' \<mapsto> (RStr sid, Some e))"

text \<open>The script either leaves the keyspace alone or swaps all three keys.\<close>

lemma rotate_script_run:
  assumes "live t ks (authRefreshKey d) = Some (RStr sid, x)"
    and "live t ks (authSessionKey sid) = Some (RStr a1, Some e)" and "t < e"
  shows "rotateSessionScript (ks_redis cj) t (authSessionKey sid) (authRefreshKey d) (authRefreshKey d') a1 a2 sid ks
     = (Inr (e - t), rotate_effect sid d d' a2 e ks)"
  using assms by (simp add: rotateSessionScript_def cmd_defs ks_defs rotate_effect_def)

lemma rotate_script_idle:
  assumes "live t ks (authRefreshKey d) = None"
  shows "rotateSessionScript (ks_redis cj) t k1 (authRefreshKey d) k3 a1 a2 sid ks = (Inr 0, ks)"
  using assms by (simp add: rotateSessionScript_def cmd_defs ks_defs)

lemma holds_cong:
  "live t ks' (authSessionKey sid) = live t ks (authSessionKey sid) \<Longrightarrow> holds t ks' sid r e = holds t ks sid r e"
  by (simp add: holds_def)

lemma holds_rotate_effect:
  assumes "t \<le> e" "record_ok r'"
  shows "holds t (rotate_effect sid d d' (json_object (record_fields r')) e ks) sid0 r0 e0 \<longleftrightarrow>
     (if sid0 = sid then r0 = r' \<and> e0 = e else holds t ks sid0 r0 e0)"
  using assms record_text_inject [of r' r0]
  by (auto simp: holds_def rotate_effect_def record_ok_def)

lemma live_rotate_effect:
  assumes "t \<le> e"
  shows "live t (rotate_effect sid d d' j e ks) (authRefreshKey x) =
      (if x = d' then Some (RStr sid, Some e) else if x = d then None else live t ks (authRefreshKey x))"
    and "live t (rotate_effect sid d d' j e ks) (authUserSessionsKey u) = live t ks (authUserSessionsKey u)"
    and "s \<noteq> sid \<Longrightarrow> live t (rotate_effect sid d d' j e ks) (authSessionKey s) = live t ks (authSessionKey s)"
  using assms by (auto simp: rotate_effect_def)

text \<open>One lemma per kind of key; the situation is that of a successful rotation.\<close>

lemma rotate_session_keys:
  assumes inv: "session_inv t ks" and h: "holds t ks sid r e"
    and ok: "record_ok (rotated r d' jti)" and fresh: "live t ks (authRefreshKey d') = None"
  shows "session_keys_ok t (rotate_effect sid (ar_RefreshDigest r) d' (json_object (record_fields (rotated r d' jti))) e ks)"
    (is "session_keys_ok t ?ks")
  unfolding session_keys_ok_def
proof (intro allI impI)
  have te: "t \<le> e" by (rule holds_time [OF h])
  note h' = holds_rotate_effect [OF te ok, of sid "ar_RefreshDigest r" d' ks]
  note l = live_rotate_effect [OF te]
  fix s v assume v: "live t ?ks (authSessionKey s) = Some v"
  show "\<exists>r e. s \<noteq> [] \<and> holds t ?ks s r e \<and>
      live t ?ks (authRefreshKey (ar_RefreshDigest r)) = Some (RStr s, Some e) \<and>
      (t < e \<longrightarrow> (\<exists>zs x. live t ?ks (authUserSessionsKey (owner r)) = Some (RZset zs, Some x)
         \<and> (s, e) \<in> set zs \<and> e \<le> x))"
  proof (cases "s = sid")
    case True
    have "holds t ?ks sid (rotated r d' jti) e" using h' by simp
    moreover have "live t ?ks (authRefreshKey d') = Some (RStr sid, Some e)" using l(1) by simp
    ultimately show ?thesis
      using True inv_indexed_ex [OF inv h] inv_refresh_of(2) [OF inv h]
      by (intro exI [of _ "rotated r d' jti"] exI [of _ e]) (simp add: l(2))
  next
    case False
    then obtain r0 e0 where h0: "holds t ks s r0 e0" using l(3) v inv_session [OF inv] by metis
    have "ar_RefreshDigest r0 \<noteq> ar_RefreshDigest r" using inv_digest_unique [OF inv h0 h] False by blast
    moreover have "ar_RefreshDigest r0 \<noteq> d'" using inv_refresh_of(1) [OF inv h0] fresh by auto
    ultimately show ?thesis
      using h' l(1,2) False h0 inv_refresh_of [OF inv h0] inv_indexed_ex [OF inv h0] by metis
  qed
qed

lemma rotate_refresh_keys:
  assumes inv: "session_inv t ks" and h: "holds t ks sid r e" and ok: "record_ok (rotated r d' jti)"
  shows "refresh_keys_ok t (rotate_effect sid (ar_RefreshDigest r) d' (json_object (record_fields (rotated r d' jti))) e ks)"
    (is "refresh_keys_ok t ?ks")
  unfolding refresh_keys_ok_def
proof (intro allI impI)
  have te: "t \<le> e" by (rule holds_time [OF h])
  note h' = holds_rotate_effect [OF te ok, of sid "ar_RefreshDigest r" d' ks]
  note l = live_rotate_effect(1) [OF te]
  fix x v assume v: "live t ?ks (authRefreshKey x) = Some v"
  show "\<exists>s r e. v = (RStr s, Some e) \<and> holds t ?ks s r e \<and> ar_RefreshDigest r = x"
  proof (cases "x = d'")
    case True
    then show ?thesis using v l h' by (metis option.inject rotated_simps(1))
  next
    case False
    then have x: "x \<noteq> ar_RefreshDigest r" and k: "live t ks (authRefreshKey x) = Some v"
      using v l by (metis option.distinct(1))+
    then obtain s r0 e0 where "v = (RStr s, Some e0)" "holds t ks s r0 e0" "ar_RefreshDigest r0 = x"
      using inv_refresh [OF inv k] by metis
    moreover from this have "s \<noteq> sid" using holds_det [OF h] x by metis
    ultimately show ?thesis using h' by metis
  qed
qed

lemma rotate_index_keys:
  assumes inv: "session_inv t ks" and h: "holds t ks sid r e" and ok: "record_ok (rotated r d' jti)"
  shows "index_keys_ok t (rotate_effect sid (ar_RefreshDigest r) d' (json_object (record_fields (rotated r d' jti))) e ks)"
    (is "index_keys_ok t ?ks")
  unfolding index_keys_ok_def
proof (intro allI impI)
  have te: "t \<le> e" by (rule holds_time [OF h])
  note h' = holds_rotate_effect [OF te ok, of sid "ar_RefreshDigest r" d' ks]
  fix u v assume "live t ?ks (authUserSessionsKey u) = Some v"
  then obtain zs x where "v = (RZset zs, Some x)"
    and zs: "\<And>s e. (s, e) \<in> set zs \<Longrightarrow> entry_ok t ks u s e"
    using inv_index [OF inv] live_rotate_effect(2) [OF te] by metis
  moreover have "entry_ok t ?ks u s e0" if "(s, e0) \<in> set zs" for s e0
    using zs [OF that] h h' holds_det [OF h] unfolding entry_ok_def by (metis rotated_simps(2))
  ultimately show "\<exists>zs x. v = (RZset zs, Some x) \<and> (\<forall>s e. (s, e) \<in> set zs \<longrightarrow> entry_ok t ?ks u s e)"
    by blast
qed

lemma inv_rotate_effect:
  assumes "session_inv t ks" "holds t ks sid r e" "record_ok (rotated r d' jti)"
    "live t ks (authRefreshKey d') = None"
  shows "session_inv t (rotate_effect sid (ar_RefreshDigest r) d' (json_object (record_fields (rotated r d' jti))) e ks)"
  unfolding session_inv_def
  using rotate_session_keys [OF assms] rotate_refresh_keys [OF assms(1-3)] rotate_index_keys [OF assms(1-3)]
  by simp

section \<open>Commands on sorted sets\<close>

definition zset_of :: "entry option \<Rightarrow> zset" where
  "zset_of v = (case v of Some (RZset zs, _) \<Rightarrow> zs | _ \<Rightarrow> [])"

definition expiry_of :: "entry option \<Rightarrow> int option" where
  "expiry_of v = (case v of Some (_, x) \<Rightarrow> x | None \<Rightarrow> None)"

definition is_zset :: "entry option \<Rightarrow> bool" where
  "is_zset v = (case v of None \<Rightarrow> True | Some (RZset _, _) \<Rightarrow> True | _ \<Rightarrow> False)"

definition mk_zset :: "zset \<Rightarrow> int option \<Rightarrow> entry option" where
  "mk_zset zs x = (if zs = [] then None else Some (RZset zs, x))"

lemma zset_of_simps [simp]:
  "zset_of None = []" "zset_of (Some (RZset zs, x)) = zs"
  "expiry_of None = None" "expiry_of (Some (v, x)) = x"
  "is_zset None" "is_zset (Some (RZset zs, x))"
  by (simp_all add: zset_of_def expiry_of_def is_zset_def)

lemma zset_of_mk [simp]:
  "zset_of (mk_zset zs x) = zs" "is_zset (mk_zset zs x)"
  "mk_zset zs x = None \<longleftrightarrow> zs = []" "zs \<noteq> [] \<Longrightarrow> expiry_of (mk_zset zs x) = x"
  by (simp_all add: mk_zset_def)

lemma is_zset_cases:
  assumes "is_zset v" obtains "v = None" | zs x where "v = Some (RZset zs, x)"
  using assms by (auto simp: is_zset_def split: option.splits rvalue.splits prod.splits)

lemma live_put_zset:
  assumes "\<And>e. x = Some e \<Longrightarrow> t \<le> e"
  shows "live t (put_zset k zs x ks) = (live t ks)(k := mk_zset zs x)"
  using assms by (cases x) (auto simp: put_zset_def mk_zset_def)

lemma on_zset_run:
  assumes "is_zset (live t ks k)"
  shows "\<exists>ks'. on_zset f t k ks = (Inr (), ks') \<and>
    live t ks' = (live t ks)(k := mk_zset (f (zset_of (live t ks k))) (expiry_of (live t ks k)))"
  using assms
proof (cases rule: is_zset_cases)
  case 1
  then show ?thesis using live_put_zset [of None t k "f []" ks] by (simp add: on_zset_def)
next
  case (2 zs x)
  then have "\<And>e. x = Some e \<Longrightarrow> t \<le> e" using live_SomeD by blast
  with 2 show ?thesis by (simp add: on_zset_def live_put_zset)
qed

lemma inv_index_zset: "session_inv t ks \<Longrightarrow> is_zset (live t ks (authUserSessionsKey u))"
  by (cases "live t ks (authUserSessionsKey u)") (auto elim: inv_index)

lemma inv_index_entry:
  assumes "session_inv t ks" "(sid, e) \<in> set (zset_of (live t ks (authUserSessionsKey u)))"
  shows "entry_ok t ks u sid e"
  using assms by (cases "live t ks (authUserSessionsKey u)") (auto elim!: inv_index)

section \<open>Removal\<close>

text \<open>
  \<open>removed S t ks ks'\<close>: the sessions \<open>S\<close> and their refresh keys are gone, the indexes lost
  their entries (and possibly entries that have expired), nothing else changed.
\<close>

definition removed :: "string set \<Rightarrow> int \<Rightarrow> keyspace \<Rightarrow> keyspace \<Rightarrow> bool" where
  "removed S t ks ks' \<longleftrightarrow>
     (\<forall>sid. live t ks' (authSessionKey sid) = (if sid \<in> S then None else live t ks (authSessionKey sid))) \<and>
     (\<forall>d. live t ks' (authRefreshKey d) =
        (if \<exists>sid r e. sid \<in> S \<and> holds t ks sid r e \<and> ar_RefreshDigest r = d then None
         else live t ks (authRefreshKey d))) \<and>
     (\<forall>u. is_zset (live t ks' (authUserSessionsKey u)) \<and>
        (live t ks' (authUserSessionsKey u) \<noteq> None \<longrightarrow>
           live t ks (authUserSessionsKey u) \<noteq> None \<and>
           expiry_of (live t ks' (authUserSessionsKey u)) = expiry_of (live t ks (authUserSessionsKey u)))) \<and>
     (\<forall>u sid e. (sid, e) \<in> set (zset_of (live t ks' (authUserSessionsKey u))) \<longrightarrow>
        (sid, e) \<in> set (zset_of (live t ks (authUserSessionsKey u))) \<and> (t \<le> e \<longrightarrow> sid \<notin> S)) \<and>
     (\<forall>u sid e. (sid, e) \<in> set (zset_of (live t ks (authUserSessionsKey u))) \<longrightarrow> t < e \<longrightarrow> sid \<notin> S \<longrightarrow>
        (sid, e) \<in> set (zset_of (live t ks' (authUserSessionsKey u))))"

lemma in_zset_of:
  assumes "is_zset v" "p \<in> set (zset_of v)" shows "v = Some (RZset (zset_of v), expiry_of v)"
  using assms by (auto elim: is_zset_cases)

lemma removed_index:
  assumes "removed S t ks ks'"
  shows "is_zset (live t ks' (authUserSessionsKey u))"
    and "live t ks' (authUserSessionsKey u) \<noteq> None \<Longrightarrow> live t ks (authUserSessionsKey u) \<noteq> None"
    and "live t ks' (authUserSessionsKey u) \<noteq> None \<Longrightarrow>
      expiry_of (live t ks' (authUserSessionsKey u)) = expiry_of (live t ks (authUserSessionsKey u))"
    and "(sid, e) \<in> set (zset_of (live t ks' (authUserSessionsKey u))) \<Longrightarrow>
      (sid, e) \<in> set (zset_of (live t ks (authUserSessionsKey u)))"
    and "(sid, e) \<in> set (zset_of (live t ks' (authUserSessionsKey u))) \<Longrightarrow> t \<le> e \<Longrightarrow> sid \<notin> S"
    and "(sid, e) \<in> set (zset_of (live t ks (authUserSessionsKey u))) \<Longrightarrow> t < e \<Longrightarrow> sid \<notin> S \<Longrightarrow>
      (sid, e) \<in> set (zset_of (live t ks' (authUserSessionsKey u)))"
  using assms unfolding removed_def by blast+

lemma removed_holds: "removed S t ks ks' \<Longrightarrow> holds t ks' sid r e \<longleftrightarrow> sid \<notin> S \<and> holds t ks sid r e"
  by (auto simp: removed_def holds_def)

lemma removed_session_keys:
  assumes inv: "session_inv t ks" and rm: "removed S t ks ks'"
  shows "session_keys_ok t ks'"
  unfolding session_keys_ok_def
proof (intro allI impI)
  fix s v assume v: "live t ks' (authSessionKey s) = Some v"
  then have s: "s \<notin> S" and "live t ks (authSessionKey s) = Some v"
    using rm unfolding removed_def by (metis option.distinct(1))+
  then obtain r e where h: "holds t ks s r e" using inv_session [OF inv] by metis
  have "live t ks' (authRefreshKey (ar_RefreshDigest r)) = Some (RStr s, Some e)"
    using rm inv_refresh_of(1) [OF inv h] inv_digest_unique [OF inv _ h] s unfolding removed_def by metis
  moreover have "\<exists>zs x. live t ks' (authUserSessionsKey (owner r)) = Some (RZset zs, Some x)
      \<and> (s, e) \<in> set zs \<and> e \<le> x" if te: "t < e"
  proof -
    obtain zs x where k: "live t ks (authUserSessionsKey (owner r)) = Some (RZset zs, Some x)"
      "(s, e) \<in> set zs" "e \<le> x"
      using inv_indexed [OF inv h te] by metis
    then have m: "(s, e) \<in> set (zset_of (live t ks' (authUserSessionsKey (owner r))))"
      using removed_index(6) [OF rm _ te s] by simp
    then have "live t ks' (authUserSessionsKey (owner r)) \<noteq> None"
      using in_zset_of [OF removed_index(1) [OF rm] m] by (metis option.distinct(1))
    then have "expiry_of (live t ks' (authUserSessionsKey (owner r))) = Some x"
      using removed_index(3) [OF rm] k by simp
    then show ?thesis using in_zset_of [OF removed_index(1) [OF rm] m] m k(3) by metis
  qed
  ultimately show "\<exists>r e. s \<noteq> [] \<and> holds t ks' s r e \<and>
      live t ks' (authRefreshKey (ar_RefreshDigest r)) = Some (RStr s, Some e) \<and>
      (t < e \<longrightarrow> (\<exists>zs x. live t ks' (authUserSessionsKey (owner r)) = Some (RZset zs, Some x)
         \<and> (s, e) \<in> set zs \<and> e \<le> x))"
    using removed_holds [OF rm] s h inv_refresh_of(2) [OF inv h] by blast
qed

lemma removed_refresh_keys:
  assumes inv: "session_inv t ks" and rm: "removed S t ks ks'"
  shows "refresh_keys_ok t ks'"
  unfolding refresh_keys_ok_def
proof (intro allI impI)
  fix d v assume v: "live t ks' (authRefreshKey d) = Some v"
  then have k: "live t ks (authRefreshKey d) = Some v"
    and n: "\<not> (\<exists>sid r e. sid \<in> S \<and> holds t ks sid r e \<and> ar_RefreshDigest r = d)"
    using rm unfolding removed_def by (metis option.distinct(1))+
  obtain s r e where "v = (RStr s, Some e)" "holds t ks s r e" "ar_RefreshDigest r = d"
    using inv_refresh [OF inv k] by metis
  then show "\<exists>sid r e. v = (RStr sid, Some e) \<and> holds t ks' sid r e \<and> ar_RefreshDigest r = d"
    using n removed_holds [OF rm] by blast
qed

lemma removed_index_keys:
  assumes inv: "session_inv t ks" and rm: "removed S t ks ks'"
  shows "index_keys_ok t ks'"
  unfolding index_keys_ok_def
proof (intro allI impI)
  fix u v assume v: "live t ks' (authUserSessionsKey u) = Some v"
  let ?v = "live t ks (authUserSessionsKey u)"
  obtain w where w: "?v = Some w" using removed_index(2) [OF rm, of u] v by fastforce
  obtain x where x: "expiry_of ?v = Some x" using inv_index [OF inv w] w by (metis zset_of_simps(4))
  obtain zs where zs: "v = (RZset zs, Some x)"
    using removed_index(1,3) [OF rm, of u] v x by (auto elim: is_zset_cases)
  have "entry_ok t ks' u sid e" if "(sid, e) \<in> set zs" for sid e
    using removed_index(4,5) [OF rm, of sid e u] v zs that inv_index_entry [OF inv, of sid e u] removed_holds [OF rm]
    unfolding entry_ok_def by auto
  with zs show "\<exists>zs x. v = (RZset zs, Some x) \<and> (\<forall>sid e. (sid, e) \<in> set zs \<longrightarrow> entry_ok t ks' u sid e)"
    by blast
qed

lemma inv_removed: "session_inv t ks \<Longrightarrow> removed S t ks ks' \<Longrightarrow> session_inv t ks'"
  unfolding session_inv_def [of t ks']
  by (intro conjI removed_session_keys removed_refresh_keys removed_index_keys)

section \<open>The scripts that delete\<close>

lemma removed_one:
  assumes inv: "session_inv t ks" and h: "holds t ks sid r e"
    and L: "live t ks' = (live t ks)(authSessionKey sid := None, authRefreshKey (ar_RefreshDigest r) := None,
      authUserSessionsKey (owner r) :=
        mk_zset (filter (\<lambda>p. fst p \<noteq> sid) (zset_of (live t ks (authUserSessionsKey (owner r)))))
          (expiry_of (live t ks (authUserSessionsKey (owner r)))))"
  shows "removed {sid} t ks ks'"
proof -
  have sole: "(\<exists>r' e'. holds t ks sid r' e' \<and> ar_RefreshDigest r' = d) \<longleftrightarrow> d = ar_RefreshDigest r" for d
    using h holds_det [OF h] by metis
  have other: "s \<noteq> sid" if "(s, e') \<in> set (zset_of (live t ks (authUserSessionsKey u)))" "u \<noteq> owner r"
    for u s e'
    using inv_index_entry [OF inv that(1)] that(2) h unfolding entry_ok_def by blast
  show ?thesis
    unfolding removed_def L
    using sole other inv_index_zset [OF inv]
    by (cases "live t ks (authUserSessionsKey (owner r))") (auto simp del: not_None_eq)
qed

lemma atom_field_record:
  "atom_field (record_fields r) ''refresh_digest'' = Some (ar_RefreshDigest r)"
  "atom_field (record_fields r) ''user_id'' = Some (owner r)"
  by (simp_all add: atom_field_def record_fields_def Let_def)

context cjson_decoder
begin

lemma cjson_record:
  assumes "record_ok r"
  shows "lua_field (cj (json_object (record_fields r))) ''refresh_digest'' = Some (ar_RefreshDigest r)"
    and "lua_field (cj (json_object (record_fields r))) ''user_id'' = Some (owner r)"
  using assms cjson_object [OF record_fields_nonempty record_fields_atoms]
  by (simp_all add: lua_field_def record_ok_def atom_field_record)

lemma delete_script_live:
  assumes inv: "session_inv t ks" and h: "holds t ks sid r e"
  shows "\<exists>ks'. deleteSessionScript (ks_redis cj) t (authSessionKey sid) sid authRefreshKeyPrefix
      authUserSessionsKeyPrefix ks = (Inr 1, ks') \<and> removed {sid} t ks ks'"
proof -
  let ?ks1 = "ks(authSessionKey sid := None, authRefreshKey (ar_RefreshDigest r) := None)"
  let ?u = "authUserSessionsKey (owner r)"
  have ok: "record_ok r" using h by (simp add: holds_def)
  have l: "live t ?ks1 ?u = live t ks ?u" by simp
  obtain ks' where z: "ks_zrem t ?u sid ?ks1 = (Inr (), ks')"
    and L: "live t ks' = (live t ?ks1)(?u := mk_zset (filter (\<lambda>p. fst p \<noteq> sid) (zset_of (live t ks ?u))) (expiry_of (live t ks ?u)))"
    using on_zset_run [of t ?ks1 ?u "filter (\<lambda>p. fst p \<noteq> sid)"] inv_index_zset [OF inv, of "owner r"] l
    unfolding ks_zrem_def by metis
  have "deleteSessionScript (ks_redis cj) t (authSessionKey sid) sid authRefreshKeyPrefix
      authUserSessionsKeyPrefix ks = (Inr 1, ks')"
    using holds_live [OF h] z
    by (simp add: deleteSessionScript_def cmd_defs ks_get_def ks_del_def cjson_record [OF ok])
  moreover have "removed {sid} t ks ks'"
    by (rule removed_one [OF inv h]) (simp add: L)
  ultimately show ?thesis by blast
qed

lemma delete_script:
  assumes inv: "session_inv t ks"
  shows "\<exists>n ks'. deleteSessionScript (ks_redis cj) t (authSessionKey sid) sid authRefreshKeyPrefix
      authUserSessionsKeyPrefix ks = (Inr n, ks') \<and> removed {sid} t ks ks'"
proof (cases "live t ks (authSessionKey sid)")
  case None
  then have "\<not> holds t ks sid r e" for r e by (simp add: holds_def)
  then have "removed {sid} t ks ks"
    using None inv_index_zset [OF inv] inv_index_entry [OF inv]
    unfolding removed_def entry_ok_def by fastforce
  with None show ?thesis by (simp add: deleteSessionScript_def cmd_defs ks_get_def)
next
  case (Some v)
  then obtain r e where "holds t ks sid r e" using inv_session [OF inv] by metis
  then show ?thesis using delete_script_live [OF inv] by metis
qed

end

section \<open>Deleting all sessions of a user\<close>

definition kill_one :: "int \<Rightarrow> keyspace \<Rightarrow> string \<Rightarrow> string set" where
  "kill_one t ks sid =
     {k. \<exists>r e. holds t ks sid r e \<and> (k = authSessionKey sid \<or> k = authRefreshKey (ar_RefreshDigest r))}"

definition killed :: "int \<Rightarrow> keyspace \<Rightarrow> string list \<Rightarrow> string set" where
  "killed t ks ids = (\<Union>sid \<in> set ids. kill_one t ks sid)"

lemma kill_one_dead: "live t ks (authSessionKey sid) = None \<Longrightarrow> kill_one t ks sid = {}"
  by (simp add: kill_one_def holds_def)

lemma kill_one_live:
  assumes h: "holds t ks sid r e"
  shows "kill_one t ks sid = {authSessionKey sid, authRefreshKey (ar_RefreshDigest r)}"
proof -
  have "holds t ks sid r' e' \<longleftrightarrow> r' = r \<and> e' = e" for r' e' using h holds_det [OF h] by blast
  then show ?thesis by (auto simp: kill_one_def)
qed

lemma kill_one_after:
  assumes "live t ks' = (live t ks)(k := None, authSessionKey sid := None)" "\<And>s. k \<noteq> authSessionKey s"
  shows "kill_one t ks' s = (if s = sid then {} else kill_one t ks s)"
  using assms(1) assms(2) [symmetric] by (simp add: kill_one_def holds_def)

lemma killed_Cons: "killed t ks (sid # ids) = kill_one t ks sid \<union> killed t ks ids"
  by (simp add: killed_def)

lemma killed_after:
  assumes "live t ks' = (live t ks)(k := None, authSessionKey sid := None)" "\<And>s. k \<noteq> authSessionKey s"
  shows "kill_one t ks sid \<union> killed t ks' ids = killed t ks (sid # ids)"
  by (auto simp: killed_def kill_one_after [OF assms] split: if_splits)

context cjson_decoder
begin

lemma delete_loop:
  assumes "\<forall>sid \<in> set ids. live t ks (authSessionKey sid) = None \<or> (\<exists>r e. holds t ks sid r e)"
  shows "\<exists>ks'. delete_sessions_loop (ks_redis cj) t authSessionKeyPrefix authRefreshKeyPrefix ids ks = (Inr (), ks') \<and>
    (\<forall>k. live t ks' k = (if k \<in> killed t ks ids then None else live t ks k))"
  using assms
proof (induction ids arbitrary: ks)
  case Nil
  then show ?case by (simp add: cret_def killed_def)
next
  case (Cons sid ids)
  show ?case
  proof (cases "live t ks (authSessionKey sid)")
    case None
    then show ?thesis using Cons by (simp add: cmd_defs ks_get_def killed_Cons kill_one_dead)
  next
    case (Some v)
    then obtain r e where h: "holds t ks sid r e" using Cons.prems by auto
    then have ok: "record_ok r" by (simp add: holds_def)
    let ?ks1 = "ks(authRefreshKey (ar_RefreshDigest r) := None, authSessionKey sid := None)"
    have L: "live t ?ks1 = (live t ks)(authRefreshKey (ar_RefreshDigest r) := None, authSessionKey sid := None)"
      by simp
    have "\<forall>s \<in> set ids. live t ?ks1 (authSessionKey s) = None \<or> (\<exists>r e. holds t ?ks1 s r e)"
      using Cons.prems by (auto simp: holds_def)
    then obtain ks' where run: "delete_sessions_loop (ks_redis cj) t authSessionKeyPrefix authRefreshKeyPrefix ids ?ks1 = (Inr (), ks')"
      and after: "\<forall>k. live t ks' k = (if k \<in> killed t ?ks1 ids then None else live t ?ks1 k)"
      using Cons.IH by blast
    have "killed t ks (sid # ids) = kill_one t ks sid \<union> killed t ?ks1 ids"
      using killed_after [OF L, of ids] by simp
    then have "\<forall>k. live t ks' k = (if k \<in> killed t ks (sid # ids) then None else live t ks k)"
      using after by (simp add: kill_one_live [OF h])
    moreover have "delete_sessions_loop (ks_redis cj) t authSessionKeyPrefix authRefreshKeyPrefix (sid # ids) ks = (Inr (), ks')"
      using holds_live [OF h] run by (simp add: cmd_defs ks_get_def ks_del_def cjson_record [OF ok])
    ultimately show ?thesis by blast
  qed
qed

lemma removed_user:
  assumes inv: "session_inv t ks"
    and L: "\<forall>k. live t ks' k = (if k = authUserSessionsKey u then None
              else if k \<in> killed t ks (map fst (zset_of (live t ks (authUserSessionsKey u)))) then None
              else live t ks k)"
  shows "removed (fst ` set (zset_of (live t ks (authUserSessionsKey u)))) t ks ks'"
    (is "removed ?S t ks ks'")
proof -
  have own: "owner r = u" if "sid \<in> ?S" "holds t ks sid r e" for sid r e
    using that inv_index_entry [OF inv, of sid _ u] unfolding entry_ok_def by force
  have sess: "authSessionKey sid \<in> killed t ks (map fst (zset_of (live t ks (authUserSessionsKey u)))) \<longleftrightarrow>
      sid \<in> ?S \<and> live t ks (authSessionKey sid) \<noteq> None" for sid
  proof -
    have "(\<exists>r e. holds t ks sid r e) \<longleftrightarrow> live t ks (authSessionKey sid) \<noteq> None"
      using inv_session [OF inv, of sid] holds_live by fastforce
    then show ?thesis by (auto simp: killed_def kill_one_def image_iff)
  qed
  have refr: "authRefreshKey d \<in> killed t ks (map fst (zset_of (live t ks (authUserSessionsKey u)))) \<longleftrightarrow>
      (\<exists>sid r e. sid \<in> ?S \<and> holds t ks sid r e \<and> ar_RefreshDigest r = d)" for d
    by (simp add: killed_def kill_one_def) blast
  have idx: "authUserSessionsKey w \<notin> killed t ks ids" for w ids
    by (simp add: killed_def kill_one_def)
  have other: "sid \<notin> ?S" if "(sid, e) \<in> set (zset_of (live t ks (authUserSessionsKey w)))" "w \<noteq> u" "t \<le> e" for sid e w
    using inv_index_entry [OF inv that(1)] own that(2,3) unfolding entry_ok_def by blast
  have mine: "sid \<in> ?S" if "(sid, e) \<in> set (zset_of (live t ks (authUserSessionsKey u)))" for sid e
    using that by force
  have "live t ks' (authSessionKey sid) = (if sid \<in> ?S then None else live t ks (authSessionKey sid))" for sid
    using L sess [of sid] by (cases "live t ks (authSessionKey sid)") auto
  then show ?thesis
    unfolding removed_def
    using L refr idx other mine inv_index_zset [OF inv] by auto
qed

lemma delete_user_script:
  assumes inv: "session_inv t ks"
  shows "\<exists>n ks'. deleteUserSessionsScript (ks_redis cj) t (authUserSessionsKey u) authSessionKeyPrefix
      authRefreshKeyPrefix ks = (Inr n, ks') \<and>
      removed (fst ` set (zset_of (live t ks (authUserSessionsKey u)))) t ks ks'"
proof -
  let ?ids = "map fst (zset_of (live t ks (authUserSessionsKey u)))"
  have z: "ks_zrange t (authUserSessionsKey u) ks = (Inr ?ids, ks)"
    using inv_index_zset [OF inv, of u] by (auto simp: ks_zrange_def ask_zset_def elim: is_zset_cases)
  have "\<forall>sid \<in> set ?ids. live t ks (authSessionKey sid) = None \<or> (\<exists>r e. holds t ks sid r e)"
    using inv_session [OF inv] by (metis not_None_eq)
  then obtain ks' where l: "delete_sessions_loop (ks_redis cj) t authSessionKeyPrefix authRefreshKeyPrefix ?ids ks = (Inr (), ks')"
    and L: "\<forall>k. live t ks' k = (if k \<in> killed t ks ?ids then None else live t ks k)"
    using delete_loop by blast
  have "removed (fst ` set (zset_of (live t ks (authUserSessionsKey u)))) t ks (ks'(authUserSessionsKey u := None))"
    by (rule removed_user [OF inv]) (use L in simp)
  then show ?thesis using z l by (simp add: deleteUserSessionsScript_def cmd_defs ks_del_def)
qed

end

end
