(* ===== verification/SessionCreate.thy ===== *)
theory SessionCreate
  imports SessionInvariant
begin

text \<open>
  The pipeline of \<open>Create\<close> on a keyspace that satisfies the session invariant: a fresh
  session id and a fresh refresh digest add exactly one row to the abstract table, and the
  owner's index then lives at least as long as the new session.
\<close>

lemma set_zset_add: "set (zset_add s m zs) = insert (m, s) {p \<in> set zs. fst p \<noteq> m}"
proof -
  have "set (zinsert s m zs) = insert (m, s) (set zs)" for zs by (induction s m zs rule: zinsert.induct) auto
  then show ?thesis by (auto simp: zset_add_def)
qed

lemma zset_add_nonempty [simp]: "zset_add s m zs \<noteq> []"
  using set_zset_add [of s m zs] by auto

lemma expire_if_run:
  assumes "live t ks k = Some (v, x)" "0 < s"
  shows "\<exists>ks'. ks_expire_if cond t k s ks = (Inr (), ks') \<and>
    live t ks' = (live t ks)(k \<mapsto> (v, if cond x (t + s * 1000) then Some (t + s * 1000) else x))"
  using assms by (auto simp: ks_expire_if_def fun_upd_idem)

text \<open>The index a pipeline leaves behind, and the expiry of its key.\<close>

definition created ::
    "int \<Rightarrow> keyspace \<Rightarrow> keyspace \<Rightarrow> string \<Rightarrow> string \<Rightarrow> string \<Rightarrow> string \<Rightarrow> int \<Rightarrow> bool" where
  "created t ks ks' sid j d u e \<longleftrightarrow>
     (let kept = filter (\<lambda>p. t < snd p) (zset_of (live t ks (authUserSessionsKey u))) in
      \<exists>x. e \<le> x \<and> (kept \<noteq> [] \<longrightarrow> (\<forall>y. expiry_of (live t ks (authUserSessionsKey u)) = Some y \<longrightarrow> y \<le> x)) \<and>
        live t ks' = (live t ks)(authSessionKey sid \<mapsto> (RStr j, Some e), authRefreshKey d \<mapsto> (RStr sid, Some e),
          authUserSessionsKey u \<mapsto> (RZset (zset_add e sid kept), Some x)))"

lemma whole_ttl:
  assumes "0 < n"
  shows "dur_ms (n * second) = n * 1000" "dur_s (n * second) = n"
    "unix_milli (now + n * second) = unix_milli now + n * 1000"
  using assms by (simp_all add: dur_ms_def dur_s_def quot_pos unix_milli_def)

lemma create_run:
  assumes idx: "is_zset (live t ks (authUserSessionsKey u))"
    and ex: "\<And>v x. live t ks (authUserSessionsKey u) = Some (v, x) \<Longrightarrow> x \<noteq> None"
    and now: "unix_milli now = t" and n: "0 < n"
  shows "\<exists>ks'. pipelined (create_commands (ks_redis cj) now sid j d u (n * second) t) ks = (Inr [(), (), (), (), (), ()], ks')
    \<and> created t ks ks' sid j d u (t + n * 1000)"
proof -
  let ?e = "t + n * 1000" and ?u = "authUserSessionsKey u"
  let ?v = "live t ks ?u"
  define kept where "kept = filter (\<lambda>p. t < snd p) (zset_of ?v)"
  let ?ks1 = "ks(authSessionKey sid \<mapsto> (RStr j, Some ?e), authRefreshKey d \<mapsto> (RStr sid, Some ?e))"
  have L1: "live t ?ks1 = (live t ks)(authSessionKey sid \<mapsto> (RStr j, Some ?e), authRefreshKey d \<mapsto> (RStr sid, Some ?e))"
    using n by simp
  then have v1: "live t ?ks1 ?u = ?v" by simp
  obtain ks2 where r2: "ks_zremrangebyscore t ?u t ?ks1 = (Inr (), ks2)"
    and L2: "live t ks2 = (live t ?ks1)(?u := mk_zset kept (expiry_of ?v))"
    using on_zset_run [of t ?ks1 ?u "filter (\<lambda>p. t < snd p)"] idx v1
    unfolding ks_zremrangebyscore_def kept_def by metis
  have z2: "is_zset (live t ks2 ?u)" and k2: "zset_of (live t ks2 ?u) = kept" by (simp_all add: L2)
  define y where "y = expiry_of (live t ks2 ?u)"
  obtain ks3 where r3: "ks_zadd t ?u ?e sid ks2 = (Inr (), ks3)"
    and L3: "live t ks3 = (live t ks2)(?u \<mapsto> (RZset (zset_add ?e sid kept), y))"
    using on_zset_run [OF z2, of "zset_add ?e sid"] k2 unfolding ks_zadd_def mk_zset_def y_def by auto
  obtain ks4 where r4: "ks_expire_nx t ?u (n * second) ks3 = (Inr (), ks4)"
    and L4: "live t ks4 = (live t ks3)(?u \<mapsto> (RZset (zset_add ?e sid kept), if y = None then Some ?e else y))"
    using expire_if_run [of t ks3 ?u _ y n] n by (auto simp: L3 ks_expire_nx_def whole_ttl)
  let ?y = "if y = None then Some ?e else y"
  obtain ks5 where r5: "ks_expire_gt t ?u (n * second) ks4 = (Inr (), ks5)"
    and L5: "live t ks5 = (live t ks4)(?u \<mapsto> (RZset (zset_add ?e sid kept),
        if (case ?y of None \<Rightarrow> False | Some x \<Rightarrow> x < ?e) then Some ?e else ?y))"
    using expire_if_run [of t ks4 ?u _ ?y n] n by (auto simp: L4 ks_expire_gt_def whole_ttl)
  have "created t ks ks5 sid j d u ?e"
    unfolding created_def Let_def kept_def [symmetric] L5 L4 L3 L2 L1
    by (rule exI [of _ "case y of None \<Rightarrow> ?e | Some a \<Rightarrow> max a ?e"], cases y)
      (auto simp: y_def L2 mk_zset_def max_def split: if_splits)
  moreover have "pipelined (create_commands (ks_redis cj) now sid j d u (n * second) t) ks = (Inr [(), (), (), (), (), ()], ks5)"
    using n now r2 r3 r4 r5
    by (simp add: pipelined_def create_commands_def Let_def ks_set_def ks_set_px_def whole_ttl)
  ultimately show ?thesis by blast
qed

section \<open>The invariant\<close>

text \<open>A session id and a digest that occur nowhere in the store.\<close>

definition fresh :: "int \<Rightarrow> keyspace \<Rightarrow> string \<Rightarrow> string \<Rightarrow> bool" where
  "fresh t ks sid d \<longleftrightarrow>
     live t ks (authSessionKey sid) = None \<and> live t ks (authRefreshKey d) = None \<and>
     (\<forall>u e. (sid, e) \<notin> set (zset_of (live t ks (authUserSessionsKey u))))"

lemma created_holds:
  assumes "created t ks ks' sid (json_object (record_fields r)) d u e" "record_ok r"
  shows "holds t ks' sid0 r0 e0 \<longleftrightarrow> (if sid0 = sid then r0 = r \<and> e0 = e else holds t ks sid0 r0 e0)"
  using assms record_text_inject [of r r0] by (auto simp: created_def Let_def holds_def record_ok_def)

lemma created_live:
  assumes "created t ks ks' sid j d u e"
  shows "live t ks' (authSessionKey s) = (if s = sid then Some (RStr j, Some e) else live t ks (authSessionKey s))"
    and "live t ks' (authRefreshKey x) = (if x = d then Some (RStr sid, Some e) else live t ks (authRefreshKey x))"
    and "w \<noteq> u \<Longrightarrow> live t ks' (authUserSessionsKey w) = live t ks (authUserSessionsKey w)"
  using assms by (auto simp: created_def Let_def)

lemma created_index:
  assumes "created t ks ks' sid j d u e"
  shows "\<exists>zs x. live t ks' (authUserSessionsKey u) = Some (RZset zs, Some x) \<and> e \<le> x \<and>
    set zs = insert (sid, e) {p \<in> set (zset_of (live t ks (authUserSessionsKey u))). t < snd p \<and> fst p \<noteq> sid} \<and>
    ((\<exists>p \<in> set (zset_of (live t ks (authUserSessionsKey u))). t < snd p) \<longrightarrow>
       (\<forall>y. expiry_of (live t ks (authUserSessionsKey u)) = Some y \<longrightarrow> y \<le> x))"
  using assms unfolding created_def Let_def by (auto simp: set_zset_add filter_empty_conv)

lemma created_indexed:
  assumes "created t ks ks' sid j d u e" "live t ks (authUserSessionsKey w) = Some (RZset zs, Some x)"
    "(s, e0) \<in> set zs" "e0 \<le> x" "t < e0" "s \<noteq> sid"
  shows "\<exists>zs x. live t ks' (authUserSessionsKey w) = Some (RZset zs, Some x) \<and> (s, e0) \<in> set zs \<and> e0 \<le> x"
proof (cases "w = u")
  case True
  obtain zs' x' where l: "live t ks' (authUserSessionsKey u) = Some (RZset zs', Some x')"
    and z: "set zs' = insert (sid, e) {p \<in> set zs. t < snd p \<and> fst p \<noteq> sid}"
    and y: "(\<exists>p \<in> set zs. t < snd p) \<longrightarrow> x \<le> x'"
    using created_index [OF assms(1)] assms(2) True by auto
  have "x \<le> x'" using y assms(3,5) by force
  then show ?thesis using True l z assms(3-6) by auto
next
  case False
  then show ?thesis using created_live(3) [OF assms(1)] assms by simp
qed

lemma created_session_keys:
  assumes inv: "session_inv t ks" and f: "fresh t ks sid d" and ok: "record_ok r" "sid \<noteq> []"
    and r: "ar_RefreshDigest r = d" "owner r = u"
    and c: "created t ks ks' sid (json_object (record_fields r)) d u e"
  shows "session_keys_ok t ks'"
  unfolding session_keys_ok_def
proof (intro allI impI)
  note h' = created_holds [OF c ok(1)]
  fix s v assume v: "live t ks' (authSessionKey s) = Some v"
  show "\<exists>r e. s \<noteq> [] \<and> holds t ks' s r e \<and>
      live t ks' (authRefreshKey (ar_RefreshDigest r)) = Some (RStr s, Some e) \<and>
      (t < e \<longrightarrow> (\<exists>zs x. live t ks' (authUserSessionsKey (owner r)) = Some (RZset zs, Some x)
         \<and> (s, e) \<in> set zs \<and> e \<le> x))"
  proof (cases "s = sid")
    case True
    have "holds t ks' sid r e" using h' by simp
    moreover have "live t ks' (authRefreshKey d) = Some (RStr sid, Some e)"
      using created_live(2) [OF c] by simp
    moreover have "\<exists>zs x. live t ks' (authUserSessionsKey u) = Some (RZset zs, Some x) \<and> (sid, e) \<in> set zs \<and> e \<le> x"
      using created_index [OF c] by auto
    ultimately show ?thesis using True ok(2) r by blast
  next
    case False
    then obtain r0 e0 where h0: "holds t ks s r0 e0" using created_live(1) [OF c] v inv_session [OF inv] by metis
    have "ar_RefreshDigest r0 \<noteq> d" using inv_refresh_of(1) [OF inv h0] f unfolding fresh_def by auto
    then have "live t ks' (authRefreshKey (ar_RefreshDigest r0)) = Some (RStr s, Some e0)"
      using created_live(2) [OF c] inv_refresh_of(1) [OF inv h0] by simp
    moreover have "t < e0 \<longrightarrow> (\<exists>zs x. live t ks' (authUserSessionsKey (owner r0)) = Some (RZset zs, Some x)
         \<and> (s, e0) \<in> set zs \<and> e0 \<le> x)"
      using inv_indexed_ex [OF inv h0] created_indexed [OF c] False by blast
    ultimately show ?thesis using h' False h0 inv_refresh_of(2) [OF inv h0] by metis
  qed
qed

lemma created_refresh_keys:
  assumes inv: "session_inv t ks" and f: "fresh t ks sid d" and ok: "record_ok r"
    and r: "ar_RefreshDigest r = d"
    and c: "created t ks ks' sid (json_object (record_fields r)) d u e"
  shows "refresh_keys_ok t ks'"
  unfolding refresh_keys_ok_def
proof (intro allI impI)
  note h' = created_holds [OF c ok]
  fix x v assume v: "live t ks' (authRefreshKey x) = Some v"
  show "\<exists>s r e. v = (RStr s, Some e) \<and> holds t ks' s r e \<and> ar_RefreshDigest r = x"
  proof (cases "x = d")
    case True
    then show ?thesis using v created_live(2) [OF c] h' r by (metis option.inject)
  next
    case False
    then obtain s r0 e0 where "v = (RStr s, Some e0)" and h0: "holds t ks s r0 e0" and "ar_RefreshDigest r0 = x"
      using inv_refresh [OF inv] v created_live(2) [OF c] by metis
    moreover have "s \<noteq> sid" using f h0 unfolding fresh_def holds_def by auto
    ultimately show ?thesis using h' by metis
  qed
qed

lemma created_index_keys:
  assumes inv: "session_inv t ks" and f: "fresh t ks sid d" and ok: "record_ok r"
    and r: "owner r = u"
    and c: "created t ks ks' sid (json_object (record_fields r)) d u e"
  shows "index_keys_ok t ks'"
  unfolding index_keys_ok_def
proof (intro allI impI)
  note h' = created_holds [OF c ok]
  have keep: "entry_ok t ks' w s e0" if "(s, e0) \<in> set (zset_of (live t ks (authUserSessionsKey w)))" for w s e0
  proof -
    have "s \<noteq> sid" using f that unfolding fresh_def by blast
    then show ?thesis using inv_index_entry [OF inv that] h' unfolding entry_ok_def by metis
  qed
  fix w v assume v: "live t ks' (authUserSessionsKey w) = Some v"
  show "\<exists>zs x. v = (RZset zs, Some x) \<and> (\<forall>s e. (s, e) \<in> set zs \<longrightarrow> entry_ok t ks' w s e)"
  proof (cases "w = u")
    case True
    have "entry_ok t ks' u sid e" using h' r unfolding entry_ok_def by simp
    then show ?thesis using created_index [OF c] v True keep by fastforce
  next
    case False
    then have l: "live t ks (authUserSessionsKey w) = Some v" using v created_live(3) [OF c] by simp
    then show ?thesis using inv_index [OF inv l] keep by (metis zset_of_simps(2))
  qed
qed

lemma inv_created:
  assumes "session_inv t ks" "fresh t ks sid d" "record_ok r" "sid \<noteq> []" "ar_RefreshDigest r = d" "owner r = u"
    "created t ks ks' sid (json_object (record_fields r)) d u e"
  shows "session_inv t ks'"
  unfolding session_inv_def
  using created_session_keys [OF assms] created_refresh_keys [OF assms(1-3,5,7)] created_index_keys [OF assms(1-3,6,7)]
  by simp

end
