(* ===== verification/SessionOps.thy ===== *)
theory SessionOps
  imports SessionCreate
begin

text \<open>
  The store operations over a connection whose round trips may fail. \<open>settles P x c c'\<close> is
  the contract of one writing operation: the write \<open>P\<close> happened, or nothing changed and
  the caller got an error (an error may also be reported for a write that did happen, when
  the reply was lost). The lemmas are proved for the keyspace server and carried over to
  every server that satisfies the Redis contract.
\<close>

section \<open>Round trips\<close>

definition settles :: "('r \<Rightarrow> bool) \<Rightarrow> 'e + 'a \<Rightarrow> 'r conn \<Rightarrow> 'r conn \<Rightarrow> bool" where
  "settles P x c c' \<longleftrightarrow>
     clock c' = clock c \<and> (P (server c') \<or> (server c' = server c \<and> (\<exists>e. x = Inl e)))"

lemma map_sum_Inr_iff [simp]: "map_sum f id x = Inr a \<longleftrightarrow> x = Inr a"
  by (cases x) auto

lemma call_settles:
  assumes "call m c = (x, c')" "m (clock c) (server c) = (Inr a, s')" "P s'"
  shows "settles P x c c'"
  using assms by (auto simp: call_def settles_def split: list.splits fault.splits)

lemma call_reply:
  assumes "call m c = (Inr a, c')"
  shows "m (clock c) (server c) = (Inr a, server c')" "clock c' = clock c"
  using assms by (auto simp: call_def split: prod.splits list.splits fault.splits)

lemma call_clean:
  assumes "faults c = []"
  shows "call m c = (map_sum ReplyError id (fst (m (clock c) (server c))), c\<lparr>server := snd (m (clock c) (server c))\<rparr>)"
  using assms by (simp add: call_def split_beta Let_def)

text \<open>Commands that only read.\<close>

lemma call_reads:
  assumes "call m c = (x, c')" "snd (m (clock c) (server c)) = server c"
  shows "server c' = server c" "clock c' = clock c"
  using assms by (auto simp: call_def split_beta Let_def split: list.splits fault.splits)

lemma settles_mono: "settles P x c c' \<Longrightarrow> (\<And>s. P s \<Longrightarrow> Q s) \<Longrightarrow> settles Q x c c'"
  by (auto simp: settles_def)

lemma settles_error: "settles P (Inl e :: 'e + 'a) c c' \<Longrightarrow> settles P (Inl e' :: 'f + 'b) c c'"
  by (auto simp: settles_def)

lemma ks_get_reads [simp]: "snd (ks_get t k ks) = ks"
  by (auto simp: ks_get_def split: option.splits rvalue.splits)

section \<open>The table under each write\<close>

lemma sessions_removed:
  "removed S t ks ks' \<Longrightarrow> sessions t ks' sid = (if sid \<in> S then None else sessions t ks sid)"
  by (auto simp: sessions_def removed_def)

lemma sessions_created:
  assumes "created t ks ks' sid (json_object (record_fields r)) d u e" "record_ok r"
  shows "sessions t ks' = (sessions t ks)(sid \<mapsto> (r, e))"
  using created_live(1) [OF assms(1)] by (auto simp: sessions_def decode_record [OF assms(2)] fun_eq_iff)

lemma sessions_rotate_effect:
  assumes "t \<le> e" "record_ok r'"
  shows "sessions t (rotate_effect sid d d' (json_object (record_fields r')) e ks) = (sessions t ks)(sid \<mapsto> (r', e))"
proof
  fix s show "sessions t (rotate_effect sid d d' (json_object (record_fields r')) e ks) s =
      ((sessions t ks)(sid \<mapsto> (r', e))) s"
  proof (cases "s = sid")
    case True
    then show ?thesis
      using holds_sessions [of t _ sid r' e] holds_rotate_effect [OF assms] by (metis fun_upd_same)
  next
    case False
    then show ?thesis using live_rotate_effect(3) [OF assms(1)] by (simp add: sessions_def)
  qed
qed

text \<open>The ids an index lists for a user, against the table: every session of the user with
  time left is listed, and every live session listed is the user's.\<close>

definition indexed :: "int \<Rightarrow> keyspace \<Rightarrow> string \<Rightarrow> string set" where
  "indexed t ks u = fst ` set (zset_of (live t ks (authUserSessionsKey u)))"

lemma indexed_live:
  assumes "session_inv t ks" "sessions t ks sid = Some (r, e)" "owner r = u" "t < e"
  shows "sid \<in> indexed t ks u"
  using inv_indexed_ex [OF assms(1)] assms inv_sessions_iff [OF assms(1)] unfolding indexed_def by force

lemma indexed_owner:
  assumes "session_inv t ks" "sid \<in> indexed t ks u" "sessions t ks sid = Some (r, e)"
  shows "owner r = u"
  using assms inv_index_entry [OF assms(1), of sid _ u] inv_sessions_iff [OF assms(1)]
  unfolding indexed_def entry_ok_def by force

section \<open>Operations on the keyspace\<close>

lemma SessionStore_Create_settles:
  assumes inv: "session_inv (clock c) (server c)"
    and now: "unix_milli now = clock c" and n: "0 < n"
    and run: "SessionStore_Create (ks_redis cj) c now sid s d (n * second) = (x, c')"
  shows "settles (\<lambda>ks'. sid \<noteq> [] \<and> validateAuthSessionRecord \<lparr>ar_AuthSession = s, ar_RefreshDigest = d\<rparr> = Inr () \<and>
      created (clock c) (server c) ks' sid
        (json_object (record_fields \<lparr>ar_AuthSession = s, ar_RefreshDigest = d\<rparr>)) d (s_UserID s)
        (clock c + n * 1000)) x c c'"
proof (cases "sid = [] \<or> validateAuthSessionRecord \<lparr>ar_AuthSession = s, ar_RefreshDigest = d\<rparr> \<noteq> Inr ()")
  case True
  then show ?thesis
    using run n by (auto simp: SessionStore_Create_def validate_iff settles_def split: if_splits)
next
  case False
  let ?r = "\<lparr>ar_AuthSession = s, ar_RefreshDigest = d\<rparr>"
  have ex: "x \<noteq> None" if "live (clock c) (server c) (authUserSessionsKey (s_UserID s)) = Some (v, x)" for v x
    using inv_index [OF inv that] by blast
  obtain ks' where p: "pipelined (create_commands (ks_redis cj) now sid (json_object (record_fields ?r)) d (s_UserID s)
        (n * second) (clock c)) (server c) = (Inr [(), (), (), (), (), ()], ks')"
    and cr: "created (clock c) (server c) ks' sid (json_object (record_fields ?r)) d (s_UserID s) (clock c + n * 1000)"
    using create_run [of "clock c" "server c" "s_UserID s" now n cj sid "json_object (record_fields ?r)" d]
      inv_index_zset [OF inv] ex now n by blast
  have v: "sid \<noteq> []" "validateAuthSessionRecord ?r = Inr ()" using False by simp_all
  have enc: "encodeAuthSessionRecord ?r = Inr (json_object (record_fields ?r))" using encode_record v(2) .
  obtain y where y: "call (\<lambda>t. pipelined (create_commands (ks_redis cj) now sid (json_object (record_fields ?r)) d
        (s_UserID s) (n * second) t)) c = (y, c')"
    and xy: "\<And>e. y = Inl e \<Longrightarrow> \<exists>e. x = Inl e"
    using run v n
    by (auto simp: SessionStore_Create_def enc validate_iff split: prod.splits sum.splits)
  have "settles (\<lambda>ks'. created (clock c) (server c) ks' sid (json_object (record_fields ?r)) d (s_UserID s)
      (clock c + n * 1000)) y c c'"
    by (rule call_settles [OF y p]) (rule cr)
  then show ?thesis using v xy unfolding settles_def by auto
qed

lemma Create_clean:
  assumes inv: "session_inv (clock c) (server c)" and now: "unix_milli now = clock c" and n: "0 < n"
    and v: "sid \<noteq> []" "validateAuthSessionRecord \<lparr>ar_AuthSession = s, ar_RefreshDigest = d\<rparr> = Inr ()"
    and f: "faults c = []"
  shows "\<exists>ks'. SessionStore_Create (ks_redis cj) c now sid s d (n * second) = (Inr (), c\<lparr>server := ks'\<rparr>) \<and>
    created (clock c) (server c) ks' sid
        (json_object (record_fields \<lparr>ar_AuthSession = s, ar_RefreshDigest = d\<rparr>)) d (s_UserID s)
        (clock c + n * 1000)"
proof -
  let ?r = "\<lparr>ar_AuthSession = s, ar_RefreshDigest = d\<rparr>"
  have ex: "x \<noteq> None" if "live (clock c) (server c) (authUserSessionsKey (s_UserID s)) = Some (v, x)" for v x
    using inv_index [OF inv that] by blast
  obtain ks' where p: "pipelined (create_commands (ks_redis cj) now sid (json_object (record_fields ?r)) d (s_UserID s)
        (n * second) (clock c)) (server c) = (Inr [(), (), (), (), (), ()], ks')"
    and cr: "created (clock c) (server c) ks' sid (json_object (record_fields ?r)) d (s_UserID s) (clock c + n * 1000)"
    using create_run [of "clock c" "server c" "s_UserID s" now n cj sid "json_object (record_fields ?r)" d]
      inv_index_zset [OF inv] ex now n by blast
  have enc: "encodeAuthSessionRecord ?r = Inr (json_object (record_fields ?r))" using encode_record v(2) .
  have "SessionStore_Create (ks_redis cj) c now sid s d (n * second) = (Inr (), c\<lparr>server := ks'\<rparr>)"
    using v n p by (simp add: SessionStore_Create_def enc validate_iff call_clean [OF f])
  with cr show ?thesis by blast
qed

context cjson_decoder
begin

lemma Delete_settles:
  assumes inv: "session_inv (clock c) (server c)"
    and run: "SessionStore_Delete (ks_redis cj) c sid = (x, c')"
  shows "settles (removed {sid} (clock c) (server c)) x c c'"
proof -
  obtain n ks' where s: "deleteSessionScript (ks_redis cj) (clock c) (authSessionKey sid) sid authRefreshKeyPrefix
      authUserSessionsKeyPrefix (server c) = (Inr n, ks')" and rm: "removed {sid} (clock c) (server c) ks'"
    using delete_script [OF inv] by metis
  show ?thesis
  proof (cases "sid = []")
    case True
    have "live (clock c) (server c) (authSessionKey sid) = None"
      using inv_session [OF inv, of sid] True by (metis not_None_eq)
    then have "ks' = server c" using s by (simp add: deleteSessionScript_def cmd_defs ks_get_def)
    with rm run True show ?thesis by (auto simp: SessionStore_Delete_def settles_def)
  next
    case False
    obtain y where y: "call (\<lambda>t. deleteSessionScript (ks_redis cj) t (authSessionKey sid) sid authRefreshKeyPrefix
        authUserSessionsKeyPrefix) c = (y, c')" and xy: "\<And>e. y = Inl e \<Longrightarrow> \<exists>e. x = Inl e"
      using run False by (auto simp: SessionStore_Delete_def split: prod.splits sum.splits)
    have "settles (removed {sid} (clock c) (server c)) y c c'" by (rule call_settles [OF y s]) (rule rm)
    then show ?thesis using xy unfolding settles_def by auto
  qed
qed

lemma DeleteUserSessions_settles:
  assumes inv: "session_inv (clock c) (server c)" and u: "u \<noteq> []"
    and run: "SessionStore_DeleteUserSessions (ks_redis cj) c u = (x, c')"
  shows "settles (removed (indexed (clock c) (server c) u) (clock c) (server c)) x c c'"
proof -
  obtain n ks' where s: "deleteUserSessionsScript (ks_redis cj) (clock c) (authUserSessionsKey u) authSessionKeyPrefix
      authRefreshKeyPrefix (server c) = (Inr n, ks')"
    and rm: "removed (indexed (clock c) (server c) u) (clock c) (server c) ks'"
    using delete_user_script [OF inv] unfolding indexed_def by metis
  obtain y where y: "call (\<lambda>t. deleteUserSessionsScript (ks_redis cj) t (authUserSessionsKey u) authSessionKeyPrefix
      authRefreshKeyPrefix) c = (y, c')" and xy: "\<And>e. y = Inl e \<Longrightarrow> \<exists>e. x = Inl e"
    using run u by (auto simp: SessionStore_DeleteUserSessions_def split: prod.splits sum.splits)
  have "settles (removed (indexed (clock c) (server c) u) (clock c) (server c)) y c c'"
    by (rule call_settles [OF y s]) (rule rm)
  then show ?thesis using xy unfolding settles_def by auto
qed

end

section \<open>Rotation\<close>

lemma rotate_script_cases:
  assumes inv: "session_inv t ks" and ok: "record_ok r"
  obtains (swap) e where "holds t ks sid r e" "t < e"
      "rotateSessionScript (ks_redis cj) t (authSessionKey sid) (authRefreshKey (ar_RefreshDigest r)) (authRefreshKey d')
         (json_object (record_fields r)) j sid ks = (Inr (e - t), rotate_effect sid (ar_RefreshDigest r) d' j e ks)"
  | (idle) "\<And>e. holds t ks sid r e \<Longrightarrow> e \<le> t"
      "rotateSessionScript (ks_redis cj) t (authSessionKey sid) (authRefreshKey (ar_RefreshDigest r)) (authRefreshKey d')
         (json_object (record_fields r)) j sid ks = (Inr 0, ks)"
proof (cases "\<exists>e. holds t ks sid r e")
  case True
  then obtain e where h: "holds t ks sid r e" by blast
  note l = holds_live [OF h] inv_refresh_of(1) [OF inv h]
  show thesis
  proof (cases "t < e")
    case True
    then show ?thesis using swap [OF h] rotate_script_run [OF l(2) l(1)] by blast
  next
    case False
    have "e' \<le> t" if "holds t ks sid r e'" for e' using holds_det(2) [OF h that] False by simp
    moreover have "rotateSessionScript (ks_redis cj) t (authSessionKey sid) (authRefreshKey (ar_RefreshDigest r)) (authRefreshKey d')
         (json_object (record_fields r)) j sid ks = (Inr 0, ks)"
      using l False by (simp add: rotateSessionScript_def cmd_defs ks_defs)
    ultimately show ?thesis by (rule idle)
  qed
next
  case False
  have "rotateSessionScript (ks_redis cj) t (authSessionKey sid) (authRefreshKey (ar_RefreshDigest r)) (authRefreshKey d')
         (json_object (record_fields r)) j sid ks = (Inr 0, ks)"
  proof (cases "live t ks (authRefreshKey (ar_RefreshDigest r))")
    case None
    then show ?thesis by (rule rotate_script_idle)
  next
    case (Some v)
    then obtain s r0 e0 where v: "v = (RStr s, Some e0)" and h0: "holds t ks s r0 e0"
      using inv_refresh [OF inv] by metis
    have "r0 \<noteq> r" if "s = sid" using False h0 that by blast
    then have "json_object (record_fields r0) \<noteq> json_object (record_fields r)" if "s = sid"
      using that record_text_inject [of r0 r] h0 ok unfolding holds_def record_ok_def by blast
    then show ?thesis using Some v holds_live [OF h0] by (auto simp: rotateSessionScript_def cmd_defs ks_defs)
  qed
  then show thesis using idle False by blast
qed

text \<open>The compare-and-swap of \<open>Rotate\<close>, run on a record \<open>r\<close> that was read earlier: it takes
  effect exactly when the session still has that record and time left.\<close>

definition swapped :: "int \<Rightarrow> keyspace \<Rightarrow> string \<Rightarrow> authSessionRecord \<Rightarrow> string \<Rightarrow> string \<Rightarrow> int \<Rightarrow> keyspace" where
  "swapped t ks sid r d' jti e =
     rotate_effect sid (ar_RefreshDigest r) d' (json_object (record_fields (rotated r d' jti))) e ks"

lemma rotate_swap_settles:
  assumes inv: "session_inv (clock c) (server c)" and ok: "record_ok r" "record_ok (rotated r d' jti)"
    and run: "rotate_swap (ks_redis cj) c (ar_RefreshDigest r) d' jti r (json_object (record_fields r)) sid = (x, c')"
  shows "settles (\<lambda>ks'. \<exists>e. holds (clock c) (server c) sid r e \<and> clock c < e
      \<and> ks' = swapped (clock c) (server c) sid r d' jti e
      \<and> (\<forall>v. x = Inr v \<longrightarrow> v = (sid, ar_AuthSession (rotated r d' jti), (e - clock c) * millisecond))) x c c'"
proof -
  let ?m = "\<lambda>t. rotateSessionScript (ks_redis cj) t (authSessionKey sid) (authRefreshKey (ar_RefreshDigest r))
      (authRefreshKey d') (json_object (record_fields r)) (json_object (record_fields (rotated r d' jti))) sid"
  have enc: "encodeAuthSessionRecord (rotated r d' jti) = Inr (json_object (record_fields (rotated r d' jti)))"
    using ok(2) encode_record unfolding record_ok_def by blast
  obtain y where y: "call ?m c = (y, c')"
    and xy: "x = (case y of Inl e \<Rightarrow> Inl (ErrOther ''rotate authentication session'')
      | Inr n \<Rightarrow> if n \<le> 0 then Inl ErrNotFound else Inr (sid, ar_AuthSession (rotated r d' jti), n * millisecond))"
    using run enc unfolding rotate_swap_def rotated_def [symmetric] Let_def
    by (auto split: prod.splits sum.splits if_splits)
  from inv ok(1) show ?thesis
  proof (cases rule: rotate_script_cases [of "clock c" "server c" r sid cj d' "json_object (record_fields (rotated r d' jti))"])
    case (swap e)
    have "settles (\<lambda>ks'. ks' = swapped (clock c) (server c) sid r d' jti e) y c c'"
      by (rule call_settles [OF y swap(3)]) (simp add: swapped_def)
    moreover have "n = e - clock c" if "y = Inr n" for n using call_reply(1) [of ?m c n c'] y that swap(3) by simp
    ultimately show ?thesis
      using swap(1,2) xy unfolding settles_def by (auto split: sum.splits if_splits)
  next
    case idle
    have "settles (\<lambda>ks'. ks' = server c) y c c'" by (rule call_settles [OF y idle(2)]) simp
    moreover have "n = 0" if "y = Inr n" for n using call_reply(1) [of ?m c n c'] y that idle(2) by simp
    ultimately show ?thesis using xy unfolding settles_def by (auto split: sum.splits if_splits)
  qed
qed

section \<open>Reads and the operations that start with one\<close>

lemma inv_get_session:
  assumes "session_inv t ks"
  shows "ks_get t (authSessionKey sid) ks =
    (Inr (map_option (\<lambda>(r, e). json_object (record_fields r)) (sessions t ks sid)), ks)"
proof (cases "live t ks (authSessionKey sid)")
  case None
  then show ?thesis by (simp add: ks_get_def sessions_def)
next
  case (Some v)
  then obtain r e where h: "holds t ks sid r e" using inv_session [OF assms] by metis
  show ?thesis using holds_live [OF h] holds_sessions [OF h] by (simp add: ks_get_def)
qed

text \<open>The session a refresh digest belongs to.\<close>

definition digest_session :: "int \<Rightarrow> keyspace \<Rightarrow> string \<Rightarrow> string option" where
  "digest_session t ks d =
     (case live t ks (authRefreshKey d) of Some (RStr sid, _) \<Rightarrow> Some sid | _ \<Rightarrow> None)"

lemma digest_session_iff:
  assumes "session_inv t ks"
  shows "digest_session t ks d = Some sid \<longleftrightarrow> (\<exists>r e. sessions t ks sid = Some (r, e) \<and> ar_RefreshDigest r = d)"
proof
  assume "digest_session t ks d = Some sid"
  then obtain x where "live t ks (authRefreshKey d) = Some (RStr sid, x)"
    by (auto simp: digest_session_def split: option.splits rvalue.splits prod.splits)
  then show "\<exists>r e. sessions t ks sid = Some (r, e) \<and> ar_RefreshDigest r = d"
    using inv_refresh [OF assms] inv_sessions_iff [OF assms] by (metis Pair_inject rvalue.inject(1))
next
  assume "\<exists>r e. sessions t ks sid = Some (r, e) \<and> ar_RefreshDigest r = d"
  then show "digest_session t ks d = Some sid"
    using inv_refresh_of(1) [OF assms] inv_sessions_iff [OF assms] by (auto simp: digest_session_def)
qed

lemma inv_get_refresh:
  assumes "session_inv t ks"
  shows "ks_get t (authRefreshKey d) ks = (Inr (digest_session t ks d), ks)"
  by (cases "live t ks (authRefreshKey d)")
    (auto simp: ks_get_def digest_session_def elim: inv_refresh [OF assms])

text \<open>A read returns what the server has, or a network error.\<close>

lemma call_read_result:
  assumes "call m c = (x, c')" "m (clock c) (server c) = (Inr a, server c)"
  shows "server c' = server c \<and> clock c' = clock c \<and> (faults c = [] \<longrightarrow> faults c' = [])
    \<and> (x = Inr a \<or> (x = Inl NetError \<and> faults c \<noteq> []))"
  using assms by (auto simp: call_def split: list.splits fault.splits)

lemma getRecord_result:
  assumes inv: "session_inv (clock c) (server c)" and run: "getRecord (ks_redis cj) c sid = (x, c')"
  shows "server c' = server c \<and> clock c' = clock c \<and> (faults c = [] \<longrightarrow> faults c' = [])
    \<and> (x = (case sessions (clock c) (server c) sid of None \<Rightarrow> Inl ErrNotFound
            | Some (r, e) \<Rightarrow> Inr (r, json_object (record_fields r)))
       \<or> (x = Inl (ErrOther ''load authentication session'') \<and> faults c \<noteq> []))"
proof (cases "sid = []")
  case True
  have "sessions (clock c) (server c) [] = None"
    using inv_sessions_iff [OF inv, of "[]"] inv_refresh_of(2) [OF inv, of "[]"] by (metis surj_pair not_None_eq)
  with True run show ?thesis by (auto simp: getRecord_def)
next
  case False
  obtain y where y: "call (\<lambda>t. ks_get t (authSessionKey sid)) c = (y, c')"
    and x: "x = (case y of Inl e \<Rightarrow> Inl (ErrOther ''load authentication session'') | Inr None \<Rightarrow> Inl ErrNotFound
      | Inr (Some j) \<Rightarrow> rbind (decodeAuthSessionRecord j) (\<lambda>r. Inr (r, j)))"
    using run False by (auto simp: getRecord_def split: prod.splits sum.splits option.splits)
  have ok: "record_ok r" if "sessions (clock c) (server c) sid = Some (r, e)" for r e
    using that inv_sessions_iff [OF inv] unfolding holds_def by blast
  from call_read_result [OF y inv_get_session [OF inv]] show ?thesis
    unfolding x using ok decode_record by (auto split: option.splits)
qed

lemma Get_result:
  assumes inv: "session_inv (clock c) (server c)" and run: "SessionStore_Get (ks_redis cj) c sid = (x, c')"
  shows "server c' = server c \<and> clock c' = clock c \<and> (faults c = [] \<longrightarrow> faults c' = [])
    \<and> (x = (case sessions (clock c) (server c) sid of None \<Rightarrow> Inl ErrNotFound | Some (r, e) \<Rightarrow> Inr (ar_AuthSession r))
       \<or> (x = Inl (ErrOther ''load authentication session'') \<and> faults c \<noteq> []))"
proof -
  obtain y where y: "getRecord (ks_redis cj) c sid = (y, c')" and x: "x = rbind y (\<lambda>(r, _). Inr (ar_AuthSession r))"
    using run by (auto simp: SessionStore_Get_def split: prod.splits)
  from getRecord_result [OF inv y] show ?thesis unfolding x by (auto split: option.splits)
qed

lemma rotated_ok:
  "record_ok r \<Longrightarrow> d \<noteq> [] \<Longrightarrow> jti \<noteq> [] \<Longrightarrow> valid_utf8 d \<Longrightarrow> valid_utf8 jti \<Longrightarrow> record_ok (rotated r d jti)"
  by (simp add: record_ok_def validate_iff utf8_record_def Let_def)

text \<open>The whole of \<open>Rotate\<close>: it succeeds only by swapping the session the digest belongs to.\<close>

definition rotation ::
    "int \<Rightarrow> keyspace \<Rightarrow> string \<Rightarrow> string \<Rightarrow> string \<Rightarrow> data_error + string \<times> auth_session \<times> duration \<Rightarrow> keyspace \<Rightarrow> bool" where
  "rotation t ks d d' jti x ks' \<longleftrightarrow>
     (\<exists>sid r e. sessions t ks sid = Some (r, e) \<and> ar_RefreshDigest r = d \<and> t < e
        \<and> ks' = swapped t ks sid r d' jti e
        \<and> (\<forall>v. x = Inr v \<longrightarrow> v = (sid, ar_AuthSession (rotated r d' jti), (e - t) * millisecond)))"

lemma Rotate_cases:
  assumes inv: "session_inv (clock c) (server c)"
    and run: "SessionStore_Rotate (ks_redis cj) c d d' jti = (x, c')"
  obtains (err) e where "x = Inl e" "server c' = server c" "clock c' = clock c"
  | (swap) sid r e c2 where "sessions (clock c) (server c) sid = Some (r, e)" "ar_RefreshDigest r = d"
      "d' \<noteq> []" "jti \<noteq> []" "server c2 = server c" "clock c2 = clock c"
      "rotate_swap (ks_redis cj) c2 d d' jti r (json_object (record_fields r)) sid = (x, c')"
proof (cases "d = [] \<or> d' = [] \<or> jti = []")
  case True
  then show thesis using run err by (auto simp: SessionStore_Rotate_def)
next
  case False
  obtain y c1 where y: "call (\<lambda>t. ks_get t (authRefreshKey d)) c = (y, c1)" by fastforce
  note r1 = call_read_result [OF y inv_get_refresh [OF inv]]
  then consider e where "y = Inl e" | "y = Inr None" | sid where "y = Inr (Some sid)"
    by (cases "digest_session (clock c) (server c) d") auto
  then show thesis
  proof cases
    case (3 sid)
    obtain z c2 where z: "getRecord (ks_redis cj) c1 sid = (z, c2)" by fastforce
    have inv1: "session_inv (clock c1) (server c1)" using inv r1 by simp
    note r2 = getRecord_result [OF inv1 z]
    show ?thesis
      using run False y 3 z r1 r2 err swap
      by (auto simp: SessionStore_Rotate_def split: option.splits if_splits)
  qed (use run False y r1 err in \<open>auto simp: SessionStore_Rotate_def\<close>)
qed

lemma Rotate_settles:
  assumes inv: "session_inv (clock c) (server c)" and u: "valid_utf8 d'" "valid_utf8 jti"
    and run: "SessionStore_Rotate (ks_redis cj) c d d' jti = (x, c')"
  shows "settles (rotation (clock c) (server c) d d' jti x) x c c'"
  using inv run
proof (cases rule: Rotate_cases)
  case (err e)
  then show ?thesis by (simp add: settles_def)
next
  case (swap sid r e c2)
  let ?t = "clock c" and ?ks = "server c"
  have ok: "record_ok r" using swap(1) inv_sessions_iff [OF inv] unfolding holds_def by blast
  have inv2: "session_inv (clock c2) (server c2)" using inv swap by simp
  have "settles (\<lambda>ks'. \<exists>e. holds ?t ?ks sid r e \<and> ?t < e \<and> ks' = swapped ?t ?ks sid r d' jti e
      \<and> (\<forall>v. x = Inr v \<longrightarrow> v = (sid, ar_AuthSession (rotated r d' jti), (e - ?t) * millisecond))) x c2 c'"
    using rotate_swap_settles [OF inv2 ok rotated_ok [OF ok swap(3,4) u], of cj sid x c'] swap by simp
  then have "settles (rotation ?t ?ks d d' jti x) x c2 c'"
    by (rule settles_mono) (use swap(2) inv_sessions_iff [OF inv] in \<open>unfold rotation_def, blast\<close>)
  then show ?thesis using swap(5,6) unfolding settles_def by simp
qed

text \<open>On a healthy connection the outcome is determined by the table.\<close>

lemma Rotate_clean:
  assumes inv: "session_inv (clock c) (server c)" and ok: "d' \<noteq> []" "jti \<noteq> []" "valid_utf8 d'" "valid_utf8 jti"
    and f: "faults c = []" and s: "sessions (clock c) (server c) sid = Some (r, e)" "ar_RefreshDigest r = d" "clock c < e"
  shows "SessionStore_Rotate (ks_redis cj) c d d' jti =
    (Inr (sid, ar_AuthSession (rotated r d' jti), (e - clock c) * millisecond),
     c\<lparr>server := swapped (clock c) (server c) sid r d' jti e\<rparr>)"
proof -
  have h: "holds (clock c) (server c) sid r e" using s(1) inv_sessions_iff [OF inv] by blast
  then have rok: "record_ok r" unfolding holds_def by blast
  then have d: "d \<noteq> []" using s(2) by (auto simp: record_ok_def validate_iff)
  have dig: "digest_session (clock c) (server c) d = Some sid" using digest_session_iff [OF inv] s by blast
  have enc: "encodeAuthSessionRecord (rotated r d' jti) = Inr (json_object (record_fields (rotated r d' jti)))"
    using rotated_ok [OF rok ok] encode_record unfolding record_ok_def by blast
  show ?thesis
    using d ok s(2,3) inv_refresh_of(2) [OF inv h]
      rotate_script_run [OF inv_refresh_of(1) [OF inv h] holds_live [OF h] s(3), of cj d']
    by (simp add: SessionStore_Rotate_def getRecord_def rotate_swap_def call_clean [OF f] inv_get_refresh [OF inv] dig
        inv_get_session [OF inv] s(1) decode_record [OF rok] rotated_def [symmetric] enc swapped_def)
qed

lemma Rotate_unknown:
  assumes inv: "session_inv (clock c) (server c)" and ok: "d \<noteq> []" "d' \<noteq> []" "jti \<noteq> []"
    and f: "faults c = []" and s: "\<And>sid r e. sessions (clock c) (server c) sid = Some (r, e) \<Longrightarrow> ar_RefreshDigest r \<noteq> d"
  shows "SessionStore_Rotate (ks_redis cj) c d d' jti = (Inl ErrNotFound, c)"
proof -
  have "digest_session (clock c) (server c) d = None"
    using digest_session_iff [OF inv] s by (metis not_Some_eq)
  then show ?thesis
    using ok by (simp add: SessionStore_Rotate_def call_clean [OF f] inv_get_refresh [OF inv])
qed

section \<open>Deleting by refresh digest\<close>

lemma removed_nothing:
  assumes "session_inv t ks" shows "removed {} t ks ks"
  using inv_index_zset [OF assms] unfolding removed_def by simp

definition digest_sessions :: "int \<Rightarrow> keyspace \<Rightarrow> string \<Rightarrow> string set" where
  "digest_sessions t ks d = {sid. \<exists>r e. sessions t ks sid = Some (r, e) \<and> ar_RefreshDigest r = d}"

lemma digest_sessions_eq:
  assumes "session_inv t ks"
  shows "digest_sessions t ks d = (case digest_session t ks d of None \<Rightarrow> {} | Some sid \<Rightarrow> {sid})"
proof -
  have "digest_sessions t ks d = {sid. digest_session t ks d = Some sid}"
    unfolding digest_sessions_def digest_session_iff [OF assms] ..
  then show ?thesis by (simp split: option.splits)
qed

context cjson_decoder
begin

lemma DeleteByRefreshDigest_settles:
  assumes inv: "session_inv (clock c) (server c)"
    and run: "SessionStore_DeleteByRefreshDigest (ks_redis cj) c d = (x, c')"
  shows "settles (removed (digest_sessions (clock c) (server c) d) (clock c) (server c)) x c c'"
proof (cases "d = []")
  case True
  have "ar_RefreshDigest r \<noteq> []" if "sessions (clock c) (server c) sid = Some (r, e)" for sid r e
    using that inv_sessions_iff [OF inv] by (auto simp: holds_def record_ok_def validate_iff)
  then have "digest_sessions (clock c) (server c) d = {}" using True by (auto simp: digest_sessions_def)
  then show ?thesis
    using run True removed_nothing [OF inv] by (simp add: SessionStore_DeleteByRefreshDigest_def settles_def)
next
  case False
  obtain y c1 where y: "call (\<lambda>t. ks_get t (authRefreshKey d)) c = (y, c1)" by fastforce
  note r1 = call_read_result [OF y inv_get_refresh [OF inv]]
  then consider e where "y = Inl e" | "y = Inr None" "digest_session (clock c) (server c) d = None"
    | sid where "y = Inr (Some sid)" "digest_session (clock c) (server c) d = Some sid"
    by (cases "digest_session (clock c) (server c) d") auto
  then show ?thesis
  proof cases
    case (3 sid)
    then have "SessionStore_Delete (ks_redis cj) c1 sid = (x, c')"
      using run False y by (simp add: SessionStore_DeleteByRefreshDigest_def)
    then have "settles (removed {sid} (clock c1) (server c1)) x c1 c'"
      using Delete_settles [of c1 sid x c'] inv r1 by simp
    then show ?thesis using 3(2) r1 digest_sessions_eq [OF inv, of d] unfolding settles_def by simp
  qed (use run False y r1 removed_nothing [OF inv] digest_sessions_eq [OF inv, of d] in
      \<open>auto simp: SessionStore_DeleteByRefreshDigest_def settles_def\<close>)
qed

text \<open>On a healthy connection the deletions report success.\<close>

lemma Delete_succeeds:
  assumes "session_inv (clock c) (server c)" "faults c = []"
  shows "\<exists>c'. SessionStore_Delete (ks_redis cj) c sid = (Inr (), c')"
  using delete_script [OF assms(1), of sid] by (auto simp: SessionStore_Delete_def call_clean [OF assms(2)])

lemma DeleteUserSessions_succeeds:
  assumes "session_inv (clock c) (server c)" "faults c = []"
  shows "\<exists>c'. SessionStore_DeleteUserSessions (ks_redis cj) c u = (Inr (), c')"
  using delete_user_script [OF assms(1), of u]
  by (auto simp: SessionStore_DeleteUserSessions_def call_clean [OF assms(2)])

lemma DeleteByRefreshDigest_succeeds:
  assumes "session_inv (clock c) (server c)" "faults c = []"
  shows "\<exists>c'. SessionStore_DeleteByRefreshDigest (ks_redis cj) c d = (Inr (), c')"
  using Delete_succeeds [OF assms]
  by (auto simp: SessionStore_DeleteByRefreshDigest_def call_clean [OF assms(2)] inv_get_refresh [OF assms(1)]
      split: option.splits)

end

end
