(* ===== verification/OnlineState.thy ===== *)
theory OnlineState
  imports SessionOps
begin

text \<open>
  \<open>OnlineMap\<close> against the session table: on a healthy connection every requested user is
  in the result, a user with a session that has time left is online, and a user shown
  online has a live session.
\<close>

section \<open>The requested ids\<close>

lemma unique_loop_set: "set (unique_loop seen ids) = set ids - insert [] seen"
  by (induction seen ids rule: unique_loop.induct) auto

lemma unique_loop_distinct: "distinct (unique_loop seen ids)"
  by (induction seen ids rule: unique_loop.induct) (auto simp: unique_loop_set)

lemma uniqueUserIDs_set [simp]: "set (uniqueUserIDs ids) = set ids - {[]}"
  by (simp add: uniqueUserIDs_def unique_loop_set)

lemma uniqueUserIDs_distinct [simp]: "distinct (uniqueUserIDs ids)"
  by (simp add: uniqueUserIDs_def unique_loop_distinct)

section \<open>Replies of the two pipelines\<close>

lemma pipelined_reads:
  assumes "\<And>x. x \<in> set xs \<Longrightarrow> m x s = (Inr (f x), s)"
  shows "pipelined (map m xs) s = (Inr (map f xs), s)"
proof -
  have "run_all (map m xs) s = (map (Inr \<circ> f) xs, s)" using assms by (induction xs) simp_all
  then show ?thesis by (simp add: pipelined_def flip: map_map) (simp add: comp_def)
qed

definition first_listed :: "int \<Rightarrow> keyspace \<Rightarrow> string \<Rightarrow> string list" where
  "first_listed t ks u = take 1 (map fst (filter (\<lambda>p. t \<le> snd p) (zset_of (live t ks (authUserSessionsKey u)))))"

lemma first_listed_cases:
  assumes inv: "session_inv t ks"
  obtains (none) "first_listed t ks u = []" "\<And>sid r e. sessions t ks sid = Some (r, e) \<Longrightarrow> owner r = u \<Longrightarrow> e \<le> t"
  | (one) sid r e where "first_listed t ks u = [sid]" "sessions t ks sid = Some (r, e)" "owner r = u" "sid \<noteq> []"
proof (cases "filter (\<lambda>p. t \<le> snd p) (zset_of (live t ks (authUserSessionsKey u)))")
  case Nil
  have "e \<le> t" if live: "sessions t ks sid = Some (r, e)" and o: "owner r = u" for sid r e
  proof (rule ccontr)
    assume "\<not> e \<le> t"
    then have te: "t < e" by simp
    have h: "holds t ks sid r e" using live inv_sessions_iff [OF inv] by blast
    obtain zs x where "live t ks (authUserSessionsKey u) = Some (RZset zs, Some x)" "(sid, e) \<in> set zs"
      using inv_indexed_ex [OF inv h] te o by blast
    then show False using Nil te by (auto simp: filter_empty_conv)
  qed
  with Nil show thesis using none by (simp add: first_listed_def)
next
  case (Cons p ps)
  obtain sid e where p: "p = (sid, e)" by fastforce
  have "(sid, e) \<in> set (zset_of (live t ks (authUserSessionsKey u)))" "t \<le> e"
    using hd_filter_mem [OF Cons] p by auto
  then obtain r where h: "holds t ks sid r e" "owner r = u"
    using inv_index_entry [OF inv, of sid e u] unfolding entry_ok_def by blast
  show thesis
    by (rule one [of sid r e]) (use Cons p h inv_refresh_of(2) [OF inv h(1)] holds_sessions [OF h(1)] in \<open>simp_all add: first_listed_def\<close>)
qed

lemma first_sessions_run:
  assumes "\<And>u s. u \<in> set ids \<Longrightarrow> s \<in> set (L u) \<Longrightarrow> L u = [s] \<and> s \<noteq> [] \<and> own s = u"
  shows "first_sessions (zip ids (map L ids)) (S, M) =
    (S @ concat (map L ids), \<lambda>s. if s \<in> set (concat (map L ids)) then Some (own s) else M s)"
  using assms
proof (induction ids arbitrary: S M)
  case (Cons u ids)
  have IH: "first_sessions (zip ids (map L ids)) (S', M') =
    (S' @ concat (map L ids), \<lambda>s. if s \<in> set (concat (map L ids)) then Some (own s) else M' s)" for S' M'
    by (rule Cons.IH) (use Cons.prems in auto)
  show ?case
  proof (cases "L u")
    case Nil
    then show ?thesis using IH by simp
  next
    case (Cons s ss)
    then have "L u = [s]" "s \<noteq> []" "own s = u" using Cons.prems [of u s] by auto
    then show ?thesis using IH by (simp add: fun_eq_iff)
  qed
qed simp

lemma mark_online_run:
  assumes "\<And>s. s \<in> set S \<Longrightarrow> M s = Some (own s)"
  shows "mark_online M (zip S (map (\<lambda>_. 1) S)) online = (\<lambda>u. if u \<in> own ` set S then Some True else online u)"
  using assms by (induction S arbitrary: online) (auto simp: fun_eq_iff)

text \<open>The result on a healthy connection, when the Go clock and the server's agree.\<close>

lemma OnlineMap_clean:
  assumes inv: "session_inv (clock c) (server c)" and now: "unix_milli now = clock c" and f: "faults c = []"
  shows "SessionStore_OnlineMap (ks_redis cj) c now ids =
    (Inr (\<lambda>u. if u \<in> set ids \<and> u \<noteq> [] then Some (first_listed (clock c) (server c) u \<noteq> []) else None), c)"
proof -
  let ?t = "clock c" and ?ks = "server c"
  let ?L = "first_listed ?t ?ks" and ?us = "uniqueUserIDs ids"
  define own where "own s = owner (fst (the (sessions ?t ?ks s)))" for s
  have L: "?L u = [s] \<and> s \<noteq> [] \<and> own s = u \<and> sessions ?t ?ks s \<noteq> None" if "s \<in> set (?L u)" for u s
    using that by (cases rule: first_listed_cases [OF inv, of u]) (auto simp: own_def)
  define S where "S = concat (map ?L ?us)"
  define M where "M = (\<lambda>s. if s \<in> set S then Some (own s) else None)"
  have SL: "s \<in> set S \<longleftrightarrow> (\<exists>u. u \<in> set ids \<and> u \<noteq> [] \<and> s \<in> set (?L u))" for s
    by (auto simp: S_def)
  have z: "ks_zrangebyscore ?t (authUserSessionsKey u) ?t (Suc 0) ?ks = (Inr (?L u), ?ks)" for u
    using inv_index_zset [OF inv, of u]
    by (auto simp: ks_zrangebyscore_def ask_zset_def first_listed_def elim: is_zset_cases)
  have p1: "pipelined (map (\<lambda>u. ks_zrangebyscore ?t (authUserSessionsKey u) ?t (Suc 0)) ?us) ?ks = (Inr (map ?L ?us), ?ks)"
    by (rule pipelined_reads) (rule z)
  have fs: "first_sessions (zip ?us (map ?L ?us)) ([], Map.empty) = (S, M)"
    using first_sessions_run [of ?us ?L own "[]" Map.empty] L unfolding S_def M_def by simp
  have ex: "ks_exists ?t (authSessionKey s) ?ks = (Inr 1, ?ks)" if "s \<in> set S" for s
  proof -
    have "sessions ?t ?ks s \<noteq> None" using L SL that by blast
    then show ?thesis by (auto simp: ks_exists_def sessions_def split: option.splits)
  qed
  have p2: "pipelined (map (\<lambda>s. ks_exists ?t (authSessionKey s)) S) ?ks = (Inr (map (\<lambda>_. 1) S), ?ks)"
    by (rule pipelined_reads) (rule ex)
  have mk: "mark_online M (zip S (map (\<lambda>_. 1) S)) online = (\<lambda>u. if u \<in> own ` set S then Some True else online u)" for online
    by (rule mark_online_run) (simp add: M_def)
  have img: "u \<in> own ` set S \<longleftrightarrow> u \<in> set ids \<and> u \<noteq> [] \<and> ?L u \<noteq> []" for u
  proof
    assume "u \<in> own ` set S"
    then show "u \<in> set ids \<and> u \<noteq> [] \<and> ?L u \<noteq> []" using L SL by fastforce
  next
    assume u: "u \<in> set ids \<and> u \<noteq> [] \<and> ?L u \<noteq> []"
    then obtain s where "s \<in> set (?L u)" by (meson last_in_set)
    then show "u \<in> own ` set S" using L [of s u] SL [of s] u by blast
  qed
  have base: "map_of (map (\<lambda>u. (u, False)) ?us) u = (if u \<in> set ids \<and> u \<noteq> [] then Some False else None)" for u
    by (auto simp: map_of_map_restrict restrict_map_def)
  have final: "(\<lambda>u. if u \<in> own ` set S then Some True else map_of (map (\<lambda>u. (u, False)) ?us) u) =
      (\<lambda>u. if u \<in> set ids \<and> u \<noteq> [] then Some (?L u \<noteq> []) else None)"
    by (auto simp: img base fun_eq_iff)
  have run: "SessionStore_OnlineMap (ks_redis cj) c now ids =
      (Inr (\<lambda>u. if u \<in> own ` set S then Some True else map_of (map (\<lambda>u. (u, False)) ?us) u), c)"
    by (simp add: SessionStore_OnlineMap_def Let_def call_clean [OF f] now p1 fs p2 mk) (auto simp: S_def)
  show ?thesis unfolding run final ..
qed

end
