(* ===== verification/SessionMachine.thy ===== *)
theory SessionMachine
  imports OnlineState
begin

text \<open>
  The session store as a state machine over any Redis server that satisfies the contract.
  A step is one operation of one client, with whatever faults the connection has, or the
  passing of time. \<open>Rotate\<close> also occurs split in two: \<open>swap\<close> is its last round trip, run on
  a record read at any earlier time, so that every interleaving of concurrent rotations
  with other operations is a sequence of steps.
\<close>

section \<open>Operations over any server\<close>

abbreviation view_inv :: "('r \<Rightarrow> keyspace) \<Rightarrow> 'r conn \<Rightarrow> bool" where
  "view_inv ks c \<equiv> session_inv (clock c) (ks (server c))"

abbreviation table :: "('r \<Rightarrow> keyspace) \<Rightarrow> 'r conn \<Rightarrow> string \<rightharpoonup> authSessionRecord \<times> int" where
  "table ks c \<equiv> sessions (clock c) (ks (server c))"

text \<open>\<open>writes ks P x c c'\<close>: the contract \<open>settles\<close>, read through the view.\<close>

definition writes :: "('r \<Rightarrow> keyspace) \<Rightarrow> (keyspace \<Rightarrow> bool) \<Rightarrow> 'e + 'a \<Rightarrow> 'r conn \<Rightarrow> 'r conn \<Rightarrow> bool" where
  "writes ks P x c c' \<longleftrightarrow> settles P x (conn_view ks c) (conn_view ks c')"

lemma writes_cases:
  assumes "writes ks P x c c'"
  obtains (wrote) "clock c' = clock c" "P (ks (server c'))"
  | (failed) e where "clock c' = clock c" "ks (server c') = ks (server c)" "x = Inl e"
  using assms unfolding writes_def settles_def by auto

lemma writes_success: "writes ks P (Inr a) c c' \<Longrightarrow> clock c' = clock c \<and> P (ks (server c'))"
  by (auto simp: writes_def settles_def)

context redis_server
begin

lemma Create_writes:
  assumes "view_inv ks c" "unix_milli now = clock c" "0 < n"
    "SessionStore_Create R c now sid s d (n * second) = (x, c')"
  shows "writes ks (\<lambda>ks'. sid \<noteq> [] \<and> validateAuthSessionRecord \<lparr>ar_AuthSession = s, ar_RefreshDigest = d\<rparr> = Inr () \<and>
      created (clock c) (ks (server c)) ks' sid
        (json_object (record_fields \<lparr>ar_AuthSession = s, ar_RefreshDigest = d\<rparr>)) d (s_UserID s)
        (clock c + n * 1000)) x c c'"
  unfolding writes_def
  using SessionStore_Create_settles [of "conn_view ks c" now n "rd_cjson R" sid s d x "conn_view ks c'"] assms
  by (simp add: Create_sim)

lemma Rotate_writes:
  assumes "view_inv ks c" "valid_utf8 d'" "valid_utf8 jti" "SessionStore_Rotate R c d d' jti = (x, c')"
  shows "writes ks (rotation (clock c) (ks (server c)) d d' jti x) x c c'"
  unfolding writes_def
  using Rotate_settles [of "conn_view ks c" d' jti "rd_cjson R" d x "conn_view ks c'"] assms by (simp add: Rotate_sim)

lemma swap_writes:
  assumes "view_inv ks c" "record_ok r" "record_ok (rotated r d' jti)"
    "rotate_swap R c (ar_RefreshDigest r) d' jti r (json_object (record_fields r)) sid = (x, c')"
  shows "writes ks (rotation (clock c) (ks (server c)) (ar_RefreshDigest r) d' jti x) x c c'"
  unfolding writes_def
proof -
  have "rotate_swap K (conn_view ks c) (ar_RefreshDigest r) d' jti r (json_object (record_fields r)) sid = (x, conn_view ks c')"
    using assms(4) by (simp add: rotate_swap_sim)
  moreover have inv: "session_inv (clock (conn_view ks c)) (server (conn_view ks c))" using assms(1) by simp
  ultimately show "settles (rotation (clock c) (ks (server c)) (ar_RefreshDigest r) d' jti x) x (conn_view ks c) (conn_view ks c')"
    using assms(2,3) inv_sessions_iff [OF assms(1)]
    by (intro settles_mono [OF rotate_swap_settles [OF inv]]) (auto simp: rotation_def)
qed

lemma Delete_writes:
  assumes "view_inv ks c" "SessionStore_Delete R c sid = (x, c')"
  shows "writes ks (removed {sid} (clock c) (ks (server c))) x c c'"
  unfolding writes_def using Delete_settles [of "conn_view ks c" sid x "conn_view ks c'"] assms by (simp add: Delete_sim)

lemma DeleteByRefreshDigest_writes:
  assumes "view_inv ks c" "SessionStore_DeleteByRefreshDigest R c d = (x, c')"
  shows "writes ks (removed (digest_sessions (clock c) (ks (server c)) d) (clock c) (ks (server c))) x c c'"
  unfolding writes_def
  using DeleteByRefreshDigest_settles [of "conn_view ks c" d x "conn_view ks c'"] assms by (simp add: DeleteByRefreshDigest_sim)

lemma DeleteUserSessions_writes:
  assumes "view_inv ks c" "SessionStore_DeleteUserSessions R c u = (x, c')" "u \<noteq> []"
  shows "writes ks (removed (indexed (clock c) (ks (server c)) u) (clock c) (ks (server c))) x c c'"
  unfolding writes_def
  using DeleteUserSessions_settles [of "conn_view ks c" u x "conn_view ks c'"] assms by (simp add: DeleteUserSessions_sim)

end

section \<open>Steps\<close>

text \<open>
  The premises are what the steps take for granted. The session and refresh keys get their lifetime in
  milliseconds, the index key in whole seconds, rounded down: with a lifetime of \<open>1.5 s\<close> the index ends half a second before the
  session, and a revocation in between would miss it. Ids and digests are fresh and the clock of the server is that of Redis.
\<close>

inductive store_step :: "'r redis \<Rightarrow> ('r \<Rightarrow> keyspace) \<Rightarrow> 'r conn \<Rightarrow> 'r conn \<Rightarrow> bool"
  for R :: "'r redis" and ks :: "'r \<Rightarrow> keyspace" where
  create: "SessionStore_Create R c now sid s d ttl = (x, c') \<Longrightarrow> unix_milli now = clock c \<Longrightarrow> second dvd ttl \<Longrightarrow>
    utf8_record \<lparr>ar_AuthSession = s, ar_RefreshDigest = d\<rparr> \<Longrightarrow> fresh (clock c) (ks (server c)) sid d \<Longrightarrow>
    store_step R ks c c'"
| rotate: "SessionStore_Rotate R c d d' jti = (x, c') \<Longrightarrow> valid_utf8 d' \<Longrightarrow> valid_utf8 jti \<Longrightarrow>
    digest_session (clock c) (ks (server c)) d' = None \<Longrightarrow> d' \<noteq> [] \<Longrightarrow> jti \<noteq> [] \<Longrightarrow> store_step R ks c c'"
| swap: "rotate_swap R c (ar_RefreshDigest r) d' jti r (json_object (record_fields r)) sid = (x, c') \<Longrightarrow>
    record_ok r \<Longrightarrow> valid_utf8 d' \<Longrightarrow> valid_utf8 jti \<Longrightarrow>
    digest_session (clock c) (ks (server c)) d' = None \<Longrightarrow> d' \<noteq> [] \<Longrightarrow> jti \<noteq> [] \<Longrightarrow> store_step R ks c c'"
| delete: "SessionStore_Delete R c sid = (x, c') \<Longrightarrow> store_step R ks c c'"
| delete_digest: "SessionStore_DeleteByRefreshDigest R c d = (x, c') \<Longrightarrow> store_step R ks c c'"
| delete_user: "SessionStore_DeleteUserSessions R c u = (x, c') \<Longrightarrow> u \<noteq> [] \<Longrightarrow> store_step R ks c c'"
| pass: "clock c \<le> clock c' \<Longrightarrow> server c' = server c \<Longrightarrow> store_step R ks c c'"

lemma digest_none:
  assumes "session_inv t ks" "digest_session t ks d = None" shows "live t ks (authRefreshKey d) = None"
  using assms(2) inv_refresh [OF assms(1), of d]
  by (cases "live t ks (authRefreshKey d)") (auto simp: digest_session_def split: rvalue.splits prod.splits)

lemma rotation_cases:
  assumes inv: "view_inv ks c" and w: "writes ks (rotation (clock c) (ks (server c)) d d' jti x) x c c'"
    and d': "digest_session (clock c) (ks (server c)) d' = None" "d' \<noteq> []" "jti \<noteq> []" "valid_utf8 d'" "valid_utf8 jti"
  obtains (same) "clock c \<le> clock c'" "ks (server c') = ks (server c)"
  | (rot) sid r e where "clock c' = clock c" "table ks c sid = Some (r, e)" "record_ok (rotated r d' jti)"
      "digest_session (clock c) (ks (server c)) d' = None" "clock c < e"
      "ks (server c') = swapped (clock c) (ks (server c)) sid r d' jti e"
  using w
proof (cases rule: writes_cases)
  case wrote
  then obtain sid r e where s: "table ks c sid = Some (r, e)" "clock c < e"
    "ks (server c') = swapped (clock c) (ks (server c)) sid r d' jti e"
    unfolding rotation_def by blast
  moreover from s(1) have "record_ok r" using inv_sessions_iff [OF inv] unfolding holds_def by blast
  ultimately show ?thesis using rot wrote(1) d' rotated_ok by blast
qed (auto intro: same)

text \<open>What a step can do to the keyspace.\<close>

lemma step_cases:
  assumes R: "redis_server R ks" and step: "store_step R ks c c'" and inv: "view_inv ks c"
  obtains (same) "clock c \<le> clock c'" "ks (server c') = ks (server c)"
  | (new) sid r e where "clock c' = clock c" "sid \<noteq> []" "record_ok r" "fresh (clock c) (ks (server c)) sid (ar_RefreshDigest r)"
      "created (clock c) (ks (server c)) (ks (server c')) sid (json_object (record_fields r)) (ar_RefreshDigest r) (owner r) e"
  | (rot) d' jti sid r e where "clock c' = clock c" "table ks c sid = Some (r, e)" "record_ok (rotated r d' jti)"
      "digest_session (clock c) (ks (server c)) d' = None" "clock c < e"
      "ks (server c') = swapped (clock c) (ks (server c)) sid r d' jti e"
  | (rm) S where "clock c' = clock c" "removed S (clock c) (ks (server c)) (ks (server c'))"
proof -
  note ops = redis_server.Create_writes [OF R inv] redis_server.Rotate_writes [OF R inv] redis_server.swap_writes [OF R inv]
    redis_server.Delete_writes [OF R inv] redis_server.DeleteByRefreshDigest_writes [OF R inv]
    redis_server.DeleteUserSessions_writes [OF R inv]
  have rmw: thesis if "writes ks (removed S (clock c) (ks (server c))) x c c'" for S and x :: "data_error + unit"
    using that by (cases rule: writes_cases) (auto intro: same rm)
  have rotw: thesis if "writes ks (rotation (clock c) (ks (server c)) d d' jti x) x c c'"
    and "digest_session (clock c) (ks (server c)) d' = None" "d' \<noteq> []" "jti \<noteq> []" "valid_utf8 d'" "valid_utf8 jti" for d d' jti x
    using rotation_cases [OF inv that] same rot by metis
  from step show thesis
  proof cases
    case (create now sid s d ttl x)
    then obtain n where n: "ttl = n * second" by (metis dvdE mult.commute)
    show ?thesis
    proof (cases "0 < n")
      case True
      show ?thesis
        using ops(1) [OF create(2) True create(1) [unfolded n]]
      proof (cases rule: writes_cases)
        case wrote
        then show ?thesis using new [of sid "\<lparr>ar_AuthSession = s, ar_RefreshDigest = d\<rparr>"] create(4,5)
          by (simp add: record_ok_def) blast
      qed (auto intro: same)
    next
      case False
      then have "c' = c" using create(1) n by (auto simp: SessionStore_Create_def)
      then show ?thesis using same by simp
    qed
  qed (use ops rmw rotw rotated_ok same in \<open>blast | metis order_refl\<close>)+
qed

lemma inv_swapped:
  assumes inv: "session_inv t ks" and "sessions t ks sid = Some (r, e)" "record_ok (rotated r d' jti)"
    "digest_session t ks d' = None"
  shows "session_inv t (swapped t ks sid r d' jti e)"
  unfolding swapped_def
  using inv_rotate_effect [OF inv _ assms(3) digest_none [OF inv assms(4)]] assms(2) inv_sessions_iff [OF inv] by blast

lemma step_inv:
  assumes "redis_server R ks" "store_step R ks c c'" "view_inv ks c"
  shows "view_inv ks c'"
  by (cases rule: step_cases [OF assms])
    (use assms(3) in \<open>auto intro: session_inv_later inv_created inv_swapped inv_removed\<close>)

end
