(* ===== verification/SessionProps.thy ===== *)
theory SessionProps
  imports SessionMachine
begin

text \<open>
  The promises of the session store, over any Redis server that satisfies the contract: the
  invariant in every reachable state, what each operation does to the abstract table of
  sessions, rotation as a compare-and-swap, fixed session lifetimes, and the online map.
\<close>

section \<open>A concrete store\<close>

definition demo_session :: auth_session where
  "demo_session = \<lparr>s_UserID = ''u1'', s_Email = ''a@b.c'', s_Remark = ''r'', s_Role = ''admin'',
     s_Active = True, s_AccessJTI = ''j1''\<rparr>"

definition demo_record :: authSessionRecord where
  "demo_record = \<lparr>ar_AuthSession = demo_session, ar_RefreshDigest = ''d1''\<rparr>"

abbreviation demo_redis :: "keyspace redis" where "demo_redis \<equiv> ks_redis ks_cjson"

definition demo_start :: "keyspace conn" where
  "demo_start = \<lparr>server = Map.empty, clock = 1000, faults = []\<rparr>"

definition demo_conn :: "keyspace conn" where
  "demo_conn = snd (SessionStore_Create demo_redis demo_start (1000 * millisecond) ''s1'' demo_session ''d1'' (60 * second))"

lemma demo_start_simps [simp]: "server demo_start = Map.empty" "clock demo_start = 1000" "faults demo_start = []"
  by (simp_all add: demo_start_def)

lemma demo_record_ok: "record_ok demo_record"
  by (simp add: record_ok_def validate_iff utf8_record_def demo_record_def demo_session_def Valid_def
      RoleAdmin_def RoleUser_def is_ascii_valid_utf8)

lemma demo_fresh: "fresh t Map.empty sid d"
  by (simp add: fresh_def live_def)

lemma demo_create:
  "\<exists>ks'. SessionStore_Create demo_redis demo_start (1000 * millisecond) ''s1'' demo_session ''d1'' (60 * second) =
     (Inr (), demo_start\<lparr>server := ks'\<rparr>) \<and>
   created 1000 Map.empty ks' ''s1'' (json_object (record_fields demo_record)) ''d1'' ''u1'' 61000"
  using Create_clean [of demo_start "1000 * millisecond" 60 "''s1''" demo_session "''d1''" ks_cjson]
    session_inv_empty [of 1000] demo_record_ok
  by (simp add: unix_milli_def demo_record_def record_ok_def) (simp add: demo_session_def)

lemma demo_conn_simps [simp]: "clock demo_conn = 1000" "faults demo_conn = []"
  using demo_create by (auto simp: demo_conn_def)

lemma demo_conn_created:
  "created 1000 Map.empty (server demo_conn) ''s1'' (json_object (record_fields demo_record)) ''d1'' ''u1'' 61000"
  using demo_create by (auto simp: demo_conn_def)

lemma demo_conn_inv: "session_inv 1000 (server demo_conn)"
  by (rule inv_created [OF session_inv_empty demo_fresh demo_record_ok _ _ _ demo_conn_created])
    (simp_all add: demo_record_def demo_session_def)

lemma demo_conn_table: "sessions 1000 (server demo_conn) = [''s1'' \<mapsto> (demo_record, 61000)]"
  unfolding sessions_created [OF demo_conn_created demo_record_ok] by (simp add: sessions_def live_def fun_eq_iff)

lemma demo_conn_holds: "holds 1000 (server demo_conn) ''s1'' demo_record 61000"
  using demo_conn_table inv_sessions_iff [OF demo_conn_inv, of "''s1''" demo_record 61000] by simp

lemma digest_none_iff:
  assumes "session_inv t ks"
  shows "digest_session t ks d = None \<longleftrightarrow> (\<forall>sid r e. sessions t ks sid = Some (r, e) \<longrightarrow> ar_RefreshDigest r \<noteq> d)"
  using digest_session_iff [OF assms, of d] by (metis not_None_eq)

lemma demo_unused: "digest_session 1000 (server demo_conn) ''d2'' = None"
  unfolding digest_none_iff [OF demo_conn_inv] by (simp add: demo_conn_table demo_record_def)

section \<open>Reachable states\<close>

text \<open>
  C4 (invariant). Whatever sequence of creations, rotations (whole, or swaps on stale
  reads), deletions, lost requests, lost replies and passing time acts on an empty server,
  the three kinds of keys stay consistent: each live session has its refresh key and, while
  it has time left, its entry in the owner's index; no refresh key or unexpired index entry
  dangles. A creation takes a lifetime of whole seconds, fresh ids, and a reading of the server's clock that agrees
  with that of Redis; rotations take fresh digests (see \<open>store_step\<close>).
\<close>

theorem store_reachable_inv:
  assumes "redis_server R ks" "ks (server c0) = Map.empty" "(store_step R ks)\<^sup>*\<^sup>* c0 c"
  shows "session_inv (clock c) (ks (server c))"
  using assms(3)
proof (induction rule: rtranclp_induct)
  case base
  then show ?case using assms(2) session_inv_empty by simp
next
  case (step c c')
  then show ?case using step_inv [OF assms(1)] by blast
qed

lemma demo_step: "store_step demo_redis (\<lambda>k. k) demo_start demo_conn"
proof (rule store_step.create)
  show "SessionStore_Create demo_redis demo_start (1000 * millisecond) ''s1'' demo_session ''d1'' (60 * second) =
      (fst (SessionStore_Create demo_redis demo_start (1000 * millisecond) ''s1'' demo_session ''d1'' (60 * second)), demo_conn)"
    by (simp add: demo_conn_def)
  show "utf8_record \<lparr>ar_AuthSession = demo_session, ar_RefreshDigest = ''d1''\<rparr>"
    using demo_record_ok by (simp add: record_ok_def demo_record_def)
qed (simp_all add: unix_milli_def demo_fresh)

theorem store_reachable_inv_witness:
  "session_inv (clock demo_conn) (server demo_conn) \<and> sessions 1000 (server demo_conn) ''s1'' = Some (demo_record, 61000)"
  using store_reachable_inv [OF reference_server.redis_server_axioms _ r_into_rtranclp [of "store_step demo_redis (\<lambda>k. k)", OF demo_step]]
    demo_conn_table by simp

text \<open>
  No step moves the expiry of a session or changes whose it is: as long as a
  session id stays in the table, its expiry is the one it was created with, and only a
  rotation changes the record, replacing the refresh digest and the access token id.
\<close>

theorem step_keeps_session:
  assumes "redis_server R ks" "store_step R ks c c'" "session_inv (clock c) (ks (server c))"
    and "sessions (clock c) (ks (server c)) sid = Some (r, e)"
    and "sessions (clock c') (ks (server c')) sid = Some (r', e')"
  shows "e' = e \<and> (r' = r \<or> (\<exists>d jti. r' = rotated r d jti))"
  using assms(1-3)
proof (cases rule: step_cases)
  case same
  have "holds (clock c') (ks (server c')) sid r' e'"
    using step_inv [OF assms(1-3)] assms(5) inv_sessions_iff by blast
  then have "holds (clock c) (ks (server c)) sid r' e'" using same holds_earlier by simp
  then show ?thesis using assms(4) holds_sessions by fastforce
next
  case (new sid0 r0 e0)
  have "sid \<noteq> sid0" using new(4) assms(4) by (auto simp: fresh_def sessions_def)
  then show ?thesis using sessions_created [OF new(5,3)] assms(4,5) new(1) by simp
next
  case (rot d' jti sid0 r0 e0)
  have "clock c \<le> e0" using rot(5) by simp
  then show ?thesis
    using sessions_rotate_effect [OF _ rot(3), of "clock c" e0 sid0] rot(1,2,6) assms(4,5)
    by (auto simp: swapped_def split: if_splits)
next
  case (rm S)
  then show ?thesis using sessions_removed [OF rm(2), of sid] assms(4,5) by (auto split: if_splits)
qed

theorem step_keeps_session_witness:
  "(61000 :: int) = 61000 \<and> (demo_record = demo_record \<or> (\<exists>d jti. demo_record = rotated demo_record d jti))
   \<and> clock (demo_conn\<lparr>clock := 5000\<rparr>) = 5000"
proof -
  let ?c' = "demo_conn\<lparr>clock := 5000\<rparr>"
  have step: "store_step demo_redis (\<lambda>k. k) demo_conn ?c'" by (rule store_step.pass) simp_all
  have "sessions 5000 (server demo_conn) ''s1'' = Some (demo_record, 61000)"
    by (intro holds_sessions holds_later [OF demo_conn_holds]) simp
  then show ?thesis
    using step_keeps_session [OF reference_server.redis_server_axioms step, of "''s1''" demo_record 61000 demo_record 61000]
      demo_conn_inv demo_conn_table by simp
qed

section \<open>Rotation\<close>

lemma Rotate_outcome:
  assumes "redis_server R ks" "session_inv (clock c) (ks (server c))" "valid_utf8 d'" "valid_utf8 jti" "d' \<noteq> []" "jti \<noteq> []"
    and "SessionStore_Rotate R c d d' jti = (Inr (sid, session, left), c')"
  shows "\<exists>r e. sessions (clock c) (ks (server c)) sid = Some (r, e) \<and> ar_RefreshDigest r = d
    \<and> session = (ar_AuthSession r)\<lparr>s_AccessJTI := jti\<rparr> \<and> left = (e - clock c) * millisecond \<and> 0 < left
    \<and> sessions (clock c') (ks (server c')) = (sessions (clock c) (ks (server c)))(sid \<mapsto> (rotated r d' jti, e))"
proof -
  have w: "clock c' = clock c" "rotation (clock c) (ks (server c)) d d' jti (Inr (sid, session, left)) (ks (server c'))"
    using writes_success [OF redis_server.Rotate_writes [OF assms(1-4,7)]] by simp_all
  then obtain sid0 r e where s: "sessions (clock c) (ks (server c)) sid0 = Some (r, e)" "ar_RefreshDigest r = d" "clock c < e"
    "ks (server c') = swapped (clock c) (ks (server c)) sid0 r d' jti e"
    "(sid, session, left) = (sid0, ar_AuthSession (rotated r d' jti), (e - clock c) * millisecond)"
    unfolding rotation_def by blast
  have "record_ok r" using s(1) inv_sessions_iff [OF assms(2)] unfolding holds_def by blast
  then have ok: "record_ok (rotated r d' jti)" using rotated_ok assms(3-6) by blast
  have "sessions (clock c) (ks (server c')) = (sessions (clock c) (ks (server c)))(sid0 \<mapsto> (rotated r d' jti, e))"
    unfolding s(4) swapped_def using sessions_rotate_effect [OF _ ok] s(3) by simp
  then show ?thesis using s w(1) by auto
qed

text \<open>
  C24 (refinement). A successful \<open>Rotate\<close> found exactly one session with the presented
  digest and time left; it replaced that session's digest and access token id in the table
  and nothing else, kept its absolute expiry, and returned the time that remains.
\<close>

theorem Rotate_refines:
  assumes "redis_server R ks" "session_inv (clock c) (ks (server c))" "valid_utf8 d'" "valid_utf8 jti" "d' \<noteq> []" "jti \<noteq> []"
    and "SessionStore_Rotate R c d d' jti = (Inr (sid, session, left), c')"
  shows "\<exists>r e. sessions (clock c) (ks (server c)) sid = Some (r, e) \<and> ar_RefreshDigest r = d
    \<and> session = (ar_AuthSession r)\<lparr>s_AccessJTI := jti\<rparr> \<and> left = (e - clock c) * millisecond \<and> 0 < left
    \<and> sessions (clock c') (ks (server c')) = (sessions (clock c) (ks (server c)))(sid \<mapsto> (rotated r d' jti, e))"
  using assms by (rule Rotate_outcome)

lemma demo_rotate:
  "SessionStore_Rotate demo_redis demo_conn ''d1'' ''d2'' ''j2'' =
    (Inr (''s1'', demo_session\<lparr>s_AccessJTI := ''j2''\<rparr>, 60 * second),
     demo_conn\<lparr>server := swapped 1000 (server demo_conn) ''s1'' demo_record ''d2'' ''j2'' 61000\<rparr>)"
  using Rotate_clean [of demo_conn "''d2''" "''j2''" "''s1''" demo_record 61000 "''d1''" ks_cjson]
    demo_conn_inv demo_conn_table by (simp add: demo_record_def is_ascii_valid_utf8)

theorem Rotate_refines_witness:
  "sessions 1000 (swapped 1000 (server demo_conn) ''s1'' demo_record ''d2'' ''j2'' 61000) =
     [''s1'' \<mapsto> (rotated demo_record ''d2'' ''j2'', 61000)]"
  using Rotate_refines [OF reference_server.redis_server_axioms _ _ _ _ _ demo_rotate] demo_conn_inv demo_conn_table
  by (simp add: is_ascii_valid_utf8)

text \<open>
  C5 (safety). A refresh token is good once: after a successful rotation, presenting the
  old digest again is answered with \<open>ErrNotFound\<close> and changes nothing, at any later
  time, as long as nothing else wrote to the store.
\<close>

theorem Rotate_replay_rejected:
  assumes "redis_server R ks" "session_inv (clock c) (ks (server c))" "valid_utf8 d'" "valid_utf8 jti" "d' \<noteq> []" "jti \<noteq> []"
    and "digest_session (clock c) (ks (server c)) d' = None"
    and "SessionStore_Rotate R c d d' jti = (Inr v, c1)"
    and "clock c1 \<le> clock c2" "server c2 = server c1" "faults c2 = []" "d'' \<noteq> []" "jti' \<noteq> []"
  shows "\<exists>c3. SessionStore_Rotate R c2 d d'' jti' = (Inl ErrNotFound, c3) \<and> ks (server c3) = ks (server c2)"
proof -
  obtain sid session left where v: "v = (sid, session, left)" by (cases v) auto
  obtain r e where s: "sessions (clock c) (ks (server c)) sid = Some (r, e)" "ar_RefreshDigest r = d"
    and t: "sessions (clock c1) (ks (server c1)) = (sessions (clock c) (ks (server c)))(sid \<mapsto> (rotated r d' jti, e))"
    using Rotate_outcome [OF assms(1-6) assms(8) [unfolded v]] by blast
  have inv1: "session_inv (clock c1) (ks (server c1))"
    by (rule step_inv [OF assms(1) store_step.rotate [where ks = ks, OF assms(8,3,4,7,5,6)] assms(2)])
  have inv2: "session_inv (clock c2) (ks (server c2))" using session_inv_later [OF inv1 assms(9)] assms(10) by simp
  have dd: "d' \<noteq> d" using assms(7) digest_none_iff [OF assms(2)] s by auto
  have gone: "ar_RefreshDigest r0 \<noteq> d" if "sessions (clock c2) (ks (server c2)) s0 = Some (r0, e0)" for s0 r0 e0
  proof -
    have "holds (clock c2) (ks (server c1)) s0 r0 e0" using that inv_sessions_iff [OF inv2] assms(10) by simp
    then have s0: "sessions (clock c1) (ks (server c1)) s0 = Some (r0, e0)"
      using holds_sessions holds_earlier assms(9) by blast
    show ?thesis
    proof (cases "s0 = sid")
      case False
      then have "sessions (clock c) (ks (server c)) s0 = Some (r0, e0)" using s0 t by simp
      then show ?thesis
        using inv_digest_unique [OF assms(2)] s inv_sessions_iff [OF assms(2)] False by blast
    qed (use s0 t dd in auto)
  qed
  have d: "d \<noteq> []" using assms(8) by (auto simp: SessionStore_Rotate_def)
  have "SessionStore_Rotate (ks_redis (rd_cjson R)) (conn_view ks c2) d d'' jti' = (Inl ErrNotFound, conn_view ks c2)"
    by (rule Rotate_unknown) (use inv2 d assms gone in auto)
  then show ?thesis
    using redis_server.Rotate_sim [OF assms(1), of c2 d d'' jti']
    by (cases "SessionStore_Rotate R c2 d d'' jti'") (auto simp: conn_view_def)
qed

theorem Rotate_replay_rejected_witness:
  "\<exists>c1 c3. SessionStore_Rotate demo_redis demo_conn ''d1'' ''d2'' ''j2'' =
      (Inr (''s1'', demo_session\<lparr>s_AccessJTI := ''j2''\<rparr>, 60 * second), c1)
    \<and> SessionStore_Rotate demo_redis (c1\<lparr>clock := 2000\<rparr>) ''d1'' ''d3'' ''j3'' = (Inl ErrNotFound, c3)"
proof -
  show ?thesis
    using Rotate_replay_rejected [OF reference_server.redis_server_axioms _ _ _ _ _ _ demo_rotate,
        of "demo_conn\<lparr>server := swapped 1000 (server demo_conn) ''s1'' demo_record ''d2'' ''j2'' 61000, clock := 2000\<rparr>" "''d3''" "''j3''"]
      demo_conn_inv demo_unused demo_rotate by (auto simp: is_ascii_valid_utf8)
qed

text \<open>
  C25 (safety). Two clients that read the same session record and race to rotate it cannot
  both win: once one compare-and-swap has succeeded, the other, run on the same stale
  record, fails, whatever its own new digest is.
\<close>

theorem swap_wins_once:
  assumes "redis_server R ks" "session_inv (clock c) (ks (server c))" "record_ok r"
    "valid_utf8 d'" "valid_utf8 jti" "d' \<noteq> []" "jti \<noteq> []" "digest_session (clock c) (ks (server c)) d' = None"
    "valid_utf8 d''" "valid_utf8 jti'" "d'' \<noteq> []" "jti' \<noteq> []"
    and one: "rotate_swap R c (ar_RefreshDigest r) d' jti r (json_object (record_fields r)) sid = (Inr v, c1)"
    and two: "rotate_swap R c1 (ar_RefreshDigest r) d'' jti' r (json_object (record_fields r)) sid = (x, c2)"
  shows "\<exists>e. x = Inl e"
proof -
  have ok: "record_ok (rotated r d' jti)" "record_ok (rotated r d'' jti')" using assms rotated_ok by blast+
  note w = writes_success [OF redis_server.swap_writes [OF assms(1,2,3) ok(1) one]]
  then obtain s0 r0 e where s: "sessions (clock c) (ks (server c)) s0 = Some (r0, e)" "ar_RefreshDigest r0 = ar_RefreshDigest r"
    "clock c < e" "ks (server c1) = swapped (clock c) (ks (server c)) s0 r0 d' jti e"
    unfolding rotation_def by blast
  have inv1: "session_inv (clock c1) (ks (server c1))"
    by (rule step_inv [OF assms(1) store_step.swap [where ks = ks, OF one assms(3,4,5,8,6,7)] assms(2)])
  have r0: "record_ok (rotated r0 d' jti)"
    using rotated_ok assms s(1) inv_sessions_iff [OF assms(2)] unfolding holds_def by blast
  have t1: "sessions (clock c1) (ks (server c1)) = (sessions (clock c) (ks (server c)))(s0 \<mapsto> (rotated r0 d' jti, e))"
    unfolding s(4) swapped_def using sessions_rotate_effect [OF _ r0] s(3) w by simp
  have dd: "d' \<noteq> ar_RefreshDigest r" using assms(8) digest_none_iff [OF assms(2)] s by auto
  have "ar_RefreshDigest q \<noteq> ar_RefreshDigest r" if "sessions (clock c1) (ks (server c1)) sid1 = Some (q, f)" for sid1 q f
    using that t1 dd s inv_digest_unique [OF assms(2)] inv_sessions_iff [OF assms(2)]
    by (cases "sid1 = s0") auto
  then have "\<not> rotation (clock c1) (ks (server c1)) (ar_RefreshDigest r) d'' jti' x k" for k
    unfolding rotation_def by blast
  then show ?thesis
    using redis_server.swap_writes [OF assms(1) inv1 assms(3) ok(2) two] by (auto elim: writes_cases)
qed

lemma demo_swap:
  "rotate_swap demo_redis demo_conn ''d1'' ''d2'' ''j2'' demo_record (json_object (record_fields demo_record)) ''s1'' =
     SessionStore_Rotate demo_redis demo_conn ''d1'' ''d2'' ''j2''"
proof -
  have "digest_session 1000 (server demo_conn) ''d1'' = Some ''s1''"
    using digest_session_iff [OF demo_conn_inv, of "''d1''" "''s1''"] demo_conn_table by (simp add: demo_record_def)
  then show ?thesis
    using inv_get_refresh [OF demo_conn_inv, of "''d1''"] inv_get_session [OF demo_conn_inv, of "''s1''"]
    by (simp add: SessionStore_Rotate_def getRecord_def call_clean demo_conn_table decode_record [OF demo_record_ok])
      (simp add: demo_record_def)
qed

theorem swap_wins_once_witness:
  "\<exists>c1 e c2. rotate_swap demo_redis demo_conn ''d1'' ''d2'' ''j2'' demo_record (json_object (record_fields demo_record)) ''s1'' =
      (Inr (''s1'', demo_session\<lparr>s_AccessJTI := ''j2''\<rparr>, 60 * second), c1)
    \<and> rotate_swap demo_redis c1 ''d1'' ''d3'' ''j3'' demo_record (json_object (record_fields demo_record)) ''s1'' = (Inl e, c2)"
proof -
  have d1: "ar_RefreshDigest demo_record = ''d1''" by (simp add: demo_record_def)
  let ?c1 = "demo_conn\<lparr>server := swapped 1000 (server demo_conn) ''s1'' demo_record ''d2'' ''j2'' 61000\<rparr>"
  have one: "rotate_swap demo_redis demo_conn ''d1'' ''d2'' ''j2'' demo_record (json_object (record_fields demo_record)) ''s1'' =
      (Inr (''s1'', demo_session\<lparr>s_AccessJTI := ''j2''\<rparr>, 60 * second), ?c1)"
    unfolding demo_swap by (rule demo_rotate)
  obtain x c2 where two: "rotate_swap demo_redis ?c1 ''d1'' ''d3'' ''j3'' demo_record (json_object (record_fields demo_record)) ''s1'' = (x, c2)"
    by fastforce
  have "\<exists>e. x = Inl e"
    using swap_wins_once [OF reference_server.redis_server_axioms _ demo_record_ok, unfolded d1,
        OF _ _ _ _ _ _ _ _ _ _ one two]
      demo_conn_inv demo_unused by (simp add: is_ascii_valid_utf8)
  then show ?thesis using one two by blast
qed

section \<open>Deletion\<close>

text \<open>
  C26 (refinement). When \<open>DeleteUserSessions\<close> reports success, every session of that user
  is gone from the table, except one in the very millisecond of its expiry; the sessions of
  other users are untouched and none appears.
\<close>

theorem DeleteUserSessions_refines:
  assumes "redis_server R ks" "session_inv (clock c) (ks (server c))" "u \<noteq> []"
    "SessionStore_DeleteUserSessions R c u = (Inr (), c')"
  shows "(\<forall>sid r e. sessions (clock c') (ks (server c')) sid = Some (r, e) \<longrightarrow>
           sessions (clock c) (ks (server c)) sid = Some (r, e) \<and> (owner r = u \<longrightarrow> e = clock c))
    \<and> (\<forall>sid r e. sessions (clock c) (ks (server c)) sid = Some (r, e) \<longrightarrow> owner r \<noteq> u \<longrightarrow>
           sessions (clock c') (ks (server c')) sid = Some (r, e))"
proof (intro conjI allI impI)
  have w: "clock c' = clock c" and rm: "removed (indexed (clock c) (ks (server c)) u) (clock c) (ks (server c)) (ks (server c'))"
    using writes_success [OF redis_server.DeleteUserSessions_writes [OF assms(1,2,4,3)]] by simp_all
  note keep = sessions_removed [OF rm]
  fix sid r e
  { assume s: "sessions (clock c') (ks (server c')) sid = Some (r, e)"
    then show old: "sessions (clock c) (ks (server c)) sid = Some (r, e)" using keep [of sid] w by (auto split: if_splits)
    assume "owner r = u"
    then have "\<not> clock c < e" using indexed_live [OF assms(2) old] keep [of sid] s w by auto
    moreover have "clock c \<le> e" using old inv_sessions_iff [OF assms(2)] holds_time by blast
    ultimately show "e = clock c" by simp }
  assume "sessions (clock c) (ks (server c)) sid = Some (r, e)" "owner r \<noteq> u"
  then show "sessions (clock c') (ks (server c')) sid = Some (r, e)"
    using keep [of sid] w indexed_owner [OF assms(2), of sid u r e] by auto
qed

theorem DeleteUserSessions_refines_witness:
  "\<exists>c'. SessionStore_DeleteUserSessions demo_redis demo_conn ''u1'' = (Inr (), c')
    \<and> sessions 1000 (server demo_conn) ''s1'' = Some (demo_record, 61000)
    \<and> sessions (clock c') (server c') ''s1'' = None"
proof -
  obtain c' where c': "SessionStore_DeleteUserSessions demo_redis demo_conn ''u1'' = (Inr (), c')"
    using parsed_cjson.DeleteUserSessions_succeeds [of demo_conn "''u1''"] demo_conn_inv by auto
  have "sessions (clock c') (server c') ''s1'' = None"
  proof (rule ccontr)
    assume "sessions (clock c') (server c') ''s1'' \<noteq> None"
    then obtain r e where s1: "sessions (clock c') (server c') ''s1'' = Some (r, e)" by auto
    have inv: "session_inv (clock demo_conn) (server demo_conn)" using demo_conn_inv by simp
    note kick = DeleteUserSessions_refines [OF reference_server.redis_server_axioms inv _ c', simplified, THEN conjunct1, rule_format, OF s1]
    have "r = demo_record" "e = 61000" using kick by (simp_all add: demo_conn_table)
    then show False using kick by (simp add: demo_record_def demo_session_def)
  qed
  then show ?thesis using c' demo_conn_table by simp
qed

text \<open>
  \<open>DeleteByRefreshDigest\<close> on success removes the session that holds the
  digest, if there is one, and no other; \<open>Delete\<close> removes the named session and no other.
\<close>

theorem DeleteByRefreshDigest_refines:
  assumes "redis_server R ks" "session_inv (clock c) (ks (server c))"
    "SessionStore_DeleteByRefreshDigest R c d = (Inr (), c')"
  shows "sessions (clock c') (ks (server c')) sid =
     (case sessions (clock c) (ks (server c)) sid of
        Some (r, e) \<Rightarrow> if ar_RefreshDigest r = d then None else Some (r, e)
      | None \<Rightarrow> None)"
  using writes_success [OF redis_server.DeleteByRefreshDigest_writes [OF assms]]
    sessions_removed [of "digest_sessions (clock c) (ks (server c)) d" "clock c" "ks (server c)" "ks (server c')" sid]
  by (auto simp: digest_sessions_def split: option.splits)

theorem DeleteByRefreshDigest_refines_witness:
  "\<exists>c'. SessionStore_DeleteByRefreshDigest demo_redis demo_conn ''d1'' = (Inr (), c')
    \<and> sessions (clock c') (server c') ''s1'' = None"
proof -
  obtain c' where c': "SessionStore_DeleteByRefreshDigest demo_redis demo_conn ''d1'' = (Inr (), c')"
    using parsed_cjson.DeleteByRefreshDigest_succeeds [of demo_conn "''d1''"] demo_conn_inv by auto
  then show ?thesis
    using DeleteByRefreshDigest_refines [OF reference_server.redis_server_axioms _ c', of "''s1''"] demo_conn_inv
    by (simp add: demo_conn_table demo_record_def)
qed

text \<open>\<open>Delete\<close> on success removes the named session and no other.\<close>

theorem Delete_refines:
  assumes "redis_server R ks" "session_inv (clock c) (ks (server c))" "SessionStore_Delete R c sid = (Inr (), c')"
  shows "sessions (clock c') (ks (server c')) = (sessions (clock c) (ks (server c)))(sid := None)"
  using writes_success [OF redis_server.Delete_writes [OF assms]]
    sessions_removed [of "{sid}" "clock c" "ks (server c)" "ks (server c')"] by (auto simp: fun_eq_iff)

theorem Delete_refines_witness:
  "\<exists>c'. SessionStore_Delete demo_redis demo_conn ''s1'' = (Inr (), c') \<and> sessions (clock c') (server c') = Map.empty"
proof -
  obtain c' where c': "SessionStore_Delete demo_redis demo_conn ''s1'' = (Inr (), c')"
    using parsed_cjson.Delete_succeeds [of demo_conn "''s1''"] demo_conn_inv by auto
  then show ?thesis
    using Delete_refines [OF reference_server.redis_server_axioms _ c'] demo_conn_inv by (simp add: demo_conn_table)
qed

section \<open>Creation and lookup\<close>

text \<open>
  A session that was created is what \<open>Get\<close> returns under its id at every
  later moment up to its expiry, provided nothing else wrote to the store.
\<close>

theorem Create_Get:
  assumes "redis_server R ks" "session_inv (clock c) (ks (server c))" "unix_milli now = clock c" "0 < n"
    "utf8_record \<lparr>ar_AuthSession = s, ar_RefreshDigest = d\<rparr>" "fresh (clock c) (ks (server c)) sid d"
    "SessionStore_Create R c now sid s d (n * second) = (Inr (), c1)"
    and "server c2 = server c1" "clock c1 \<le> clock c2" "clock c2 \<le> clock c1 + n * 1000" "faults c2 = []"
  shows "fst (SessionStore_Get R c2 sid) = Inr s"
proof -
  let ?r = "\<lparr>ar_AuthSession = s, ar_RefreshDigest = d\<rparr>"
  have w: "clock c1 = clock c" "sid \<noteq> []" "validateAuthSessionRecord ?r = Inr ()"
    and cr: "created (clock c) (ks (server c)) (ks (server c1)) sid (json_object (record_fields ?r)) d (s_UserID s) (clock c + n * 1000)"
    using writes_success [OF redis_server.Create_writes [OF assms(1-4,7)]] by simp_all
  have ok: "record_ok ?r" using assms(5) w by (simp add: record_ok_def)
  have inv1: "session_inv (clock c) (ks (server c1))"
    using inv_created [OF assms(2,6) ok w(2) _ _ cr] by simp
  have "holds (clock c) (ks (server c1)) sid ?r (clock c + n * 1000)" using created_holds [OF cr ok] by simp
  then have "sessions (clock c2) (ks (server c2)) sid = Some (?r, clock c + n * 1000)"
    using holds_later holds_sessions assms(8,10) w(1) by simp
  moreover have "session_inv (clock c2) (ks (server c2))"
    using session_inv_later [OF inv1] assms(8,9) w(1) by simp
  ultimately have "fst (SessionStore_Get (ks_redis (rd_cjson R)) (conn_view ks c2) sid) = Inr s"
    using Get_result [of "conn_view ks c2" "rd_cjson R" sid] assms(11)
    by (cases "SessionStore_Get (ks_redis (rd_cjson R)) (conn_view ks c2) sid") auto
  then show ?thesis using redis_server.Get_sim [OF assms(1), of c2 sid] by simp
qed

theorem Create_Get_witness:
  "fst (SessionStore_Get demo_redis (demo_conn\<lparr>clock := 61000\<rparr>) ''s1'') = Inr demo_session"
proof -
  have cr: "SessionStore_Create demo_redis demo_start (1000 * millisecond) ''s1'' demo_session ''d1'' (60 * second) = (Inr (), demo_conn)"
    using demo_create by (auto simp: demo_conn_def)
  show ?thesis
    using Create_Get [OF reference_server.redis_server_axioms _ _ _ _ _ cr, of "demo_conn\<lparr>clock := 61000\<rparr>"]
      session_inv_empty [of 1000] demo_record_ok
    by (simp add: unix_milli_def demo_fresh record_ok_def demo_record_def)
qed

section \<open>Online state\<close>

text \<open>
  C37 (functional). On a healthy connection with synchronised clocks \<open>OnlineMap\<close> answers for
  exactly the requested non-empty ids; a user with a session that has time left is online,
  and a user shown online owns a live session.
\<close>

theorem OnlineMap_correct:
  assumes "redis_server R ks" "session_inv (clock c) (ks (server c))" "unix_milli now = clock c" "faults c = []"
  shows "\<exists>m c'. SessionStore_OnlineMap R c now ids = (Inr m, c') \<and> dom m = set ids - {[]}
    \<and> (\<forall>u sid r e. u \<in> dom m \<longrightarrow> sessions (clock c) (ks (server c)) sid = Some (r, e) \<longrightarrow> owner r = u \<longrightarrow> clock c < e
          \<longrightarrow> m u = Some True)
    \<and> (\<forall>u. m u = Some True \<longrightarrow> (\<exists>sid r e. sessions (clock c) (ks (server c)) sid = Some (r, e) \<and> owner r = u))"
proof -
  let ?t = "clock c" and ?ks = "ks (server c)"
  let ?m = "\<lambda>u. if u \<in> set ids \<and> u \<noteq> [] then Some (first_listed ?t ?ks u \<noteq> []) else None"
  have "SessionStore_OnlineMap (ks_redis (rd_cjson R)) (conn_view ks c) now ids = (Inr ?m, conn_view ks c)"
    using OnlineMap_clean [of "conn_view ks c" now "rd_cjson R" ids] assms unfolding conn_view_simps by simp
  then obtain c' where run: "SessionStore_OnlineMap R c now ids = (Inr ?m, c')"
    using redis_server.OnlineMap_sim [OF assms(1), of c now ids]
    by (cases "SessionStore_OnlineMap R c now ids") auto
  have "?m u = Some True" if "u \<in> dom ?m" "sessions ?t ?ks sid = Some (r, e)" "owner r = u" "?t < e" for u sid r e
  proof -
    have "first_listed ?t ?ks u \<noteq> []"
    proof (cases rule: first_listed_cases [OF assms(2), of u])
      case 1
      then show ?thesis using that(2-4) by fastforce
    qed simp
    then show ?thesis using that(1) by (auto split: if_splits)
  qed
  moreover have "\<exists>sid r e. sessions ?t ?ks sid = Some (r, e) \<and> owner r = u" if "?m u = Some True" for u
    using that by (cases rule: first_listed_cases [OF assms(2), of u]) (auto split: if_splits)
  moreover have "dom ?m = set ids - {[]}" by (auto simp: dom_def)
  ultimately show ?thesis using run by blast
qed

theorem OnlineMap_correct_witness:
  "\<exists>m c'. SessionStore_OnlineMap demo_redis demo_conn (1000 * millisecond) [''u1'', ''u2'', ''u1'', []] = (Inr m, c')
    \<and> m ''u1'' = Some True \<and> m ''u2'' = Some False \<and> m [] = None"
proof -
  have ids: "set [''u1'', ''u2'', ''u1'', []] - {[]} = {''u1'', ''u2''}" by auto
  have inv: "session_inv (clock demo_conn) (server demo_conn)" using demo_conn_inv by simp
  have now: "unix_milli (1000 * millisecond) = clock demo_conn" by (simp add: unix_milli_def)
  obtain m c' where m: "SessionStore_OnlineMap demo_redis demo_conn (1000 * millisecond) [''u1'', ''u2'', ''u1'', []] = (Inr m, c')"
    "dom m = {''u1'', ''u2''}"
    and on: "\<forall>u sid r e. u \<in> dom m \<longrightarrow> sessions 1000 (server demo_conn) sid = Some (r, e) \<longrightarrow> owner r = u \<longrightarrow> 1000 < e
          \<longrightarrow> m u = Some True"
    and off: "\<forall>u. m u = Some True \<longrightarrow> (\<exists>sid r e. sessions 1000 (server demo_conn) sid = Some (r, e) \<and> owner r = u)"
    using OnlineMap_correct [OF reference_server.redis_server_axioms inv now demo_conn_simps(2),
        of "[''u1'', ''u2'', ''u1'', []]", unfolded ids demo_conn_simps] by metis
  have "m ''u1'' = Some True"
    using on [rule_format, of "''u1''" "''s1''" demo_record 61000] m(2) by (simp add: demo_conn_table demo_record_def demo_session_def)
  moreover have "m ''u2'' \<noteq> Some True"
    using off [rule_format, of "''u2''"] by (auto simp: demo_conn_table demo_record_def demo_session_def split: if_splits)
  moreover have "''u2'' \<in> dom m" "[] \<notin> dom m" unfolding m(2) by simp_all
  then have "m ''u2'' \<noteq> None" "m [] = None" by (simp_all only: domIff not_not not_False_eq_True)
  moreover from this have "m ''u2'' = Some False" using \<open>m ''u2'' \<noteq> Some True\<close> by auto
  ultimately show ?thesis using m(1) by blast
qed

section \<open>The codec\<close>

text \<open>
  Decoding what \<open>encodeAuthSessionRecord\<close> wrote gives the record back,
  for every record with valid UTF-8 texts; a record that lacks a required field or has an
  unknown role is refused on the way in.
\<close>

theorem record_roundtrip:
  assumes "utf8_record r"
  shows "(\<exists>j. encodeAuthSessionRecord r = Inr j \<and> decodeAuthSessionRecord j = Inr r)
    \<or> ((s_UserID (ar_AuthSession r) = [] \<or> s_AccessJTI (ar_AuthSession r) = [] \<or> ar_RefreshDigest r = []
         \<or> \<not> Valid (s_Role (ar_AuthSession r)))
        \<and> encodeAuthSessionRecord r = Inl (ErrOther ''invalid authentication session data''))"
proof (cases "validateAuthSessionRecord r = Inr ()")
  case True
  then show ?thesis using assms encode_record decode_record by (auto simp: record_ok_def)
next
  case False
  then have "validateAuthSessionRecord r = Inl (ErrOther ''invalid authentication session data'')"
    by (simp add: validateAuthSessionRecord_def split: if_splits)
  then show ?thesis using False unfolding validate_iff by (simp add: encodeAuthSessionRecord_def)
qed

theorem record_roundtrip_witness:
  "utf8_record demo_record \<and> (\<exists>j. encodeAuthSessionRecord demo_record = Inr j \<and> decodeAuthSessionRecord j = Inr demo_record)"
  using record_roundtrip [of demo_record] demo_record_ok
  by (auto simp: record_ok_def encodeAuthSessionRecord_def)

end
