(* ===== verification/CaptchaStore.thy ===== *)
theory CaptchaStore
  imports SessionOps
begin

text \<open>
  \<open>internal/data/captcha.go\<close>: one-time captcha answers and the per-address issue limit, on
  the same Redis server as the sessions. The lemmas give the effect of each operation on
  the keyspace and show that none of them touches a session key.
\<close>

section \<open>Keys\<close>

definition captchaKeyPrefix :: string where "captchaKeyPrefix = ''captcha:v1:''"
definition captchaIPKeyPrefix :: string where "captchaIPKeyPrefix = ''captcha:v1:ip:''"

definition captchaKey :: "string \<Rightarrow> string" where
  "captchaKey cid = captchaKeyPrefix @ cid"

definition captchaIPKey :: "string \<Rightarrow> string" where
  "captchaIPKey ip =
     (let ip = TrimSpace ip;
          ip = (if ip = [] then ''unknown'' else ip)
      in captchaIPKeyPrefix @ ip)"

definition NormalizeCaptcha :: "unicode_tables \<Rightarrow> string \<Rightarrow> string" where
  "NormalizeCaptcha U answer = ToUpper U (TrimSpace answer)"

section \<open>Scripts\<close>

text \<open>The script's \<open>false\<close> is a nil reply, which the client reports as \<open>redis.Nil\<close>: \<^const>\<open>None\<close>.\<close>

definition consumeCaptchaScript :: "'r redis \<Rightarrow> int \<Rightarrow> string \<Rightarrow> ('r, string option) cmd" where
  "consumeCaptchaScript R t key1 =
     cbind (rd_get R t key1) (\<lambda>current.
       case current of
         None \<Rightarrow> cret None
       | Some current \<Rightarrow> cbind (rd_del R t key1) (\<lambda>_. cret (Some current)))"

definition issueCaptchaScript :: "'r redis \<Rightarrow> int \<Rightarrow> string \<Rightarrow> int \<Rightarrow> ('r, int) cmd" where
  "issueCaptchaScript R t key1 arg1 =
     cbind (rd_incr R t key1) (\<lambda>n.
     cbind (if n = 1 then rd_expire R t key1 arg1 else cret ()) (\<lambda>_.
       cret n))"

section \<open>Operations\<close>

definition CaptchaStore_Put ::
    "'r redis \<Rightarrow> 'r conn \<Rightarrow> string \<Rightarrow> string \<Rightarrow> duration \<Rightarrow> (data_error + unit) \<times> 'r conn" where
  "CaptchaStore_Put R c cid answer ttl =
     (if cid = [] \<or> answer = [] \<or> ttl \<le> 0 then (Inl (ErrOther ''invalid captcha record''), c)
      else
        (case call (\<lambda>t. rd_set R t (captchaKey cid) answer ttl) c of
           (Inl e, c') \<Rightarrow> (Inl (ErrOther ''store captcha''), c')
         | (Inr _, c') \<Rightarrow> (Inr (), c')))"

text \<open>\<open>subtle.ConstantTimeCompare\<close> on slices of equal length is equality of the bytes.\<close>

definition CaptchaStore_Consume ::
    "unicode_tables \<Rightarrow> 'r redis \<Rightarrow> 'r conn \<Rightarrow> string \<Rightarrow> string \<Rightarrow> (data_error + bool) \<times> 'r conn" where
  "CaptchaStore_Consume U R c cid answer =
     (if cid = [] \<or> answer = [] then (Inr False, c)
      else
        (case call (\<lambda>t. consumeCaptchaScript R t (captchaKey cid)) c of
           (Inl e, c') \<Rightarrow> (Inl (ErrOther ''consume captcha''), c')
         | (Inr None, c') \<Rightarrow> (Inr False, c')
         | (Inr (Some stored), c') \<Rightarrow>
             (let normalized = NormalizeCaptcha U answer in
              if length stored \<noteq> length normalized then (Inr False, c')
              else (Inr (stored = normalized), c'))))"

definition CaptchaStore_AllowIssue ::
    "'r redis \<Rightarrow> 'r conn \<Rightarrow> string \<Rightarrow> int \<Rightarrow> duration \<Rightarrow> (data_error + bool) \<times> 'r conn" where
  "CaptchaStore_AllowIssue R c ip limit window =
     (if limit \<le> 0 \<or> window \<le> 0 then (Inl (ErrOther ''invalid captcha issue limit''), c)
      else
        (let seconds = whole_seconds window in
         if seconds \<le> 0 then (Inl (ErrOther ''invalid captcha issue window''), c)
         else
           (case call (\<lambda>t. issueCaptchaScript R t (captchaIPKey ip) seconds) c of
              (Inl e, c') \<Rightarrow> (Inl (ErrOther ''rate limit captcha issue''), c')
            | (Inr n, c') \<Rightarrow> (Inr (n \<le> limit), c'))))"

section \<open>Simulation\<close>

context redis_server
begin

lemma consumeCaptchaScript_sim [sim_rules]:
  "sim ks (consumeCaptchaScript R t k) (consumeCaptchaScript K t k)"
  unfolding consumeCaptchaScript_def ks_redis_simps by (intro sim_rules)

lemma issueCaptchaScript_sim [sim_rules]:
  "sim ks (issueCaptchaScript R t k s) (issueCaptchaScript K t k s)"
  unfolding issueCaptchaScript_def ks_redis_simps by (intro sim_rules)

lemma Put_sim:
  "CaptchaStore_Put K (conn_view ks c) cid a ttl = map_prod id (conn_view ks) (CaptchaStore_Put R c cid a ttl)"
proof (cases "0 < ttl")
  case True
  then show ?thesis
    unfolding CaptchaStore_Put_def ks_redis_simps
    by (simp add: call_sim [OF sim_set] split: prod.splits sum.splits)
qed (simp add: CaptchaStore_Put_def)

lemma Consume_sim:
  "CaptchaStore_Consume U K (conn_view ks c) cid a = map_prod id (conn_view ks) (CaptchaStore_Consume U R c cid a)"
  unfolding CaptchaStore_Consume_def
  by (simp add: call_sim [OF consumeCaptchaScript_sim] Let_def split: prod.splits sum.splits option.splits)

lemma AllowIssue_sim:
  "CaptchaStore_AllowIssue K (conn_view ks c) ip l w = map_prod id (conn_view ks) (CaptchaStore_AllowIssue R c ip l w)"
  unfolding CaptchaStore_AllowIssue_def
  by (simp add: call_sim [OF issueCaptchaScript_sim] Let_def split: prod.splits sum.splits)

end

section \<open>Separation from the session keys\<close>

lemma captcha_keys_apart [simp]:
  "captchaKey x \<noteq> authSessionKey s" "captchaKey x \<noteq> authRefreshKey s" "captchaKey x \<noteq> authUserSessionsKey s"
  "captchaIPKey x \<noteq> authSessionKey s" "captchaIPKey x \<noteq> authRefreshKey s" "captchaIPKey x \<noteq> authUserSessionsKey s"
  by (simp_all add: captchaKey_def captchaIPKey_def captchaKeyPrefix_def captchaIPKeyPrefix_def key_defs Let_def)

lemmas captcha_keys_apart' [simp] = captcha_keys_apart [symmetric]

lemma captchaKey_inject [simp]: "captchaKey a = captchaKey b \<longleftrightarrow> a = b"
  by (simp add: captchaKey_def)

text \<open>An answer key collides with a counter key exactly for ids that start with \<open>ip:\<close>.\<close>

lemma captchaKey_IPKey:
  "captchaKey cid = captchaIPKey ip \<longleftrightarrow> cid = ''ip:'' @ (if TrimSpace ip = [] then ''unknown'' else TrimSpace ip)"
  by (auto simp: captchaKey_def captchaIPKey_def captchaKeyPrefix_def captchaIPKeyPrefix_def Let_def)

text \<open>A write that leaves the session keys alone leaves invariant and table alone.\<close>

definition same_sessions :: "keyspace \<Rightarrow> keyspace \<Rightarrow> bool" where
  "same_sessions ks ks' \<longleftrightarrow>
     (\<forall>s. ks' (authSessionKey s) = ks (authSessionKey s) \<and> ks' (authRefreshKey s) = ks (authRefreshKey s)
        \<and> ks' (authUserSessionsKey s) = ks (authUserSessionsKey s))"

lemma same_sessions_refl [simp]: "same_sessions ks ks"
  by (simp add: same_sessions_def)

lemma same_sessions_live:
  assumes "same_sessions ks ks'"
  shows "live t ks' (authSessionKey s) = live t ks (authSessionKey s)"
    "live t ks' (authRefreshKey s) = live t ks (authRefreshKey s)"
    "live t ks' (authUserSessionsKey s) = live t ks (authUserSessionsKey s)"
  using assms by (simp_all add: same_sessions_def live_def)

lemma same_sessions_frame:
  assumes "same_sessions ks ks'"
  shows "session_inv t ks' = session_inv t ks" "sessions t ks' = sessions t ks"
  by (simp_all add: session_inv_def session_keys_ok_def refresh_keys_ok_def index_keys_ok_def entry_ok_def
      holds_def sessions_def same_sessions_live [OF assms] fun_eq_iff)

section \<open>Effects\<close>

definition stored_answer :: "int \<Rightarrow> keyspace \<Rightarrow> string \<Rightarrow> string option" where
  "stored_answer t ks cid =
     (case live t ks (captchaKey cid) of
        Some (RStr a, _) \<Rightarrow> Some a
      | Some (RInt i, _) \<Rightarrow> Some (dec_int i)
      | _ \<Rightarrow> None)"

lemma consume_script_run:
  assumes "consumeCaptchaScript (ks_redis cj) t (captchaKey cid) ks = (Inr x, ks')"
  shows "x = stored_answer t ks cid \<and> live t ks' = (live t ks)(captchaKey cid := None) \<and> same_sessions ks ks'"
  using assms
  by (auto simp: consumeCaptchaScript_def cmd_defs ks_get_def ks_del_def stored_answer_def same_sessions_def
      split: option.splits rvalue.splits)

lemma consume_script_frame:
  "same_sessions ks (snd (consumeCaptchaScript (ks_redis cj) t (captchaKey cid) ks))"
  by (auto simp: consumeCaptchaScript_def cmd_defs ks_get_def ks_del_def same_sessions_def
      split: option.splits rvalue.splits)

lemma issue_script_frame:
  "same_sessions ks (snd (issueCaptchaScript (ks_redis cj) t (captchaIPKey ip) s ks))"
  by (auto simp: issueCaptchaScript_def cmd_defs ks_incr_def ks_expire_def ks_expire_if_def same_sessions_def
      split: option.splits rvalue.splits)

lemma call_frame:
  assumes "call m c = (x, c')" "\<And>t ks. same_sessions ks (snd (m t ks))"
  shows "clock c' = clock c \<and> same_sessions (server c) (server c')"
proof -
  have "server c' = server c \<or> server c' = snd (m (clock c) (server c))" "clock c' = clock c"
    using assms(1) by (auto simp: call_def split_beta Let_def split: list.splits fault.splits)
  then show ?thesis using assms(2) by auto
qed

lemma Put_frame:
  assumes "CaptchaStore_Put (ks_redis cj) c cid a ttl = (x, c')"
  shows "clock c' = clock c \<and> same_sessions (server c) (server c')"
proof -
  have "same_sessions ks (snd (ks_set t (captchaKey cid) a ttl ks))" for t ks
    by (auto simp: ks_set_def ks_set_px_def same_sessions_def)
  then show ?thesis
    using assms call_frame [of "\<lambda>t. ks_set t (captchaKey cid) a ttl" c]
    by (auto simp: CaptchaStore_Put_def split: prod.splits sum.splits if_splits)
qed

lemma Consume_frame:
  assumes "CaptchaStore_Consume U (ks_redis cj) c cid a = (x, c')"
  shows "clock c' = clock c \<and> same_sessions (server c) (server c')"
  using assms call_frame [of "\<lambda>t. consumeCaptchaScript (ks_redis cj) t (captchaKey cid)" c, OF _ consume_script_frame]
  by (auto simp: CaptchaStore_Consume_def Let_def split: prod.splits sum.splits option.splits if_splits)

lemma AllowIssue_frame:
  assumes "CaptchaStore_AllowIssue (ks_redis cj) c ip l w = (x, c')"
  shows "clock c' = clock c \<and> same_sessions (server c) (server c')"
  using assms call_frame [of "\<lambda>t. issueCaptchaScript (ks_redis cj) t (captchaIPKey ip) (whole_seconds w)" c, OF _ issue_script_frame]
  by (auto simp: CaptchaStore_AllowIssue_def Let_def split: prod.splits sum.splits if_splits)

lemma Consume_effect:
  assumes "CaptchaStore_Consume U (ks_redis cj) c cid a = (Inr b, c')" "cid \<noteq> []" "a \<noteq> []"
  shows "b = (stored_answer (clock c) (server c) cid = Some (NormalizeCaptcha U a))
    \<and> clock c' = clock c \<and> live (clock c) (server c') = (live (clock c) (server c))(captchaKey cid := None)"
proof -
  obtain y where y: "call (\<lambda>t. consumeCaptchaScript (ks_redis cj) t (captchaKey cid)) c = (Inr y, c')"
    and b: "b = (y = Some (NormalizeCaptcha U a))"
    using assms by (auto simp: CaptchaStore_Consume_def Let_def split: prod.splits sum.splits option.splits if_splits)
  show ?thesis using consume_script_run [OF call_reply(1) [OF y]] call_reply(2) [OF y] b by simp
qed

section \<open>The counter\<close>

text \<open>Calls of \<open>AllowIssue\<close> for one address, at the given times of the server's clock.\<close>

fun issue_run :: "'r redis \<Rightarrow> string \<Rightarrow> int \<Rightarrow> duration \<Rightarrow> int list \<Rightarrow> 'r conn \<Rightarrow> (data_error + bool) list" where
  "issue_run R ip limit window [] c = []"
| "issue_run R ip limit window (t # ts) c =
     (let (x, c') = CaptchaStore_AllowIssue R (c\<lparr>clock := t\<rparr>) ip limit window in
      x # issue_run R ip limit window ts c')"

lemma issue_next:
  assumes "live t (server c) (captchaIPKey ip) = Some (RInt n, Some e)" "1 \<le> n" "n < 9223372036854775807"
    and "faults c = []" "0 < limit" "second \<le> window"
  shows "CaptchaStore_AllowIssue (ks_redis cj) (c\<lparr>clock := t\<rparr>) ip limit window =
    (Inr (n + 1 \<le> limit), c\<lparr>clock := t, server := (server c)(captchaIPKey ip \<mapsto> (RInt (n + 1), Some e))\<rparr>)"
proof -
  have "0 < whole_seconds window" using assms(6) by (simp add: whole_seconds_def quot_pos pos_imp_zdiv_pos_iff)
  then show ?thesis
    using assms by (simp add: CaptchaStore_AllowIssue_def Let_def call_clean issueCaptchaScript_def cmd_defs ks_incr_def)
qed

lemma issue_first:
  assumes "live t (server c) (captchaIPKey ip) = None" "faults c = []" "0 < limit" "second \<le> window"
  shows "CaptchaStore_AllowIssue (ks_redis cj) (c\<lparr>clock := t\<rparr>) ip limit window =
    (Inr True, c\<lparr>clock := t, server := (server c)(captchaIPKey ip \<mapsto> (RInt 1, Some (t + whole_seconds window * 1000)))\<rparr>)"
proof -
  have "0 < whole_seconds window" using assms(4) by (simp add: whole_seconds_def quot_pos pos_imp_zdiv_pos_iff)
  then show ?thesis
    using assms
    by (simp add: CaptchaStore_AllowIssue_def Let_def call_clean issueCaptchaScript_def cmd_defs ks_incr_def
        ks_expire_def ks_expire_if_def)
qed

lemma issue_more:
  assumes "server c (captchaIPKey ip) = Some (RInt n, Some e)" "1 \<le> n" "n + int (length ts) < 9223372036854775808"
    and "faults c = []" "0 < limit" "second \<le> window" "\<forall>t \<in> set ts. t \<le> e"
  shows "issue_run (ks_redis cj) ip limit window ts c = map (\<lambda>i. Inr (n + 1 + int i \<le> limit)) [0..<length ts]"
  using assms
proof (induction ts arbitrary: c n)
  case (Cons t ts)
  have l: "live t (server c) (captchaIPKey ip) = Some (RInt n, Some e)" using Cons.prems by (simp add: live_def)
  let ?c = "c\<lparr>clock := t, server := (server c)(captchaIPKey ip \<mapsto> (RInt (n + 1), Some e))\<rparr>"
  have "issue_run (ks_redis cj) ip limit window ts ?c = map (\<lambda>i. Inr (n + 1 + 1 + int i \<le> limit)) [0..<length ts]"
    by (rule Cons.IH) (use Cons.prems in auto)
  then show ?case
    using issue_next [OF l, of limit window cj] Cons.prems
    by (simp add: upt_conv_Cons map_Suc_upt [symmetric] algebra_simps del: upt_Suc)
qed simp

section \<open>Properties\<close>

text \<open>
  C29 (safety). A captcha is good for one attempt: an attempt that got an answer from the
  store was right exactly when the stored answer equals the normalised one, and, right or
  wrong, the answer is gone afterwards; other captchas keep theirs.
\<close>

theorem captcha_one_attempt:
  assumes "redis_server R ks" "cid \<noteq> []" "a \<noteq> []" "CaptchaStore_Consume U R c cid a = (Inr b, c')"
  shows "b = (stored_answer (clock c) (ks (server c)) cid = Some (NormalizeCaptcha U a))
    \<and> stored_answer (clock c') (ks (server c')) cid = None
    \<and> (cid' \<noteq> cid \<longrightarrow> stored_answer (clock c') (ks (server c')) cid' = stored_answer (clock c) (ks (server c)) cid')"
proof -
  have "CaptchaStore_Consume U (ks_redis (rd_cjson R)) (conn_view ks c) cid a = (Inr b, conn_view ks c')"
    using redis_server.Consume_sim [OF assms(1), of U c cid a] assms(4) by simp
  from Consume_effect [OF this assms(2,3)] show ?thesis by (simp add: stored_answer_def)
qed

text \<open>A stored answer can be consumed, in any case and with surrounding blanks, until it expires.\<close>

lemma Put_effect:
  assumes R: "redis_server R ks" and run: "CaptchaStore_Put R c cid a ttl = (Inr (), c')"
  shows "clock c' = clock c \<and> 0 < ttl \<and> cid \<noteq> [] \<and>
    ks (server c') = (ks (server c))(captchaKey cid \<mapsto> (RStr a, Some (clock c + dur_ms ttl)))"
proof -
  have "CaptchaStore_Put (ks_redis (rd_cjson R)) (conn_view ks c) cid a ttl = (Inr (), conn_view ks c')"
    using redis_server.Put_sim [OF R, of c cid a ttl] run by simp
  then obtain y where y: "call (\<lambda>t. ks_set t (captchaKey cid) a ttl) (conn_view ks c) = (Inr y, conn_view ks c')"
    and ok: "0 < ttl" "cid \<noteq> []"
    by (auto simp: CaptchaStore_Put_def split: prod.splits sum.splits if_splits)
  from call_reply [OF y] ok show ?thesis
    by (auto simp: ks_set_def ks_set_px_def dest: sym split: if_splits)
qed

text \<open>
  After a successful \<open>Put\<close> the next attempt within the lifetime, on a
  healthy connection, answers whether the normalised attempt equals the stored answer.
\<close>

theorem captcha_put_consume:
  assumes "redis_server R ks" "CaptchaStore_Put R c cid a ttl = (Inr (), c1)"
    and "server c2 = server c1" "clock c2 \<le> clock c + dur_ms ttl" "faults c2 = []" "attempt \<noteq> []"
  shows "fst (CaptchaStore_Consume U R c2 cid attempt) = Inr (NormalizeCaptcha U attempt = a)"
proof -
  note put = Put_effect [OF assms(1,2)]
  have "live (clock c2) (ks (server c2)) (captchaKey cid) = Some (RStr a, Some (clock c + dur_ms ttl))"
    using put assms(3,4) by (simp add: live_def)
  then have "fst (CaptchaStore_Consume U (ks_redis (rd_cjson R)) (conn_view ks c2) cid attempt)
      = Inr (NormalizeCaptcha U attempt = a)"
    using put assms(5,6)
    by (auto simp: CaptchaStore_Consume_def call_clean consumeCaptchaScript_def cmd_defs ks_get_def ks_del_def Let_def)
  then show ?thesis using redis_server.Consume_sim [OF assms(1), of U c2 cid attempt] by simp
qed

definition demo_unicode :: unicode_tables where
  "demo_unicode = \<lparr>uni_lower = id, uni_upper = id\<rparr>"

definition demo_captcha :: "keyspace conn" where
  "demo_captcha = \<lparr>server = [captchaKey ''c1'' \<mapsto> (RStr ''AB12'', Some 121000)], clock = 1000, faults = []\<rparr>"

lemma demo_put:
  "CaptchaStore_Put (ks_redis ks_cjson) \<lparr>server = Map.empty, clock = 1000, faults = []\<rparr> ''c1'' ''AB12'' (120 * second) =
     (Inr (), demo_captcha)"
  by (simp add: CaptchaStore_Put_def call_clean ks_set_def ks_set_px_def dur_ms_def quot_pos demo_captcha_def)

lemma demo_normal: "NormalizeCaptcha U '' ab12'' = ''AB12''"
  by (simp add: NormalizeCaptcha_def ToUpper_ascii TrimSpace_ascii IsSpace_def ascii_upper_def) code_simp

theorem captcha_put_consume_witness:
  "fst (CaptchaStore_Consume demo_unicode (ks_redis ks_cjson) (demo_captcha\<lparr>clock := 100000\<rparr>) ''c1'' '' ab12'') = Inr True"
  using captcha_put_consume [OF reference_server.redis_server_axioms demo_put, of "demo_captcha\<lparr>clock := 100000\<rparr>" "'' ab12''" demo_unicode]
  by (simp add: demo_captcha_def dur_ms_def quot_pos demo_normal)

theorem captcha_one_attempt_witness:
  "\<exists>c'. CaptchaStore_Consume demo_unicode (ks_redis ks_cjson) demo_captcha ''c1'' '' ab12'' = (Inr True, c')
    \<and> stored_answer (clock c') (server c') ''c1'' = None"
proof -
  obtain x c' where run: "CaptchaStore_Consume demo_unicode (ks_redis ks_cjson) demo_captcha ''c1'' '' ab12'' = (x, c')"
    by fastforce
  then have "x = Inr True"
    by (auto simp: CaptchaStore_Consume_def call_clean demo_captcha_def consumeCaptchaScript_def cmd_defs ks_get_def
        live_def ks_del_def Let_def demo_normal)
  then show ?thesis
    using captcha_one_attempt [OF reference_server.redis_server_axioms _ _ run [unfolded \<open>x = Inr True\<close>]] run by simp
qed

text \<open>
  C30 (bounds). The issue limit counts per window: from the first call for an address, every
  call while that window lasts succeeds exactly when fewer than \<open>limit\<close> calls came before
  it, and the window is not extended by later calls.
\<close>

theorem captcha_issue_limit:
  assumes "redis_server R ks" "live t (ks (server c)) (captchaIPKey ip) = None" "faults c = []" "0 < limit" "second \<le> window"
    and "\<forall>t' \<in> set ts. t' \<le> t + whole_seconds window * 1000" "int (length ts) < 9223372036854775807"
  shows "issue_run R ip limit window (t # ts) c = map (\<lambda>i. Inr (int i < limit)) [0..<Suc (length ts)]"
proof -
  have sim: "issue_run R ip limit window us d = issue_run (ks_redis (rd_cjson R)) ip limit window us (conn_view ks d)" for us d
  proof (induction us arbitrary: d)
    case (Cons u us)
    have v: "(conn_view ks d)\<lparr>clock := u\<rparr> = conn_view ks (d\<lparr>clock := u\<rparr>)" by (simp add: conn_view_def)
    show ?case
      unfolding issue_run.simps v redis_server.AllowIssue_sim [OF assms(1)] using Cons
      by (simp add: Let_def split: prod.splits)
  qed simp
  let ?e = "t + whole_seconds window * 1000"
  let ?c = "(conn_view ks c)\<lparr>clock := t, server := (ks (server c))(captchaIPKey ip \<mapsto> (RInt 1, Some ?e))\<rparr>"
  have first: "CaptchaStore_AllowIssue (ks_redis (rd_cjson R)) (conn_view ks c\<lparr>clock := t\<rparr>) ip limit window = (Inr True, ?c)"
    using issue_first [of t "conn_view ks c" ip limit window "rd_cjson R"] assms by simp
  have "issue_run (ks_redis (rd_cjson R)) ip limit window ts ?c = map (\<lambda>i. Inr (1 + 1 + int i \<le> limit)) [0..<length ts]"
    by (rule issue_more [where e = ?e]) (use assms in auto)
  then show ?thesis
    unfolding sim using first assms(4)
    by (simp add: upt_conv_Cons map_Suc_upt [symmetric] algebra_simps del: upt_Suc) auto
qed

theorem captcha_issue_limit_witness:
  "issue_run (ks_redis ks_cjson) ''10.0.0.1'' 2 minute [1000, 1500, 60000] \<lparr>server = Map.empty, clock = 0, faults = []\<rparr>
     = [Inr True, Inr True, Inr False]"
  using captcha_issue_limit [OF reference_server.redis_server_axioms,
      of 1000 "\<lparr>server = Map.empty, clock = 0, faults = []\<rparr>" "''10.0.0.1''" 2 minute "[1500, 60000]"]
  by (simp add: live_def whole_seconds_def quot_pos upt_conv_Cons)

text \<open>
  No captcha operation touches the login state: whatever it is given and
  however the connection fails, the session invariant and the table of sessions are as before.
\<close>

theorem captcha_keeps_sessions:
  assumes "redis_server R ks"
    and "CaptchaStore_Put R c cid a ttl = (x, c') \<or> CaptchaStore_Consume U R c cid a = (y, c')
         \<or> CaptchaStore_AllowIssue R c ip l w = (z, c')"
  shows "clock c' = clock c \<and> sessions (clock c') (ks (server c')) = sessions (clock c) (ks (server c))
    \<and> session_inv (clock c') (ks (server c')) = session_inv (clock c) (ks (server c))"
proof -
  note sims = redis_server.Put_sim [OF assms(1), of c cid a ttl] redis_server.Consume_sim [OF assms(1), of U c cid a]
    redis_server.AllowIssue_sim [OF assms(1), of c ip l w]
  have "clock c' = clock c \<and> same_sessions (ks (server c)) (ks (server c'))"
    using assms(2)
      Put_frame [of "rd_cjson R" "conn_view ks c" cid a ttl x "conn_view ks c'"]
      Consume_frame [of U "rd_cjson R" "conn_view ks c" cid a y "conn_view ks c'"]
      AllowIssue_frame [of "rd_cjson R" "conn_view ks c" ip l w z "conn_view ks c'"] sims by auto
  then show ?thesis using same_sessions_frame by simp
qed

theorem captcha_keeps_sessions_witness:
  "sessions 1000 (server demo_captcha) = sessions 1000 Map.empty"
  using captcha_keeps_sessions [OF reference_server.redis_server_axioms, OF disjI1, OF demo_put] by (simp add: demo_captcha_def)

end
