(* ===== verification/Config.thy ===== *)
theory Config
  imports Prelude
begin

text \<open>
  \<open>pkg/config/config.go\<close>: the configuration structure, its defaults, the environment
  overrides, validation and loading. The YAML decoder and the file system are arguments:
  \<open>yaml\<close> maps the file's text and the defaults to the decoded configuration. The parser
  of \<open>net/url\<close> is the argument \<open>parse_uri\<close>.
\<close>

section \<open>Structure\<close>

record AppConfig =
  Env :: string

record ServerConfig =
  Addr :: string
  ReadHeaderTimeout :: duration
  ReadTimeout :: duration
  WriteTimeout :: duration
  ShutdownTimeout :: duration
  MaxHeaderBytes :: int
  MaxRequestBodyBytes :: int

record LoggerConfig =
  Level :: string
  Format :: string
  OutputPaths :: "string list"
  ErrorOutputPaths :: "string list"

record DatabaseConfig =
  DSN :: string

record RedisConfig =
  rc_Addr :: string
  rc_Username :: string
  rc_Password :: string
  rc_DB :: int
  rc_DialTimeout :: duration
  rc_ReadTimeout :: duration
  rc_WriteTimeout :: duration

record AuthConfig =
  JWTSecret :: string
  Issuer :: string
  Audience :: string
  AccessTokenTTL :: duration
  RefreshTokenTTL :: duration
  RefreshCookieName :: string
  RefreshCookieSecure :: bool
  AllowedOrigins :: "string list"

record CaptchaConfig =
  Enabled :: bool
  Length :: int
  TTL :: duration
  Width :: int
  Height :: int
  IssueLimitPerMinute :: int

record Config =
  App :: AppConfig
  Server :: ServerConfig
  Logger :: LoggerConfig
  Database :: DatabaseConfig
  Redis :: RedisConfig
  Auth :: AuthConfig
  Captcha :: CaptchaConfig

text \<open>The parts of a \<open>url.URL\<close> the server reads; \<open>parse_uri\<close> gives \<^const>\<open>None\<close> for an error.\<close>

record uri =
  Scheme :: string
  Host :: string
  Path :: string
  RawQuery :: string
  Fragment :: string

section \<open>Operations\<close>

definition DefaultPath :: string where "DefaultPath = ''application.yaml''"

definition defaults :: Config where
  "defaults =
     \<lparr>App = \<lparr>Env = ''development''\<rparr>,
      Server = \<lparr>Addr = '':8080'', ReadHeaderTimeout = 5 * second, ReadTimeout = 10 * second,
        WriteTimeout = 15 * second, ShutdownTimeout = 10 * second, MaxHeaderBytes = 1048576,
        MaxRequestBodyBytes = 1048576\<rparr>,
      Logger = \<lparr>Level = ''info'', Format = ''json'', OutputPaths = [''stdout''], ErrorOutputPaths = [''stderr'']\<rparr>,
      Database = \<lparr>DSN = []\<rparr>,
      Redis = \<lparr>rc_Addr = ''127.0.0.1:6379'', rc_Username = [], rc_Password = [], rc_DB = 0,
        rc_DialTimeout = 5 * second, rc_ReadTimeout = 3 * second, rc_WriteTimeout = 3 * second\<rparr>,
      Auth = \<lparr>JWTSecret = [], Issuer = ''springhere-gin-server'', Audience = ''springhere-react-admin'',
        AccessTokenTTL = 15 * minute, RefreshTokenTTL = 30 * 24 * hour,
        RefreshCookieName = ''springhere_refresh'', RefreshCookieSecure = False, AllowedOrigins = []\<rparr>,
      Captcha = \<lparr>Enabled = True, Length = 4, TTL = 2 * minute, Width = 160, Height = 48,
        IssueLimitPerMinute = 20\<rparr>\<rparr>"

text \<open>\<open>getenv\<close> is the process environment; an unset variable is the empty string.\<close>

definition set_env :: "(string \<Rightarrow> string) \<Rightarrow> string \<Rightarrow> (string \<Rightarrow> Config \<Rightarrow> Config) \<Rightarrow> Config \<Rightarrow> Config" where
  "set_env getenv k f c = (let v = getenv k in if v \<noteq> [] then f v c else c)"

definition override :: "(string \<Rightarrow> string) \<Rightarrow> Config \<Rightarrow> Config" where
  "override getenv c =
     (let c = set_env getenv ''APP_ENV'' (\<lambda>v c. c\<lparr>App := (App c)\<lparr>Env := v\<rparr>\<rparr>) c;
          c = set_env getenv ''SERVER_ADDR'' (\<lambda>v c. c\<lparr>Server := (Server c)\<lparr>Addr := v\<rparr>\<rparr>) c;
          c = set_env getenv ''DATABASE_DSN'' (\<lambda>v c. c\<lparr>Database := (Database c)\<lparr>DSN := v\<rparr>\<rparr>) c;
          c = set_env getenv ''REDIS_ADDR'' (\<lambda>v c. c\<lparr>Redis := (Redis c)\<lparr>rc_Addr := v\<rparr>\<rparr>) c;
          c = set_env getenv ''REDIS_USERNAME'' (\<lambda>v c. c\<lparr>Redis := (Redis c)\<lparr>rc_Username := v\<rparr>\<rparr>) c;
          c = set_env getenv ''REDIS_PASSWORD'' (\<lambda>v c. c\<lparr>Redis := (Redis c)\<lparr>rc_Password := v\<rparr>\<rparr>) c
      in set_env getenv ''AUTH_JWT_SECRET'' (\<lambda>v c. c\<lparr>Auth := (Auth c)\<lparr>JWTSecret := v\<rparr>\<rparr>) c)"

fun valid_origins :: "(string \<Rightarrow> uri option) \<Rightarrow> string list \<Rightarrow> bool" where
  "valid_origins parse_uri [] = True"
| "valid_origins parse_uri (origin # rest) =
     (case parse_uri origin of
        None \<Rightarrow> False
      | Some u \<Rightarrow>
          if Scheme u = [] \<or> Host u = [] \<or> Path u \<noteq> [] \<or> RawQuery u \<noteq> [] \<or> Fragment u \<noteq> [] then False
          else valid_origins parse_uri rest)"

definition Config_Validate :: "(string \<Rightarrow> uri option) \<Rightarrow> Config \<Rightarrow> string + unit" where
  "Config_Validate parse_uri c =
     (let s = Server c; r = Redis c; a = Auth c; k = Captcha c in
      if Addr s = [] \<or> DSN (Database c) = []
      then Inl ''server.addr and database.dsn are required''
      else if ReadHeaderTimeout s \<le> 0 \<or> ReadTimeout s \<le> 0 \<or> WriteTimeout s \<le> 0 \<or> ShutdownTimeout s \<le> 0
              \<or> MaxHeaderBytes s \<le> 0 \<or> MaxRequestBodyBytes s \<le> 0
      then Inl ''server timeouts and size limits must be positive''
      else if rc_Addr r = [] \<or> rc_DB r < 0 \<or> rc_DialTimeout r \<le> 0 \<or> rc_ReadTimeout r \<le> 0 \<or> rc_WriteTimeout r \<le> 0
      then Inl ''redis address, database index, and timeouts must be valid''
      else if length (JWTSecret a) < 32
      then Inl ''auth.jwt_secret must be at least 32 bytes''
      else if Issuer a = [] \<or> Audience a = [] \<or> RefreshCookieName a = []
      then Inl ''auth issuer, audience, and refresh cookie name are required''
      else if AccessTokenTTL a \<le> 0 \<or> RefreshTokenTTL a \<le> 0
      then Inl ''token TTL must be positive''
      else if Env (App c) = ''production'' \<and> \<not> RefreshCookieSecure a
      then Inl ''production requires a secure refresh cookie''
      else if TTL k \<le> 0 \<or> Width k \<le> 0 \<or> Height k \<le> 0 \<or> IssueLimitPerMinute k \<le> 0
      then Inl ''captcha ttl, size, and issue limit must be positive''
      else if Length k < 4 \<or> Length k > 6
      then Inl ''captcha length must be between 4 and 6''
      else if Env (App c) = ''production'' \<and> \<not> Enabled k
      then Inl ''production requires captcha''
      else if \<not> valid_origins parse_uri (AllowedOrigins a)
      then Inl ''auth.allowed_origins contains an invalid origin''
      else Inr ())"

text \<open>\<open>load\<close> returns the configuration together with the verdict of \<open>Validate\<close>; a read or
  parse error comes with the zero configuration.\<close>

definition load ::
    "(string \<Rightarrow> string option) \<Rightarrow> (string \<Rightarrow> Config \<Rightarrow> Config option) \<Rightarrow> (string \<Rightarrow> string) \<Rightarrow> (string \<Rightarrow> uri option) \<Rightarrow>
     string \<Rightarrow> string + Config" where
  "load read_file yaml getenv parse_uri path =
     (let c = defaults;
          path = (if path = [] then DefaultPath else path)
      in case read_file path of
           None \<Rightarrow> Inl ''read config''
         | Some body \<Rightarrow>
             (case yaml body c of
                None \<Rightarrow> Inl ''parse config''
              | Some c \<Rightarrow>
                  (let c = override getenv c in
                   case Config_Validate parse_uri c of Inl e \<Rightarrow> Inl e | Inr _ \<Rightarrow> Inr c)))"

text \<open>\<open>New\<close> panics on an error of \<open>load\<close>: \<^const>\<open>None\<close>.\<close>

definition Config_New ::
    "(string \<Rightarrow> string option) \<Rightarrow> (string \<Rightarrow> Config \<Rightarrow> Config option) \<Rightarrow> (string \<Rightarrow> string) \<Rightarrow> (string \<Rightarrow> uri option) \<Rightarrow>
     string \<Rightarrow> Config option" where
  "Config_New read_file yaml getenv parse_uri path =
     (case load read_file yaml getenv parse_uri path of Inl e \<Rightarrow> None | Inr c \<Rightarrow> Some c)"

section \<open>Lemmas\<close>

lemma valid_origins_iff:
  "valid_origins parse_uri os \<longleftrightarrow>
     (\<forall>o' \<in> set os. \<exists>u. parse_uri o' = Some u \<and> Scheme u \<noteq> [] \<and> Host u \<noteq> [] \<and> Path u = [] \<and> RawQuery u = [] \<and> Fragment u = [])"
  by (induction parse_uri os rule: valid_origins.induct) (auto split: option.splits)

lemma Validate_Inr_iff:
  "Config_Validate parse_uri c = Inr () \<longleftrightarrow>
     Addr (Server c) \<noteq> [] \<and> DSN (Database c) \<noteq> [] \<and>
     0 < ReadHeaderTimeout (Server c) \<and> 0 < ReadTimeout (Server c) \<and> 0 < WriteTimeout (Server c) \<and>
     0 < ShutdownTimeout (Server c) \<and> 0 < MaxHeaderBytes (Server c) \<and> 0 < MaxRequestBodyBytes (Server c) \<and>
     rc_Addr (Redis c) \<noteq> [] \<and> 0 \<le> rc_DB (Redis c) \<and> 0 < rc_DialTimeout (Redis c) \<and> 0 < rc_ReadTimeout (Redis c) \<and>
     0 < rc_WriteTimeout (Redis c) \<and> 32 \<le> length (JWTSecret (Auth c)) \<and> Issuer (Auth c) \<noteq> [] \<and>
     Audience (Auth c) \<noteq> [] \<and> RefreshCookieName (Auth c) \<noteq> [] \<and> 0 < AccessTokenTTL (Auth c) \<and>
     0 < RefreshTokenTTL (Auth c) \<and> (Env (App c) = ''production'' \<longrightarrow> RefreshCookieSecure (Auth c) \<and> Enabled (Captcha c)) \<and>
     0 < TTL (Captcha c) \<and> 0 < Width (Captcha c) \<and> 0 < Height (Captcha c) \<and> 0 < IssueLimitPerMinute (Captcha c) \<and>
     4 \<le> Length (Captcha c) \<and> Length (Captcha c) \<le> 6 \<and> valid_origins parse_uri (AllowedOrigins (Auth c))"
  unfolding Config_Validate_def Let_def by (simp add: not_less not_le)

lemma set_env_keeps: "(\<And>v. sel (f v c) = sel c) \<Longrightarrow> sel (set_env g k f c) = sel c"
  by (simp add: set_env_def Let_def)

lemma set_env_at:
  "Env (App (set_env g k (\<lambda>v c. c\<lparr>App := (App c)\<lparr>Env := v\<rparr>\<rparr>) c)) = (if g k = [] then Env (App c) else g k)"
  "JWTSecret (Auth (set_env g k (\<lambda>v c. c\<lparr>Auth := (Auth c)\<lparr>JWTSecret := v\<rparr>\<rparr>) c)) = (if g k = [] then JWTSecret (Auth c) else g k)"
  "RefreshCookieSecure (Auth (set_env g k (\<lambda>v c. c\<lparr>Auth := (Auth c)\<lparr>JWTSecret := v\<rparr>\<rparr>) c)) = RefreshCookieSecure (Auth c)"
  by (simp_all add: set_env_def Let_def)

lemma override_simps [simp]:
  "Env (App (override g c)) = (if g ''APP_ENV'' = [] then Env (App c) else g ''APP_ENV'')"
  "JWTSecret (Auth (override g c)) = (if g ''AUTH_JWT_SECRET'' = [] then JWTSecret (Auth c) else g ''AUTH_JWT_SECRET'')"
  "RefreshCookieSecure (Auth (override g c)) = RefreshCookieSecure (Auth c)"
  "Captcha (override g c) = Captcha c"
  by (simp_all add: override_def Let_def set_env_at set_env_keeps [of App] set_env_keeps [of Auth] set_env_keeps [of Captcha])

lemma load_checked:
  assumes "load read_file yaml getenv parse_uri path = Inr c"
  shows "Config_Validate parse_uri c = Inr () \<and> (getenv ''APP_ENV'' = ''production'' \<longrightarrow> Env (App c) = ''production'')
    \<and> (getenv ''AUTH_JWT_SECRET'' \<noteq> [] \<longrightarrow> JWTSecret (Auth c) = getenv ''AUTH_JWT_SECRET'')"
proof -
  obtain c0 where "c = override getenv c0" "Config_Validate parse_uri c = Inr ()"
    using assms by (auto simp: load_def Let_def split: option.splits sum.splits)
  then show ?thesis by simp
qed

section \<open>Properties\<close>

text \<open>
  C36 (safety). A configuration that \<open>load\<close> returns is one the rest of the server can rely
  on: both token lifetimes, the captcha lifetime and the issue limit are positive, the
  signing secret has at least 32 bytes, the body limit is positive, every allowed origin is
  a bare scheme and host, and in production (after the environment had its say) the refresh
  cookie is secure and captchas are on.
\<close>

theorem load_safe:
  assumes "load read_file yaml getenv parse_uri path = Inr c"
  shows "0 < AccessTokenTTL (Auth c) \<and> 0 < RefreshTokenTTL (Auth c) \<and> 0 < TTL (Captcha c)
    \<and> 0 < IssueLimitPerMinute (Captcha c) \<and> 4 \<le> Length (Captcha c) \<and> Length (Captcha c) \<le> 6
    \<and> 32 \<le> length (JWTSecret (Auth c)) \<and> 0 < MaxRequestBodyBytes (Server c) \<and> RefreshCookieName (Auth c) \<noteq> []
    \<and> (\<forall>og \<in> set (AllowedOrigins (Auth c)). \<exists>u. parse_uri og = Some u \<and> Scheme u \<noteq> [] \<and> Host u \<noteq> [] \<and> Path u = [])
    \<and> (getenv ''APP_ENV'' = ''production'' \<longrightarrow> RefreshCookieSecure (Auth c) \<and> Enabled (Captcha c))
    \<and> (getenv ''AUTH_JWT_SECRET'' \<noteq> [] \<longrightarrow> JWTSecret (Auth c) = getenv ''AUTH_JWT_SECRET'')"
  using load_checked [OF assms, THEN conjunct1, unfolded Validate_Inr_iff valid_origins_iff] load_checked [OF assms, THEN conjunct2]
  by auto

definition demo_config :: Config where
  "demo_config = defaults\<lparr>Database := \<lparr>DSN = ''dsn''\<rparr>,
     Auth := (Auth defaults)\<lparr>JWTSecret := replicate 32 CHR ''k'', RefreshCookieSecure := True\<rparr>\<rparr>"

definition demo_env :: "string \<Rightarrow> string" where
  "demo_env k = (if k = ''APP_ENV'' then ''production'' else [])"

theorem load_safe_witness:
  "\<exists>c. load (\<lambda>_. Some []) (\<lambda>_ _. Some demo_config) demo_env (\<lambda>_. None) [] = Inr c
     \<and> RefreshCookieSecure (Auth c) \<and> Enabled (Captcha c)"
proof -
  let ?c = "override demo_env demo_config"
  have "Config_Validate (\<lambda>_. None) ?c = Inr ()"
    by (simp add: Config_Validate_def Let_def demo_config_def demo_env_def defaults_def override_def set_env_def)
  then have l: "load (\<lambda>_. Some []) (\<lambda>_ _. Some demo_config) demo_env (\<lambda>_. None) [] = Inr ?c"
    by (simp add: load_def Let_def)
  have "demo_env ''APP_ENV'' = ''production''" by (simp add: demo_env_def)
  then show ?thesis using l load_safe [OF l] by blast
qed

text \<open>
  The shipped defaults miss only what must not have a default: completed by
  a database DSN and a secret they validate exactly when the secret has 32 bytes or more and
  every origin added is bare; without a DSN they are refused whatever else is set.
\<close>

theorem defaults_complete:
  "Config_Validate parse_uri (defaults\<lparr>Database := \<lparr>DSN = dsn\<rparr>,
      Auth := (Auth defaults)\<lparr>JWTSecret := secret, AllowedOrigins := origins\<rparr>\<rparr>) = Inr ()
   \<longleftrightarrow> dsn \<noteq> [] \<and> 32 \<le> length secret \<and> valid_origins parse_uri origins"
  by (simp add: Validate_Inr_iff) (auto simp: defaults_def)

end
