(* ===== verification/Digest.thy ===== *)
theory Digest
  imports Prelude "HOL-Library.Word"
begin

text \<open>
  The standard library pieces behind tokens: SHA-256 (\<open>crypto/sha256\<close>), hexadecimal
  (\<open>encoding/hex\<close>) and unpadded URL base64 (\<open>encoding/base64\<close>), executable, on byte
  strings.
\<close>

unbundle bit_operations_syntax

section \<open>SHA-256\<close>

type_synonym w32 = "32 word"

definition sha_k :: "w32 list" where
  "sha_k =
     [1116352408, 1899447441, 3049323471, 3921009573, 961987163, 1508970993, 2453635748, 2870763221,
      3624381080, 310598401, 607225278, 1426881987, 1925078388, 2162078206, 2614888103, 3248222580,
      3835390401, 4022224774, 264347078, 604807628, 770255983, 1249150122, 1555081692, 1996064986,
      2554220882, 2821834349, 2952996808, 3210313671, 3336571891, 3584528711, 113926993, 338241895,
      666307205, 773529912, 1294757372, 1396182291, 1695183700, 1986661051, 2177026350, 2456956037,
      2730485921, 2820302411, 3259730800, 3345764771, 3516065817, 3600352804, 4094571909, 275423344,
      430227734, 506948616, 659060556, 883997877, 958139571, 1322822218, 1537002063, 1747873779,
      1955562222, 2024104815, 2227730452, 2361852424, 2428436474, 2756734187, 3204031479, 3329325298]"

definition sha_init :: "w32 list" where
  "sha_init = [1779033703, 3144134277, 1013904242, 2773480762, 1359893119, 2600822924, 528734635, 1541459225]"

text \<open>
  These are the numbers the standard prescribes: the first 32 bits of the fractional parts of
  the cube roots of the first 64 primes, and of the square roots of the first 8.
\<close>

definition first_primes :: "int list" where
  "first_primes = [2, 3, 5, 7, 11, 13, 17, 19, 23, 29, 31, 37, 41, 43, 47, 53, 59, 61, 67, 71, 73, 79, 83, 89, 97, 101, 103, 107,
     109, 113, 127, 131, 137, 139, 149, 151, 157, 163, 167, 173, 179, 181, 191, 193, 197, 199, 211, 223, 227, 229, 233, 239, 241,
     251, 257, 263, 269, 271, 277, 281, 283, 293, 307, 311]"

definition root_bits :: "nat \<Rightarrow> w32 \<Rightarrow> int \<Rightarrow> int \<Rightarrow> bool" where
  "root_bits n k r p =
     (let c = 4294967296 * r + uint k in c ^ n \<le> p * 4294967296 ^ n \<and> p * 4294967296 ^ n < (c + 1) ^ n)"

lemma sha_constants:
  "list_all2 (\<lambda>k p. list_ex (\<lambda>r. root_bits 3 k r p) [1, 2, 3, 4, 5, 6]) sha_k first_primes"
  "list_all2 (\<lambda>k p. list_ex (\<lambda>r. root_bits 2 k r p) [1, 2, 3, 4]) sha_init (take 8 first_primes)"
  by code_simp+

definition rotr :: "nat \<Rightarrow> w32 \<Rightarrow> w32" where
  "rotr n x = drop_bit n x OR push_bit (32 - n) x"

definition ssig0 :: "w32 \<Rightarrow> w32" where "ssig0 x = rotr 7 x XOR rotr 18 x XOR drop_bit 3 x"
definition ssig1 :: "w32 \<Rightarrow> w32" where "ssig1 x = rotr 17 x XOR rotr 19 x XOR drop_bit 10 x"
definition bsig0 :: "w32 \<Rightarrow> w32" where "bsig0 x = rotr 2 x XOR rotr 13 x XOR rotr 22 x"
definition bsig1 :: "w32 \<Rightarrow> w32" where "bsig1 x = rotr 6 x XOR rotr 11 x XOR rotr 25 x"

text \<open>The message schedule, kept newest first: word \<open>i\<close> uses words \<open>i-2\<close>, \<open>i-7\<close>, \<open>i-15\<close>, \<open>i-16\<close>.\<close>

fun sha_schedule :: "nat \<Rightarrow> w32 list \<Rightarrow> w32 list" where
  "sha_schedule 0 ws = ws"
| "sha_schedule (Suc n) ws =
     sha_schedule n ((ssig1 (ws ! 1) + ws ! 6 + ssig0 (ws ! 14) + ws ! 15) # ws)"

definition sha_round :: "w32 \<times> w32 \<Rightarrow> w32 list \<Rightarrow> w32 list" where
  "sha_round kw st =
     (case st of
        [a, b, c, d, e, f, g, h] \<Rightarrow>
          (let t1 = h + bsig1 e + ((e AND f) XOR (NOT e AND g)) + fst kw + snd kw;
               t2 = bsig0 a + ((a AND b) XOR (a AND c) XOR (b AND c))
           in [t1 + t2, a, b, c, d + t1, e, f, g])
      | _ \<Rightarrow> st)"

definition sha_block :: "w32 list \<Rightarrow> w32 list \<Rightarrow> w32 list" where
  "sha_block block st = map2 (+) st (fold sha_round (zip sha_k (rev (sha_schedule 48 (rev block)))) st)"

text \<open>Bytes as big-endian words.\<close>

fun be_words :: "nat list \<Rightarrow> w32 list" where
  "be_words (a # b # c # d # rest) = word_of_nat (((a * 256 + b) * 256 + c) * 256 + d) # be_words rest"
| "be_words _ = []"

definition word_bytes :: "w32 \<Rightarrow> nat list" where
  "word_bytes w = (let n = unat w in [n div 16777216, n div 65536 mod 256, n div 256 mod 256, n mod 256])"

definition length_bytes :: "nat \<Rightarrow> nat list" where
  "length_bytes n = map (\<lambda>i. (8 * n) div 256 ^ i mod 256) (rev [0..<8])"

definition sha_pad :: "nat list \<Rightarrow> nat list" where
  "sha_pad msg = msg @ [128] @ replicate ((119 - length msg mod 64) mod 64) 0 @ length_bytes (length msg)"

fun sha_blocks :: "nat \<Rightarrow> w32 list \<Rightarrow> w32 list \<Rightarrow> w32 list" where
  "sha_blocks 0 ws st = st"
| "sha_blocks (Suc n) ws st = sha_blocks n (drop 16 ws) (sha_block (take 16 ws) st)"

definition Sum256 :: "string \<Rightarrow> nat list" where
  "Sum256 s =
     (let ws = be_words (sha_pad (map of_char s))
      in concat (map word_bytes (sha_blocks (length ws div 16) ws sha_init)))"

section \<open>Hexadecimal and base64\<close>

definition hex_digit :: "nat \<Rightarrow> char" where
  "hex_digit n = ''0123456789abcdef'' ! n"

definition hex_EncodeToString :: "nat list \<Rightarrow> string" where
  "hex_EncodeToString bs = concat (map (\<lambda>b. [hex_digit (b div 16), hex_digit (b mod 16)]) bs)"

definition url_digit :: "nat \<Rightarrow> char" where
  "url_digit n = ''ABCDEFGHIJKLMNOPQRSTUVWXYZabcdefghijklmnopqrstuvwxyz0123456789-_'' ! n"

fun base64_RawURL :: "nat list \<Rightarrow> string" where
  "base64_RawURL [] = []"
| "base64_RawURL [a] = [url_digit (a div 4), url_digit (a mod 4 * 16)]"
| "base64_RawURL [a, b] = [url_digit (a div 4), url_digit (a mod 4 * 16 + b div 16), url_digit (b mod 16 * 4)]"
| "base64_RawURL (a # b # c # rest) =
     [url_digit (a div 4), url_digit (a mod 4 * 16 + b div 16), url_digit (b mod 16 * 4 + c div 64),
      url_digit (c mod 64)] @ base64_RawURL rest"

section \<open>Shape of the results\<close>

lemma length_sha_round: "length (sha_round kw st) = length st"
  by (auto simp: sha_round_def Let_def split: list.splits)

lemma length_sha_block: "length (sha_block block st) = length st"
proof -
  have "length (fold sha_round ks st) = length st" for ks
    by (induction ks arbitrary: st) (simp_all add: length_sha_round)
  then show ?thesis by (simp add: sha_block_def)
qed

lemma length_sha_blocks: "length (sha_blocks n ws st) = length st"
  by (induction n ws st rule: sha_blocks.induct) (simp_all add: length_sha_block)

lemma length_Sum256: "length (Sum256 s) = 32"
proof -
  have four: "map (length \<circ> word_bytes) xs = replicate (length xs) 4" for xs
    by (induction xs) (simp_all add: word_bytes_def Let_def)
  show ?thesis
    by (simp add: Sum256_def Let_def length_concat four length_sha_blocks sha_init_def sum_list_replicate)
qed

lemma word_bytes_bound: "b \<in> set (word_bytes w) \<Longrightarrow> b < 256"
  using unsigned_less [of w, where ?'a = nat] by (auto simp: word_bytes_def Let_def less_mult_imp_div_less)

lemma Sum256_bytes: "b \<in> set (Sum256 s) \<Longrightarrow> b < 256"
  by (auto simp: Sum256_def Let_def dest: word_bytes_bound)

lemma length_hex: "length (hex_EncodeToString bs) = 2 * length bs"
  by (induction bs) (simp_all add: hex_EncodeToString_def)

text \<open>The padded message is a whole number of blocks, so every byte of it is hashed.\<close>

lemma length_sha_pad: "length (sha_pad msg) mod 64 = 0"
proof -
  define m where "m = length msg mod 64"
  have m: "m < 64" by (simp add: m_def)
  have pad: "(m + 1 + (119 - m) mod 64 + 8) mod 64 = 0"
  proof (cases "m \<le> 55")
    case True
    then have "(119 - m) mod 64 = 119 - m - 64" using le_mod_geq [of 64 "119 - m"] by simp
    then show ?thesis using True by simp
  qed (use m in simp)
  have "(length msg + (1 + (119 - m) mod 64 + 8)) mod 64 = (m + (1 + (119 - m) mod 64 + 8)) mod 64"
    unfolding m_def by (rule mod_add_left_eq [symmetric])
  then have "(length msg + (1 + (119 - m) mod 64 + 8)) mod 64 = 0" using pad by (simp add: add.left_commute)
  moreover have "length (sha_pad msg) = length msg + (1 + (119 - m) mod 64 + 8)"
    by (simp add: sha_pad_def length_bytes_def m_def)
  ultimately show ?thesis by simp
qed

end
