(* ===== verification/Tokens.thy ===== *)
theory Tokens
  imports Digest Config Entity GoText
begin

text \<open>
  \<open>pkg/utils\<close>: access tokens, random refresh tokens and their digests, passwords and
  captcha images. The JWT, bcrypt and captcha drawing packages are not part of the
  repository; each is a record of functions with a locale for what the code relies on, and
  a concrete instance that shows the laws can hold. Time, salts and random bytes are
  arguments.
\<close>

section \<open>Random tokens and digests\<close>

text \<open>\<open>rand.Read\<close> either fails or fills the buffer with 32 bytes.\<close>

definition Random :: "nat list option \<Rightarrow> string option" where
  "Random read = map_option base64_RawURL read"

definition HashToken :: "string \<Rightarrow> nat list" where
  "HashToken raw = Sum256 raw"

definition HashTokenHex :: "string \<Rightarrow> string" where
  "HashTokenHex raw = hex_EncodeToString (HashToken raw)"

lemma hex_digit_ascii: "n < 16 \<Longrightarrow> of_char (hex_digit n) < (128 :: nat)"
proof -
  have "\<forall>n \<in> set [0..<16]. of_char (hex_digit n) < (128 :: nat)" by code_simp
  then show "n < 16 \<Longrightarrow> of_char (hex_digit n) < (128 :: nat)" by simp
qed

lemma HashTokenHex_shape: "length (HashTokenHex raw) = 64" "is_ascii (HashTokenHex raw)"
proof -
  show "length (HashTokenHex raw) = 64" by (simp add: HashTokenHex_def HashToken_def length_hex length_Sum256)
  have "is_ascii (hex_EncodeToString bs)" if "\<forall>b \<in> set bs. b < 256" for bs
    using that by (induction bs) (simp_all add: hex_EncodeToString_def hex_digit_ascii less_mult_imp_div_less)
  then show "is_ascii (HashTokenHex raw)" by (simp add: HashTokenHex_def HashToken_def Sum256_bytes)
qed

lemma HashTokenHex_nonempty [simp]: "HashTokenHex raw \<noteq> []"
  using HashTokenHex_shape(1) [of raw] by auto

lemma HashTokenHex_utf8 [simp]: "valid_utf8 (HashTokenHex raw)"
  by (simp add: is_ascii_valid_utf8 HashTokenHex_shape)

lemma hex_digit_not_zero: "n < 16 \<Longrightarrow> hex_digit n \<noteq> CHR 0x00"
proof -
  have "\<forall>n \<in> set [0..<16]. hex_digit n \<noteq> CHR 0x00" by code_simp
  then show "n < 16 \<Longrightarrow> hex_digit n \<noteq> CHR 0x00" by simp
qed

lemma HashTokenHex_not_zero: "CHR 0x00 \<notin> set (HashTokenHex raw)"
proof -
  have "CHR 0x00 \<notin> set (hex_EncodeToString bs)" if "\<forall>b \<in> set bs. b < 256" for bs
    using that
    by (induction bs) (simp_all add: hex_EncodeToString_def hex_digit_not_zero [symmetric] less_mult_imp_div_less)
  then show ?thesis by (simp add: HashTokenHex_def HashToken_def Sum256_bytes)
qed

section \<open>Access tokens\<close>

record Manager =
  secret :: string
  issuer :: string
  audience :: string
  m_ttl :: duration

record AccessIdentity =
  ai_UserID :: string
  ai_SessionID :: string
  ai_AccessJTI :: string

record accessClaims =
  cl_SessionID :: string
  cl_Issuer :: string
  cl_Subject :: string
  cl_Audience :: "string list"
  cl_ID :: string
  cl_IssuedAt :: "instant option"
  cl_ExpiresAt :: "instant option"

record parse_options =
  WithIssuer :: string
  WithAudience :: string
  WithExpirationRequired :: bool
  WithIssuedAt :: bool

text \<open>Signing with HS256, and parsing: the key function is asked for the key of the token's
  algorithm; the boolean is the token's \<open>Valid\<close> field.\<close>

record jwt_lib =
  jwt_SignedString :: "string \<Rightarrow> accessClaims \<Rightarrow> string option"
  jwt_ParseWithClaims ::
    "instant \<Rightarrow> string \<Rightarrow> (string \<Rightarrow> string option) \<Rightarrow> parse_options \<Rightarrow> (accessClaims \<times> bool) option"

text \<open>\<open>jwt.NewNumericDate\<close> truncates to seconds.\<close>

definition NewNumericDate :: "instant \<Rightarrow> instant" where
  "NewNumericDate t = t div second * second"

definition NewJWTManager :: "AuthConfig \<Rightarrow> Manager" where
  "NewJWTManager cfg =
     \<lparr>secret = JWTSecret cfg, issuer = Issuer cfg, audience = Audience cfg, m_ttl = AccessTokenTTL cfg\<rparr>"

definition Manager_Issue :: "jwt_lib \<Rightarrow> Manager \<Rightarrow> instant \<Rightarrow> string \<Rightarrow> string \<Rightarrow> string \<Rightarrow> string option" where
  "Manager_Issue J m now userID sessionID accessJTI =
     (let claims = \<lparr>cl_SessionID = sessionID, cl_Issuer = issuer m, cl_Subject = userID,
                    cl_Audience = [audience m], cl_ID = accessJTI,
                    cl_IssuedAt = Some (NewNumericDate now),
                    cl_ExpiresAt = Some (NewNumericDate (now + m_ttl m))\<rparr>
      in jwt_SignedString J (secret m) claims)"

definition Manager_Parse :: "jwt_lib \<Rightarrow> Manager \<Rightarrow> instant \<Rightarrow> string \<Rightarrow> string + AccessIdentity" where
  "Manager_Parse J m now raw =
     (case jwt_ParseWithClaims J now raw
             (\<lambda>alg. if alg \<noteq> ''HS256'' then None else Some (secret m))
             \<lparr>WithIssuer = issuer m, WithAudience = audience m, WithExpirationRequired = True, WithIssuedAt = True\<rparr> of
        None \<Rightarrow> Inl ''invalid access token''
      | Some (claims, valid) \<Rightarrow>
          if \<not> valid \<or> cl_Subject claims = [] \<or> cl_ID claims = [] \<or> cl_IssuedAt claims = None
          then Inl ''invalid access token''
          else if cl_SessionID claims = [] then Inl ''missing access token session''
          else Inr \<lparr>ai_UserID = cl_Subject claims, ai_SessionID = cl_SessionID claims, ai_AccessJTI = cl_ID claims\<rparr>)"

text \<open>
  What the package checks of the claims, with the options the server passes; an empty issuer
  option turns that check off.
\<close>

definition claims_valid :: "instant \<Rightarrow> parse_options \<Rightarrow> accessClaims \<Rightarrow> bool" where
  "claims_valid now opts cl =
     ((case cl_ExpiresAt cl of None \<Rightarrow> \<not> WithExpirationRequired opts | Some e \<Rightarrow> now < e)
      \<and> (case cl_IssuedAt cl of None \<Rightarrow> True | Some i \<Rightarrow> WithIssuedAt opts \<longrightarrow> i \<le> now)
      \<and> (WithIssuer opts = [] \<or> cl_Issuer cl = WithIssuer opts)
      \<and> WithAudience opts \<in> set (cl_Audience cl))"

definition plain_claims :: "accessClaims \<Rightarrow> bool" where
  "plain_claims cl =
     (valid_utf8 (cl_SessionID cl) \<and> valid_utf8 (cl_Issuer cl) \<and> valid_utf8 (cl_Subject cl)
      \<and> valid_utf8 (cl_ID cl) \<and> list_all valid_utf8 (cl_Audience cl)
      \<and> pred_option (\<lambda>t. second dvd t) (cl_IssuedAt cl) \<and> pred_option (\<lambda>t. second dvd t) (cl_ExpiresAt cl))"

locale jwt_library =
  fixes J :: jwt_lib
  assumes parse_signed:
    "jwt_SignedString J key cl = Some raw \<Longrightarrow> plain_claims cl \<Longrightarrow> kf ''HS256'' = Some key \<Longrightarrow>
     claims_valid now opts cl \<Longrightarrow> jwt_ParseWithClaims J now raw kf opts = Some (cl, True)"
    and parse_claims:
    "jwt_SignedString J key cl = Some raw \<Longrightarrow> plain_claims cl \<Longrightarrow>
     jwt_ParseWithClaims J now raw kf opts = Some (cl', v) \<Longrightarrow> cl' = cl"
    and parse_valid:
    "jwt_ParseWithClaims J now raw kf opts = Some (cl, True) \<Longrightarrow> claims_valid now opts cl"
    and parse_no_key: "(\<And>alg. kf alg = None) \<Longrightarrow> jwt_ParseWithClaims J now raw kf opts = None"
begin

text \<open>A token the manager issued is parsed back from its issue until its expiry, and never after.\<close>

lemma Issue_Parse:
  assumes "Manager_Issue J m now u sid jti = Some raw" "u \<noteq> []" "sid \<noteq> []" "jti \<noteq> []"
    and "valid_utf8 u" "valid_utf8 sid" "valid_utf8 jti" "valid_utf8 (issuer m)" "valid_utf8 (audience m)"
    and "now \<le> t" "t < NewNumericDate (now + m_ttl m)"
  shows "Manager_Parse J m t raw = Inr \<lparr>ai_UserID = u, ai_SessionID = sid, ai_AccessJTI = jti\<rparr>"
proof -
  let ?cl = "\<lparr>cl_SessionID = sid, cl_Issuer = issuer m, cl_Subject = u, cl_Audience = [audience m], cl_ID = jti,
    cl_IssuedAt = Some (NewNumericDate now), cl_ExpiresAt = Some (NewNumericDate (now + m_ttl m))\<rparr>"
  have signed: "jwt_SignedString J (secret m) ?cl = Some raw" using assms(1) by (simp add: Manager_Issue_def)
  have plain: "plain_claims ?cl" using assms(5-9) by (simp add: plain_claims_def NewNumericDate_def)
  have "NewNumericDate now \<le> t"
    using assms(10) minus_mod_eq_div_mult [of now second] by (simp add: NewNumericDate_def)
  then have "claims_valid t \<lparr>WithIssuer = issuer m, WithAudience = audience m, WithExpirationRequired = True,
      WithIssuedAt = True\<rparr> ?cl"
    using assms(11) by (simp add: claims_valid_def)
  then show ?thesis
    using parse_signed [OF signed plain] assms(2-4) by (simp add: Manager_Parse_def)
qed

lemma Issue_expired:
  assumes "Manager_Issue J m now u sid jti = Some raw"
    and "valid_utf8 u" "valid_utf8 sid" "valid_utf8 jti" "valid_utf8 (issuer m)" "valid_utf8 (audience m)"
    and "NewNumericDate (now + m_ttl m) \<le> t"
  shows "Manager_Parse J m' t raw = Inl ''invalid access token''"
proof -
  let ?cl = "\<lparr>cl_SessionID = sid, cl_Issuer = issuer m, cl_Subject = u, cl_Audience = [audience m], cl_ID = jti,
    cl_IssuedAt = Some (NewNumericDate now), cl_ExpiresAt = Some (NewNumericDate (now + m_ttl m))\<rparr>"
  have signed: "jwt_SignedString J (secret m) ?cl = Some raw" using assms(1) by (simp add: Manager_Issue_def)
  have plain: "plain_claims ?cl" using assms(2-6) by (simp add: plain_claims_def NewNumericDate_def)
  have "\<not> claims_valid t opts ?cl" for opts using assms(7) by (simp add: claims_valid_def)
  then have "jwt_ParseWithClaims J t raw kf opts \<noteq> Some (cl, True)" for kf opts cl
    using parse_claims [OF signed plain] parse_valid by blast
  then show ?thesis by (auto simp: Manager_Parse_def split: option.splits)
qed

lemma Parse_valid:
  assumes "Manager_Parse J m t raw = Inr i"
  shows "ai_UserID i \<noteq> [] \<and> ai_SessionID i \<noteq> [] \<and> ai_AccessJTI i \<noteq> []"
  using assms by (auto simp: Manager_Parse_def split: option.splits if_splits)

end

subsection \<open>An instance of the JWT contract\<close>

text \<open>A transparent encoding of key and claims, with length marks so that it can be read back.\<close>

definition put_str :: "string \<Rightarrow> string" where
  "put_str s = concat (map (\<lambda>c. [CHR ''.'', c]) s) @ ''!''"

fun get_str :: "string \<Rightarrow> (string \<times> string) option" where
  "get_str (t # c # rest) =
     (if t = CHR ''!'' then Some ([], c # rest) else map_option (\<lambda>(s, r). (c # s, r)) (get_str rest))"
| "get_str [t] = (if t = CHR ''!'' then Some ([], []) else None)"
| "get_str [] = None"

lemma get_put_str [simp]: "get_str (put_str s @ rest) = Some (s, rest)"
  by (induction s) (auto simp: put_str_def neq_Nil_conv, cases rest, auto)

definition put_date :: "instant option \<Rightarrow> string" where
  "put_date d = (case d of None \<Rightarrow> put_str [] | Some i \<Rightarrow> put_str ((if i < 0 then CHR ''-'' else CHR ''+'') # replicate (nat \<bar>i\<bar>) CHR ''1''))"

definition get_date :: "string \<Rightarrow> instant option \<times> string" where
  "get_date s =
     (case get_str s of
        Some (c # ds, r) \<Rightarrow> (Some (if c = CHR ''-'' then - int (length ds) else int (length ds)), r)
      | Some ([], r) \<Rightarrow> (None, r)
      | None \<Rightarrow> (None, []))"

lemma get_put_date [simp]: "get_date (put_date d @ rest) = (d, rest)"
  by (auto simp: get_date_def put_date_def split: option.splits)

fun put_strs :: "string list \<Rightarrow> string" where
  "put_strs [] = ''0''"
| "put_strs (s # ss) = CHR ''1'' # put_str s @ put_strs ss"

fun get_strs :: "nat \<Rightarrow> string \<Rightarrow> string list \<times> string" where
  "get_strs 0 s = ([], s)"
| "get_strs (Suc n) (c # s) =
     (if c = CHR ''0'' then ([], s)
      else case get_str s of None \<Rightarrow> ([], s) | Some (x, r) \<Rightarrow> (case get_strs n r of (xs, r') \<Rightarrow> (x # xs, r')))"
| "get_strs (Suc n) [] = ([], [])"

lemma get_put_strs [simp]: "length ss < n \<Longrightarrow> get_strs n (put_strs ss @ rest) = (ss, rest)"
proof (induction ss arbitrary: n)
  case Nil
  then show ?case by (cases n) simp_all
next
  case (Cons s ss)
  then show ?case by (cases n) simp_all
qed

definition seal :: "string \<Rightarrow> accessClaims \<Rightarrow> string" where
  "seal key cl =
     put_str key @ put_str (cl_SessionID cl) @ put_str (cl_Issuer cl) @ put_str (cl_Subject cl) @ put_str (cl_ID cl)
     @ put_date (cl_IssuedAt cl) @ put_date (cl_ExpiresAt cl) @ put_strs (cl_Audience cl)"

definition unseal :: "string \<Rightarrow> (string \<times> accessClaims) option" where
  "unseal raw =
     Option.bind (get_str raw) (\<lambda>(key, r0).
     Option.bind (get_str r0) (\<lambda>(sid, r1).
     Option.bind (get_str r1) (\<lambda>(iss, r2).
     Option.bind (get_str r2) (\<lambda>(sub, r3).
     Option.bind (get_str r3) (\<lambda>(jti, r4).
       let (iat, r5) = get_date r4; (ex, r6) = get_date r5 in
       Some (key, \<lparr>cl_SessionID = sid, cl_Issuer = iss, cl_Subject = sub,
          cl_Audience = fst (get_strs (Suc (length r6)) r6), cl_ID = jti, cl_IssuedAt = iat, cl_ExpiresAt = ex\<rparr>))))))"

lemma unseal_seal [simp]: "unseal (seal key cl) = Some (key, cl)"
proof -
  have "length ss \<le> length (put_strs ss)" for ss by (induction ss) simp_all
  then have "get_strs (Suc (length (put_strs ss))) (put_strs ss) = (ss, [])" for ss
    using get_put_strs [of ss "Suc (length (put_strs ss))" "[]"] by (simp add: le_imp_less_Suc)
  then show ?thesis by (simp add: unseal_def seal_def)
qed

definition plain_jwt :: jwt_lib where
  "plain_jwt =
     \<lparr>jwt_SignedString = (\<lambda>key cl. Some (seal key cl)),
      jwt_ParseWithClaims = (\<lambda>now raw kf opts.
        case (kf ''HS256'', unseal raw) of
          (Some key, Some (key', cl)) \<Rightarrow> if key' = key \<and> claims_valid now opts cl then Some (cl, True) else None
        | _ \<Rightarrow> None)\<rparr>"

interpretation plain_jwt: jwt_library plain_jwt
  by unfold_locales (auto simp: plain_jwt_def split: option.splits if_splits)

section \<open>Passwords\<close>

record bcrypt_lib =
  bc_GenerateFromPassword :: "string \<Rightarrow> string \<Rightarrow> string option"
  bc_CompareHashAndPassword :: "string \<Rightarrow> string \<Rightarrow> bool"

text \<open>The salt that the package draws is an argument.\<close>

definition HashPassword :: "bcrypt_lib \<Rightarrow> string \<Rightarrow> string \<Rightarrow> string option" where
  "HashPassword B salt value = bc_GenerateFromPassword B salt value"

definition Compare :: "bcrypt_lib \<Rightarrow> string \<Rightarrow> string \<Rightarrow> bool" where
  "Compare B hash value = bc_CompareHashAndPassword B hash value"

text \<open>The package refuses passwords of more than 72 bytes and accepts the others; a hash is
  printable ASCII text.\<close>

locale bcrypt_library =
  fixes B :: bcrypt_lib
  assumes generate_short: "length v \<le> 72 \<Longrightarrow> bc_GenerateFromPassword B salt v \<noteq> None"
    and generate_long: "72 < length v \<Longrightarrow> bc_GenerateFromPassword B salt v = None"
    and generate_text: "bc_GenerateFromPassword B salt v = Some h \<Longrightarrow> is_ascii h \<and> CHR 0x00 \<notin> set h"
    and compare_generated: "bc_GenerateFromPassword B salt v = Some h \<Longrightarrow> bc_CompareHashAndPassword B h v"
begin

lemma HashPassword_Compare: "length v \<le> 72 \<Longrightarrow> \<exists>h. HashPassword B salt v = Some h \<and> Compare B h v"
  using generate_short [of v salt] compare_generated by (auto simp: HashPassword_def Compare_def)

end

definition plain_bcrypt :: bcrypt_lib where
  "plain_bcrypt =
     \<lparr>bc_GenerateFromPassword = (\<lambda>salt v. if length v \<le> 72 then Some (CHR ''$'' # HashTokenHex v) else None),
      bc_CompareHashAndPassword = (\<lambda>h v. h = CHR ''$'' # HashTokenHex v)\<rparr>"

interpretation plain_bcrypt: bcrypt_library plain_bcrypt
  by unfold_locales (auto simp: plain_bcrypt_def HashTokenHex_shape HashTokenHex_not_zero split: if_splits)

section \<open>Captcha images\<close>

definition captchaSource :: string where
  "captchaSource = ''23456789ABCDEFGHJKLMNPQRSTUVWXYZ''"

record DriverString =
  dr_Height :: int
  dr_Width :: int
  dr_NoiseCount :: int
  dr_ShowLineOptions :: "string list"
  dr_Length :: int
  dr_Source :: string

definition NewImageCaptcha :: "CaptchaConfig \<Rightarrow> DriverString" where
  "NewImageCaptcha cfg =
     \<lparr>dr_Height = Height cfg, dr_Width = Width cfg, dr_NoiseCount = Length cfg,
      dr_ShowLineOptions = [''OptionShowHollowLine'', ''OptionShowSineLine''],
      dr_Length = Length cfg, dr_Source = captchaSource\<rparr>"

text \<open>The drawing package: a question with its answer, drawn at random, and the picture.\<close>

record captcha_lib =
  cap_GenerateIdQuestionAnswer :: "DriverString \<Rightarrow> nat \<Rightarrow> string \<times> string"
  cap_DrawCaptcha :: "DriverString \<Rightarrow> string \<Rightarrow> string option"

definition ImageCaptcha_Generate ::
    "unicode_tables \<Rightarrow> captcha_lib \<Rightarrow> DriverString option \<Rightarrow> nat \<Rightarrow> string \<Rightarrow> string + string \<times> string \<times> string" where
  "ImageCaptcha_Generate U C g seed uuid =
     (case g of
        None \<Rightarrow> Inl ''captcha generator is not initialized''
      | Some driver \<Rightarrow>
          (let (content, answer) = cap_GenerateIdQuestionAnswer C driver seed in
           case cap_DrawCaptcha C driver content of
             None \<Rightarrow> Inl ''draw captcha''
           | Some item \<Rightarrow> Inr (uuid, item, ToUpper U answer)))"

section \<open>Properties\<close>

text \<open>
  C35 (roundtrip). An access token carries its identity: for non-empty ids, \<open>Parse\<close> of what
  \<open>Issue\<close> signed gives the same user, session and token id at every moment from the issue
  until the expiry (truncated to the second), and is refused from then on, whatever manager
  parses it.
\<close>

theorem access_token_lifetime:
  assumes "jwt_library J" "Manager_Issue J m now u sid jti = Some raw" "u \<noteq> []" "sid \<noteq> []" "jti \<noteq> []"
    and "valid_utf8 u" "valid_utf8 sid" "valid_utf8 jti" "valid_utf8 (issuer m)" "valid_utf8 (audience m)" "now \<le> t"
  shows "if t < NewNumericDate (now + m_ttl m)
    then Manager_Parse J m t raw = Inr \<lparr>ai_UserID = u, ai_SessionID = sid, ai_AccessJTI = jti\<rparr>
    else Manager_Parse J m' t raw = Inl ''invalid access token''"
proof (cases "t < NewNumericDate (now + m_ttl m)")
  case True
  from jwt_library.Issue_Parse [OF assms True] True show ?thesis by simp
next
  case False
  then have "NewNumericDate (now + m_ttl m) \<le> t" by simp
  from jwt_library.Issue_expired [OF assms(1,2,6-10) this] False show ?thesis by simp
qed

definition demo_manager :: Manager where
  "demo_manager = \<lparr>secret = replicate 32 CHR ''k'', issuer = ''iss'', audience = ''aud'', m_ttl = 15 * minute\<rparr>"

theorem access_token_lifetime_witness:
  "\<exists>raw. Manager_Issue plain_jwt demo_manager 0 ''u1'' ''s1'' ''j1'' = Some raw
    \<and> Manager_Parse plain_jwt demo_manager (14 * minute) raw = Inr \<lparr>ai_UserID = ''u1'', ai_SessionID = ''s1'', ai_AccessJTI = ''j1''\<rparr>
    \<and> Manager_Parse plain_jwt demo_manager (15 * minute) raw = Inl ''invalid access token''"
proof -
  let ?raw = "the (Manager_Issue plain_jwt demo_manager 0 ''u1'' ''s1'' ''j1'')"
  have raw: "Manager_Issue plain_jwt demo_manager 0 ''u1'' ''s1'' ''j1'' = Some ?raw"
    by (simp add: Manager_Issue_def plain_jwt_def)
  have "Manager_Parse plain_jwt demo_manager (14 * minute) ?raw = Inr \<lparr>ai_UserID = ''u1'', ai_SessionID = ''s1'', ai_AccessJTI = ''j1''\<rparr>
    \<and> Manager_Parse plain_jwt demo_manager (15 * minute) ?raw = Inl ''invalid access token''"
    using access_token_lifetime [OF plain_jwt.jwt_library_axioms raw, of "14 * minute" demo_manager]
      access_token_lifetime [OF plain_jwt.jwt_library_axioms raw, of "15 * minute" demo_manager]
    by (simp add: demo_manager_def NewNumericDate_def is_ascii_valid_utf8)
  then show ?thesis using raw by blast
qed

text \<open>
  A freshly drawn captcha is readable back: its answer, drawn from
  \<open>captchaSource\<close>, is stored in capitals, and typing it in any mix of cases gives that
  stored answer.
\<close>

theorem captcha_answer_case:
  assumes "ImageCaptcha_Generate U C (Some driver) seed uuid = Inr (cid, picture, answer)"
    and "set (snd (cap_GenerateIdQuestionAnswer C driver seed)) \<subseteq> set captchaSource"
    and "map ascii_upper attempt = map ascii_upper (snd (cap_GenerateIdQuestionAnswer C driver seed))" "is_ascii attempt"
  shows "cid = uuid \<and> answer = snd (cap_GenerateIdQuestionAnswer C driver seed) \<and> ToUpper U attempt = answer"
proof -
  let ?a = "snd (cap_GenerateIdQuestionAnswer C driver seed)"
  have src: "\<forall>c \<in> set captchaSource. of_char c < (128 :: nat) \<and> ascii_upper c = c" by code_simp
  then have "is_ascii ?a" and up: "map ascii_upper ?a = ?a" using assms(2) by (auto simp: is_ascii_set intro: map_idI)
  then show ?thesis
    using assms by (auto simp: ImageCaptcha_Generate_def Let_def ToUpper_ascii split: prod.splits option.splits)
qed

definition demo_captcha_lib :: captcha_lib where
  "demo_captcha_lib =
     \<lparr>cap_GenerateIdQuestionAnswer = (\<lambda>d n. (''AB23'', ''AB23'')), cap_DrawCaptcha = (\<lambda>d c. Some ''data:image/png;base64,'')\<rparr>"

theorem captcha_answer_case_witness:
  "ToUpper \<lparr>uni_lower = id, uni_upper = id\<rparr> ''aB23'' = ''AB23''"
proof -
  let ?U = "\<lparr>uni_lower = id, uni_upper = id\<rparr>" and ?d = "NewImageCaptcha (Captcha defaults)"
  have "ImageCaptcha_Generate ?U demo_captcha_lib (Some ?d) 0 ''c1'' = Inr (''c1'', ''data:image/png;base64,'', ''AB23'')"
    by (simp add: ImageCaptcha_Generate_def demo_captcha_lib_def ToUpper_def) code_simp
  moreover have "map ascii_upper ''aB23'' = map ascii_upper ''AB23''" by code_simp
  ultimately show ?thesis
    using captcha_answer_case [of ?U demo_captcha_lib ?d 0 "''c1''" "''c1''" _ "''AB23''" "''aB23''"]
    by (simp add: demo_captcha_lib_def captchaSource_def)
qed

text \<open>
  Every digest that becomes a Redis key has exactly 64 ASCII characters,
  whatever the presented token is, the empty one and invalid UTF-8 included.
\<close>

theorem digest_shape: "length (HashTokenHex raw) = 64 \<and> is_ascii (HashTokenHex raw)"
  by (simp add: HashTokenHex_shape)

end
