(* ===== verification/Http.thy ===== *)
theory Http
  imports Entity
begin

text \<open>
  The part of a gin context the server uses. A handler maps the context and the outside
  world (stores, database) to the new context and world; a middleware is a handler with the
  rest of the chain as an argument, run by \<open>c.Next()\<close>. A panic is the third component of
  the result. What gin and its binder do with the raw request (routing, cookies, JSON
  binding) enters as data of the request.
\<close>

section \<open>Requests and contexts\<close>

record request =
  rq_Method :: string
  rq_Path :: string
  rq_Header :: "string \<Rightarrow> string"
  rq_Cookie :: "string \<Rightarrow> string option"
  rq_ID :: string
  rq_ClientIP :: string
  rq_ContentLength :: int

record cookie =
  ck_Name :: string
  ck_Value :: string
  ck_Path :: string
  ck_HttpOnly :: bool
  ck_Secure :: bool
  ck_SameSite :: string
  ck_Expires :: "instant option"
  ck_MaxAge :: int

record access_entry =
  lg_request_id :: string
  lg_method :: string
  lg_path :: string
  lg_status :: int
  lg_error :: "data_error option"

record ctx =
  Request :: request
  Status :: int
  Written :: bool
  Body :: "response option"
  OutHeader :: "string \<rightharpoonup> string"
  SetCookies :: "cookie list"
  Aborted :: bool
  principal_key :: "principal option"
  request_id_key :: string
  BodyReader :: "int option"
  Errors :: "data_error list"
  AccessLog :: "access_entry list"

type_synonym 'w handler = "ctx \<Rightarrow> 'w \<Rightarrow> ctx \<times> 'w \<times> string option"

definition new_ctx :: "request \<Rightarrow> ctx" where
  "new_ctx r =
     \<lparr>Request = r, Status = 200, Written = False, Body = None, OutHeader = Map.empty, SetCookies = [],
      Aborted = False, principal_key = None, request_id_key = [], BodyReader = None, Errors = [], AccessLog = []\<rparr>"

text \<open>Results of \<open>ShouldBindJSON\<close> and \<open>ShouldBindQuery\<close>: the bound value, a body over the
  limit (\<open>http.MaxBytesError\<close>), or another error.\<close>

datatype 'a bind = BindOk 'a | BindTooLarge | BindErr

section \<open>Writing a response\<close>

definition ctx_JSON :: "int \<Rightarrow> response \<Rightarrow> ctx \<Rightarrow> ctx" where
  "ctx_JSON status r c = c\<lparr>Status := status, Written := True, Body := Some r\<rparr>"

definition AbortWithStatusJSON :: "int \<Rightarrow> response \<Rightarrow> ctx \<Rightarrow> ctx" where
  "AbortWithStatusJSON status r c = (ctx_JSON status r c)\<lparr>Aborted := True\<rparr>"

definition AbortWithStatus :: "int \<Rightarrow> ctx \<Rightarrow> ctx" where
  "AbortWithStatus status c = c\<lparr>Status := status, Written := True, Aborted := True\<rparr>"

definition set_header :: "string \<Rightarrow> string \<Rightarrow> ctx \<Rightarrow> ctx" where
  "set_header k v c = c\<lparr>OutHeader := (OutHeader c)(k := if v = [] then None else Some v)\<rparr>"

definition SetCookie :: "cookie \<Rightarrow> ctx \<Rightarrow> ctx" where
  "SetCookie k c = c\<lparr>SetCookies := SetCookies c @ [k]\<rparr>"

abbreviation GetHeader :: "ctx \<Rightarrow> string \<Rightarrow> string" where
  "GetHeader c k \<equiv> rq_Header (Request c) k"

text \<open>A handler that cannot panic.\<close>

definition returns :: "(ctx \<Rightarrow> 'w \<Rightarrow> ctx \<times> 'w) \<Rightarrow> 'w handler" where
  "returns h c w = (case h c w of (c', w') \<Rightarrow> (c', w', None))"

lemmas [handler_defs] = ctx_JSON_def AbortWithStatusJSON_def AbortWithStatus_def set_header_def SetCookie_def

lemma ctx_JSON_simps [simp]:
  "Status (ctx_JSON s r c) = s" "Body (ctx_JSON s r c) = Some r" "Aborted (ctx_JSON s r c) = Aborted c"
  "SetCookies (ctx_JSON s r c) = SetCookies c" "principal_key (ctx_JSON s r c) = principal_key c"
  "OutHeader (ctx_JSON s r c) = OutHeader c" "Request (ctx_JSON s r c) = Request c" "Written (ctx_JSON s r c)"
  by (simp_all add: ctx_JSON_def)

lemma AbortWithStatusJSON_simps [simp]:
  "Status (AbortWithStatusJSON s r c) = s" "Body (AbortWithStatusJSON s r c) = Some r" "Aborted (AbortWithStatusJSON s r c)"
  "SetCookies (AbortWithStatusJSON s r c) = SetCookies c" "principal_key (AbortWithStatusJSON s r c) = principal_key c"
  "OutHeader (AbortWithStatusJSON s r c) = OutHeader c" "Request (AbortWithStatusJSON s r c) = Request c"
  "Written (AbortWithStatusJSON s r c)"
  by (simp_all add: AbortWithStatusJSON_def)

lemma SetCookie_simps [simp]:
  "SetCookies (SetCookie k c) = SetCookies c @ [k]" "Status (SetCookie k c) = Status c" "Body (SetCookie k c) = Body c"
  "Aborted (SetCookie k c) = Aborted c" "principal_key (SetCookie k c) = principal_key c" "Request (SetCookie k c) = Request c"
  by (simp_all add: SetCookie_def)

end
