(* ===== verification/Middleware.thy ===== *)
theory Middleware
  imports Http Tokens
begin

text \<open>
  \<open>pkg/middleware\<close>: request ids, access log, panic recovery, CORS, the origin check, the
  body limit and the authorisation of protected routes. The stores are reached through the
  interface the code declares (\<open>AuthSessionReader\<close>), an argument \<open>get_session\<close>.
\<close>

section \<open>auth.go\<close>

definition abortJSON :: "ctx \<Rightarrow> int \<Rightarrow> string \<Rightarrow> string \<Rightarrow> ctx" where
  "abortJSON c status message code = AbortWithStatusJSON status (FailWithCode message code) c"

definition required_handler ::
    "(string \<Rightarrow> string + AccessIdentity) \<Rightarrow> (string \<Rightarrow> 'w \<Rightarrow> (data_error + auth_session) \<times> 'w) \<Rightarrow> role set \<Rightarrow>
     'w handler \<Rightarrow> 'w handler" where
  "required_handler parse get_session allowed next c w =
     (let parts = Fields (GetHeader c ''Authorization'') in
      if length parts \<noteq> 2 \<or> parts ! 0 \<noteq> ''Bearer''
      then (abortJSON c 401 ''authentication required'' ''UNAUTHORIZED'', w, None)
      else
        (case parse (parts ! 1) of
           Inl _ \<Rightarrow> (abortJSON c 401 ''authentication required'' ''UNAUTHORIZED'', w, None)
         | Inr identity \<Rightarrow>
             (case get_session (ai_SessionID identity) w of
                (Inl ErrNotFound, w1) \<Rightarrow>
                  (abortJSON c 401 ''authentication required'' ''UNAUTHORIZED'', w1, None)
              | (Inl err, w1) \<Rightarrow>
                  (abortJSON (c\<lparr>Errors := Errors c @ [err]\<rparr>) 503 ''service temporarily unavailable''
                     ''SERVICE_UNAVAILABLE'', w1, None)
              | (Inr session, w1) \<Rightarrow>
                  if \<not> s_Active session \<or> \<not> Valid (s_Role session) \<or> s_UserID session \<noteq> ai_UserID identity
                     \<or> s_AccessJTI session \<noteq> ai_AccessJTI identity
                  then (abortJSON c 401 ''authentication required'' ''UNAUTHORIZED'', w1, None)
                  else if s_Role session \<notin> allowed
                  then (abortJSON c 403 ''permission denied'' ''FORBIDDEN'', w1, None)
                  else next (c\<lparr>principal_key := Some (Principal session (ai_SessionID identity))\<rparr>) w1)))"

text \<open>\<open>Required\<close> panics while the routes are built when a role is unknown or none is given:
  \<^const>\<open>None\<close>.\<close>

fun allow_roles :: "role list \<Rightarrow> role set option" where
  "allow_roles [] = Some {}"
| "allow_roles (r # rs) = (if \<not> Valid r then None else map_option (insert r) (allow_roles rs))"

definition Required ::
    "(string \<Rightarrow> string + AccessIdentity) \<Rightarrow> (string \<Rightarrow> 'w \<Rightarrow> (data_error + auth_session) \<times> 'w) \<Rightarrow> role list \<Rightarrow>
     ('w handler \<Rightarrow> 'w handler) option" where
  "Required parse get_session roles =
     (case allow_roles roles of
        None \<Rightarrow> None
      | Some allowed \<Rightarrow>
          if allowed = {} then None else Some (required_handler parse get_session allowed))"

definition CurrentPrincipal :: "ctx \<Rightarrow> principal option" where
  "CurrentPrincipal c = principal_key c"

section \<open>request_id.go\<close>

definition maxRequestIDLength :: nat where "maxRequestIDLength = 128"

definition request_id_char :: "char \<Rightarrow> bool" where
  "request_id_char c =
     (let n = of_char c :: nat in
      (97 \<le> n \<and> n \<le> 122) \<or> (65 \<le> n \<and> n \<le> 90) \<or> (48 \<le> n \<and> n \<le> 57) \<or> n = 45 \<or> n = 95)"

definition validRequestID :: "string \<Rightarrow> bool" where
  "validRequestID rid =
     (if rid = [] \<or> length rid > maxRequestIDLength then False else list_all request_id_char rid)"

definition RequestID :: "string \<Rightarrow> 'w handler \<Rightarrow> 'w handler" where
  "RequestID new_uuid next c w =
     (let rid = GetHeader c ''X-Request-ID'';
          rid = (if \<not> validRequestID rid then new_uuid else rid)
      in next (set_header ''X-Request-ID'' rid (c\<lparr>request_id_key := rid\<rparr>)) w)"

section \<open>cors.go\<close>

definition originSet :: "string list \<Rightarrow> string set" where
  "originSet origins = set origins"

definition CORS :: "string list \<Rightarrow> 'w handler \<Rightarrow> 'w handler" where
  "CORS allowed next c w =
     (let origin = GetHeader c ''Origin'' in
      if origin = [] then next c w
      else if origin \<notin> originSet allowed then next c w
      else
        (let c = set_header ''Access-Control-Allow-Origin'' origin c;
             c = set_header ''Vary'' ''Origin'' c;
             c = set_header ''Access-Control-Allow-Credentials'' ''true'' c;
             c = set_header ''Access-Control-Allow-Headers'' ''Authorization, Content-Type, X-Request-ID'' c;
             c = set_header ''Access-Control-Expose-Headers'' ''X-Request-ID'' c;
             c = set_header ''Access-Control-Allow-Methods'' ''GET, POST, PATCH, DELETE, OPTIONS'' c
         in if rq_Method (Request c) = ''OPTIONS'' then (AbortWithStatus 204 c, w, None)
            else next c w))"

definition RequireAllowedOrigin :: "(string \<Rightarrow> uri option) \<Rightarrow> string list \<Rightarrow> 'w handler \<Rightarrow> 'w handler" where
  "RequireAllowedOrigin parse_uri allowed next c w =
     (let origin = GetHeader c ''Origin'' in
      if origin = [] then next c w
      else
        (case parse_uri origin of
           None \<Rightarrow> (abortJSON c 403 ''request origin is not allowed'' ''FORBIDDEN'', w, None)
         | Some parsed \<Rightarrow>
             if Scheme parsed = [] \<or> Host parsed = []
             then (abortJSON c 403 ''request origin is not allowed'' ''FORBIDDEN'', w, None)
             else if origin \<notin> originSet allowed
             then (abortJSON c 403 ''request origin is not allowed'' ''FORBIDDEN'', w, None)
             else next c w))"

section \<open>body_limit.go, recovery.go, access_log.go\<close>

definition BodyLimit :: "int \<Rightarrow> 'w handler \<Rightarrow> 'w handler" where
  "BodyLimit limit next c w =
     (if rq_ContentLength (Request c) > limit
      then (abortJSON c 413 ''request body too large'' ''PAYLOAD_TOO_LARGE'', w, None)
      else next (c\<lparr>BodyReader := Some limit\<rparr>) w)"

text \<open>The deferred function: a panic of the rest of the chain ends here.\<close>

definition Recovery :: "'w handler \<Rightarrow> 'w handler" where
  "Recovery next c w =
     (case next c w of
        (c', w', None) \<Rightarrow> (c', w', None)
      | (c', w', Some recovered) \<Rightarrow>
          if \<not> Written c'
          then (abortJSON c' 500 ''internal server error'' ''INTERNAL_ERROR'', w', None)
          else (c', w', None))"

definition AccessLogger :: "'w handler \<Rightarrow> 'w handler" where
  "AccessLogger next c w =
     (case next c w of
        (c', w', Some p) \<Rightarrow> (c', w', Some p)
      | (c', w', None) \<Rightarrow>
          (let path = rq_Path (Request c'); status = Status c' in
           if (path = ''/healthz'' \<or> path = ''/readyz'') \<and> status < 500 then (c', w', None)
           else
             (c'\<lparr>AccessLog := AccessLog c' @
                [\<lparr>lg_request_id = request_id_key c', lg_method = rq_Method (Request c'), lg_path = path, lg_status = status,
                  lg_error = (if status \<ge> 500 \<and> Errors c' \<noteq> [] then Some (last (Errors c')) else None)\<rparr>]\<rparr>, w', None)))"

lemmas [handler_defs] = abortJSON_def

section \<open>Lemmas\<close>

lemma abortJSON_simps [simp]:
  "Status (abortJSON c s m r) = s" "Body (abortJSON c s m r) = Some (FailWithCode m r)" "Aborted (abortJSON c s m r)"
  "SetCookies (abortJSON c s m r) = SetCookies c" "OutHeader (abortJSON c s m r) = OutHeader c"
  "Request (abortJSON c s m r) = Request c" "Written (abortJSON c s m r)"
  by (simp_all add: abortJSON_def)

lemma allow_roles_eq: "allow_roles rs = (if \<forall>r \<in> set rs. Valid r then Some (set rs) else None)"
  by (induction rs) auto

lemma Required_eq:
  "Required parse get roles =
     (if roles \<noteq> [] \<and> (\<forall>r \<in> set roles. Valid r) then Some (required_handler parse get (set roles)) else None)"
  by (auto simp: Required_def allow_roles_eq)

text \<open>The verdict of the middleware on a request: the principal it lets through.\<close>

definition admitted ::
    "(string \<Rightarrow> string + AccessIdentity) \<Rightarrow> (string \<Rightarrow> 'w \<Rightarrow> (data_error + auth_session) \<times> 'w) \<Rightarrow> role set \<Rightarrow> string \<Rightarrow> 'w \<Rightarrow>
     principal \<Rightarrow> bool" where
  "admitted parse get_session allowed header w p \<longleftrightarrow>
     (\<exists>raw i s. Fields header = [''Bearer'', raw] \<and> parse raw = Inr i \<and> fst (get_session (ai_SessionID i) w) = Inr s
        \<and> s_Active s \<and> Valid (s_Role s) \<and> s_UserID s = ai_UserID i \<and> s_AccessJTI s = ai_AccessJTI i
        \<and> s_Role s \<in> allowed \<and> p = Principal s (ai_SessionID i))"

lemma two_parts: "length xs = 2 \<and> xs ! 0 = a \<longleftrightarrow> (\<exists>b. xs = [a, b])"
  by (auto simp: numeral_2_eq_2 length_Suc_conv)

text \<open>The handler with the continuation factored out.\<close>

definition verdict ::
    "(string \<Rightarrow> string + AccessIdentity) \<Rightarrow> (string \<Rightarrow> 'w \<Rightarrow> (data_error + auth_session) \<times> 'w) \<Rightarrow> role set \<Rightarrow> ctx \<Rightarrow> 'w \<Rightarrow>
     ctx + ctx" where
  "verdict parse get allowed c w =
     (case required_handler parse get allowed (\<lambda>c w. (c, w, Some [])) c w of
        (c', _, None) \<Rightarrow> Inl c' | (c', _, Some _) \<Rightarrow> Inr c')"

lemma required_factor:
  "\<exists>w1. \<forall>next. required_handler parse get allowed next c w =
     (case verdict parse get allowed c w of Inl c' \<Rightarrow> (c', w1, None) | Inr c' \<Rightarrow> next c' w1)"
proof (cases "length (Fields (GetHeader c ''Authorization'')) \<noteq> 2 \<or> Fields (GetHeader c ''Authorization'') ! 0 \<noteq> ''Bearer''")
  case True
  then show ?thesis unfolding verdict_def required_handler_def Let_def by (simp split del: if_split)
next
  case False
  show ?thesis
  proof (cases "parse (Fields (GetHeader c ''Authorization'') ! 1)")
    case (Inl e)
    with False show ?thesis unfolding verdict_def required_handler_def Let_def by simp
  next
    case (Inr i)
    obtain x w1 where g: "get (ai_SessionID i) w = (x, w1)" by fastforce
    show ?thesis
      by (rule exI [of _ w1]) (use False Inr g in \<open>auto simp: verdict_def required_handler_def Let_def split: sum.splits data_error.splits\<close>)
  qed
qed

lemma verdict_admitted:
  "verdict parse get allowed c w = Inr c' \<longleftrightarrow>
     (\<exists>p. admitted parse get allowed (GetHeader c ''Authorization'') w p \<and> c' = c\<lparr>principal_key := Some p\<rparr>)"
proof (cases "\<exists>raw. Fields (GetHeader c ''Authorization'') = [''Bearer'', raw]")
  case True
  then obtain raw where f: "Fields (GetHeader c ''Authorization'') = [''Bearer'', raw]" by blast
  then show ?thesis
    by (auto simp: verdict_def required_handler_def Let_def admitted_def f split: sum.splits prod.splits data_error.splits)
next
  case False
  then have "length (Fields (GetHeader c ''Authorization'')) \<noteq> 2 \<or> Fields (GetHeader c ''Authorization'') ! 0 \<noteq> ''Bearer''"
    using two_parts by metis
  then have "verdict parse get allowed c w \<noteq> Inr c'" unfolding verdict_def required_handler_def Let_def by simp
  with False show ?thesis by (auto simp: admitted_def)
qed

lemma verdict_rejected:
  "verdict parse get allowed c w = Inl c' \<Longrightarrow> Aborted c' \<and> Status c' \<in> {401, 403, 503}"
  by (auto simp: verdict_def required_handler_def Let_def split: sum.splits prod.splits data_error.splits if_splits)

lemma validRequestID_shape:
  assumes "validRequestID rid"
  shows "1 \<le> length rid" "length rid \<le> 128" "\<forall>ch \<in> set rid. 45 \<le> (of_char ch :: nat) \<and> (of_char ch :: nat) \<le> 122"
proof -
  have v: "rid \<noteq> []" "length rid \<le> 128" "list_all request_id_char rid"
    using assms by (auto simp: validRequestID_def maxRequestIDLength_def split: if_splits)
  have "45 \<le> (of_char ch :: nat) \<and> (of_char ch :: nat) \<le> 122" if "request_id_char ch" for ch
    using that unfolding request_id_char_def Let_def by linarith
  then show "1 \<le> length rid" "length rid \<le> 128" "\<forall>ch \<in> set rid. 45 \<le> (of_char ch :: nat) \<and> (of_char ch :: nat) \<le> 122"
    using v by (auto simp: list_all_iff Suc_le_eq)
qed

section \<open>Properties\<close>

text \<open>
  C8 (safety). A protected route runs its handler for exactly the requests that carry
  \<open>Bearer\<close> and a token that parses, whose session exists, is active, belongs to the token's
  user, still has the token's id and has an allowed role; the handler then sees the
  session's principal. Every other request is aborted with 401, 403 or 503 and the handler
  does not run.
\<close>

theorem required_gate:
  assumes "Required parse get_session roles = Some mw"
  shows "\<exists>w1. if \<exists>p. admitted parse get_session (set roles) (GetHeader c ''Authorization'') w p
    then \<exists>p. admitted parse get_session (set roles) (GetHeader c ''Authorization'') w p \<and> p_Role p \<in> set roles
           \<and> (\<forall>next. mw next c w = next (c\<lparr>principal_key := Some p\<rparr>) w1)
    else \<exists>c'. Aborted c' \<and> Status c' \<in> {401, 403, 503} \<and> (\<forall>next. mw next c w = (c', w1, None))"
proof -
  have mw: "mw = required_handler parse get_session (set roles)" using assms by (auto simp: Required_eq split: if_splits)
  obtain w1 where f: "\<forall>next. mw next c w =
      (case verdict parse get_session (set roles) c w of Inl c' \<Rightarrow> (c', w1, None) | Inr c' \<Rightarrow> next c' w1)"
    unfolding mw using required_factor [of parse get_session "set roles" c w] by (rule exE)
  have role: "p_Role p \<in> set roles" if "admitted parse get_session (set roles) (GetHeader c ''Authorization'') w p" for p
    using that by (auto simp: admitted_def Principal_def)
  show ?thesis
  proof (cases "verdict parse get_session (set roles) c w")
    case (Inl c')
    then have "\<not> (\<exists>p. admitted parse get_session (set roles) (GetHeader c ''Authorization'') w p)"
      using verdict_admitted [of parse get_session "set roles" c w] by auto
    then show ?thesis using f Inl verdict_rejected [OF Inl] by auto
  next
    case (Inr c')
    then obtain p where p: "admitted parse get_session (set roles) (GetHeader c ''Authorization'') w p" "c' = c\<lparr>principal_key := Some p\<rparr>"
      using verdict_admitted [of parse get_session "set roles" c w] by auto
    then show ?thesis using f Inr role by (intro exI [of _ w1]) auto
  qed
qed

definition demo_request :: "string \<Rightarrow> request" where
  "demo_request auth =
     \<lparr>rq_Method = ''GET'', rq_Path = ''/api/v1/auth/me'', rq_Header = (\<lambda>k. if k = ''Authorization'' then auth else []),
      rq_Cookie = (\<lambda>_. None), rq_ID = [], rq_ClientIP = ''10.0.0.1'', rq_ContentLength = 0\<rparr>"

theorem required_gate_witness:
  "\<exists>mw c' w1. Required (\<lambda>_. Inl ''bad'') (\<lambda>_ w. (Inl ErrNotFound, w)) [RoleAdmin] = Some mw
     \<and> (\<forall>next. mw next (new_ctx (demo_request [])) () = (c', w1, None)) \<and> Status c' \<in> {401, 403, 503}"
proof -
  let ?mw = "required_handler (\<lambda>_. Inl ''bad'') (\<lambda>_ w. (Inl ErrNotFound, w)) (set [RoleAdmin])"
  have mw: "Required (\<lambda>_. Inl ''bad'') (\<lambda>_ w. (Inl ErrNotFound, w)) [RoleAdmin] = Some ?mw"
    by (simp add: Required_eq Valid_def)
  have "\<not> admitted (\<lambda>_. Inl ''bad'') (\<lambda>_ w. (Inl ErrNotFound, w)) (set [RoleAdmin]) h () p" for h p
    by (simp add: admitted_def)
  then show ?thesis using required_gate [OF mw, of "new_ctx (demo_request [])" "()"] mw by auto
qed

text \<open>
  \<open>Required\<close> cannot build an open gate by accident: it panics exactly when no
  role is listed or one of them is not a known role.
\<close>

theorem required_panics:
  "Required parse get_session roles = None \<longleftrightarrow> roles = [] \<or> (\<exists>r \<in> set roles. r \<noteq> RoleAdmin \<and> r \<noteq> RoleUser)"
  by (auto simp: Required_eq Valid_def)

text \<open>
  With a validated configuration the origin check is a plain membership
  test: the URL checks in front of it never change the outcome, a request without an
  \<open>Origin\<close> header passes, and any other is answered with 403.
\<close>

theorem origin_check:
  assumes "Config_Validate parse_uri cfg = Inr ()"
  shows "RequireAllowedOrigin parse_uri (AllowedOrigins (Auth cfg)) next c w =
    (if GetHeader c ''Origin'' = [] \<or> GetHeader c ''Origin'' \<in> set (AllowedOrigins (Auth cfg)) then next c w
     else (abortJSON c 403 ''request origin is not allowed'' ''FORBIDDEN'', w, None))"
proof -
  have "valid_origins parse_uri (AllowedOrigins (Auth cfg))" using assms by (simp add: Validate_Inr_iff)
  then have ok: "\<exists>u. parse_uri og = Some u \<and> Scheme u \<noteq> [] \<and> Host u \<noteq> []" if "og \<in> set (AllowedOrigins (Auth cfg))" for og
    using that by (auto simp: valid_origins_iff)
  show ?thesis
    using ok [of "GetHeader c ''Origin''"]
    by (auto simp: RequireAllowedOrigin_def originSet_def Let_def split: option.splits)
qed

definition demo_uri :: "string \<Rightarrow> uri option" where
  "demo_uri s = (if s = ''https://a.b'' then Some \<lparr>Scheme = ''https'', Host = ''a.b'', Path = [], RawQuery = [], Fragment = []\<rparr> else None)"

theorem origin_check_witness:
  "let cfg = demo_config\<lparr>Auth := (Auth demo_config)\<lparr>AllowedOrigins := [''https://a.b'']\<rparr>\<rparr>;
       c = new_ctx ((demo_request [])\<lparr>rq_Header := (\<lambda>_. ''https://evil'')\<rparr>) in
   Config_Validate demo_uri cfg = Inr () \<and>
   RequireAllowedOrigin demo_uri [''https://a.b''] (\<lambda>c w. (c, w, Some ''ran'')) c () =
     (abortJSON c 403 ''request origin is not allowed'' ''FORBIDDEN'', (), None)"
proof -
  let ?cfg = "demo_config\<lparr>Auth := (Auth demo_config)\<lparr>AllowedOrigins := [''https://a.b'']\<rparr>\<rparr>"
  have v: "Config_Validate demo_uri ?cfg = Inr ()"
    by (simp add: Validate_Inr_iff demo_config_def demo_uri_def) (simp add: defaults_def)
  show ?thesis
    using origin_check [OF v, of "\<lambda>c w. (c, w, Some ''ran'')" "new_ctx ((demo_request [])\<lparr>rq_Header := (\<lambda>_. ''https://evil'')\<rparr>)" "()"] v
    by (simp add: Let_def new_ctx_def demo_request_def)
qed

text \<open>
  CORS headers are granted per origin: the allow-origin header that reaches the
  rest of the chain (or the preflight answer) is the request's own origin and only when that
  origin is on the list; any other request goes through unchanged, without a grant.
\<close>

theorem cors_grant:
  "CORS allowed next c w =
    (if GetHeader c ''Origin'' \<noteq> [] \<and> GetHeader c ''Origin'' \<in> set allowed
     then \<comment> \<open>granted\<close>
       (let c' = c\<lparr>OutHeader := (OutHeader c)(
              ''Access-Control-Allow-Origin'' \<mapsto> GetHeader c ''Origin'', ''Vary'' \<mapsto> ''Origin'',
              ''Access-Control-Allow-Credentials'' \<mapsto> ''true'',
              ''Access-Control-Allow-Headers'' \<mapsto> ''Authorization, Content-Type, X-Request-ID'',
              ''Access-Control-Expose-Headers'' \<mapsto> ''X-Request-ID'',
              ''Access-Control-Allow-Methods'' \<mapsto> ''GET, POST, PATCH, DELETE, OPTIONS'')\<rparr>
        in if rq_Method (Request c) = ''OPTIONS'' then (AbortWithStatus 204 c', w, None) else next c' w)
     else next c w)"
  by (simp add: CORS_def originSet_def set_header_def Let_def)

text \<open>
  The request id that is logged and echoed is the client's only if it has 1 to
  128 characters from letters, digits, dash and underscore; otherwise it is the server's
  own. In both cases no control character or separator reaches the log or the header.
\<close>

theorem request_id_clean:
  assumes "validRequestID new_uuid"
  shows "\<exists>rid. (if validRequestID (GetHeader c ''X-Request-ID'') then rid = GetHeader c ''X-Request-ID'' else rid = new_uuid)
    \<and> 1 \<le> length rid \<and> length rid \<le> 128 \<and> (\<forall>ch \<in> set rid. 45 \<le> (of_char ch :: nat) \<and> (of_char ch :: nat) \<le> 122)
    \<and> RequestID new_uuid next c w = next (c\<lparr>request_id_key := rid, OutHeader := (OutHeader c)(''X-Request-ID'' \<mapsto> rid)\<rparr>) w"
proof -
  let ?rid = "if validRequestID (GetHeader c ''X-Request-ID'') then GetHeader c ''X-Request-ID'' else new_uuid"
  have v: "validRequestID ?rid" using assms by simp
  then have "1 \<le> length ?rid" "length ?rid \<le> 128" and "\<forall>ch \<in> set ?rid. 45 \<le> (of_char ch :: nat) \<and> (of_char ch :: nat) \<le> 122"
    using validRequestID_shape by blast+
  moreover have "RequestID new_uuid next c w = next (c\<lparr>request_id_key := ?rid, OutHeader := (OutHeader c)(''X-Request-ID'' \<mapsto> ?rid)\<rparr>) w"
    using v by (auto simp: RequestID_def set_header_def Let_def validRequestID_def)
  ultimately show ?thesis by (intro exI [of _ ?rid]) auto
qed

theorem request_id_clean_witness:
  "RequestID ''abc-1'' (\<lambda>c w. (c, w, None)) (new_ctx (demo_request [])) () =
    ((new_ctx (demo_request []))\<lparr>request_id_key := ''abc-1'', OutHeader := [''X-Request-ID'' \<mapsto> ''abc-1'']\<rparr>, (), None)"
proof -
  have "validRequestID ''abc-1''" "\<not> validRequestID []"
    by (simp_all add: validRequestID_def maxRequestIDLength_def request_id_char_def Let_def)
  then show ?thesis
    using request_id_clean [of "''abc-1''" "new_ctx (demo_request [])" "\<lambda>c w. (c, w, None)" "()"]
    by (simp add: new_ctx_def demo_request_def)
qed

text \<open>
  Behind \<open>Recovery\<close> no request ends in a panic: a handler that panics before it
  wrote gets the client a 500 with the generic message, one that panics later keeps what it
  wrote, and one that returns is not affected. The access log then has one entry for the
  request with its final status (none for a health probe that did not fail).
\<close>

theorem recovered_and_logged:
  assumes "h (c :: ctx) w = (c1, w1, p)"
  shows "AccessLogger (Recovery h) c w =
    (let c2 = (if p \<noteq> None \<and> \<not> Written c1 then abortJSON c1 500 ''internal server error'' ''INTERNAL_ERROR'' else c1) in
     if rq_Path (Request c2) \<in> {''/healthz'', ''/readyz''} \<and> Status c2 < 500 then (c2, w1, None)
     else (c2\<lparr>AccessLog := AccessLog c2 @
        [\<lparr>lg_request_id = request_id_key c2, lg_method = rq_Method (Request c2), lg_path = rq_Path (Request c2),
          lg_status = Status c2, lg_error = (if Status c2 \<ge> 500 \<and> Errors c2 \<noteq> [] then Some (last (Errors c2)) else None)\<rparr>]\<rparr>,
        w1, None))"
  using assms by (simp add: AccessLogger_def Recovery_def Let_def split: option.splits)

theorem recovered_and_logged_witness:
  "fst (snd (AccessLogger (Recovery (\<lambda>c w. (c, w + (1 :: nat), Some ''boom''))) (new_ctx (demo_request [])) 0)) = 1
   \<and> Status (fst (AccessLogger (Recovery (\<lambda>c w. (c, w + (1 :: nat), Some ''boom''))) (new_ctx (demo_request [])) 0)) = 500"
  using recovered_and_logged [of "\<lambda>c w. (c, w + (1 :: nat), Some ''boom'')" "new_ctx (demo_request [])" 0]
  by (simp add: new_ctx_def demo_request_def Let_def)

end
