(* ===== verification/Database.thy ===== *)
theory Database
  imports Entity GoText Redis "HOL-Library.Multiset"
begin

text \<open>
  The interface to PostgreSQL through GORM. Neither is part of the repository, so the
  statements the repository issues are a parameter, a record \<open>'d db\<close> over an opaque database
  state. The locale \<open>user_db\<close> states what they do to the table \<open>users\<close>, seen as a list of
  rows: conditions select, the primary key and the unique email are enforced, an id that is
  no UUID and a text that is no PostgreSQL text are errors. Statements can fail like any
  round trip. \<open>table_db\<close> is an instance.
\<close>

section \<open>Statements\<close>

datatype sql_error = ErrRecordNotFound | ErrDuplicatedKey | SqlOther string

datatype cond = IdEq string | EmailEq string | EmailLike string | RoleEq string | ActiveIs bool

datatype assign = SetEmail string | SetRemark string | SetPasswordHash string | SetRole role
  | SetUpdatedAt instant | SetActive bool

type_synonym ('d, 'a) stmt = "'d \<Rightarrow> (sql_error + 'a) \<times> 'd"

record 'd db =
  db_Take :: "cond list \<Rightarrow> ('d, user) stmt"
  db_Find :: "cond list \<Rightarrow> int \<Rightarrow> int \<Rightarrow> ('d, user list) stmt"
  db_Count :: "cond list \<Rightarrow> ('d, int) stmt"
  db_Create :: "user \<Rightarrow> ('d, unit) stmt"
  db_Updates :: "cond list \<Rightarrow> assign list \<Rightarrow> ('d, int) stmt"
  db_Delete :: "cond list \<Rightarrow> ('d, int) stmt"

record 'd dconn =
  d_state :: 'd
  d_faults :: "fault list"

definition dcall :: "('d, 'a) stmt \<Rightarrow> 'd dconn \<Rightarrow> (sql_error + 'a) \<times> 'd dconn" where
  "dcall m c =
     (let (x, d') = m (d_state c) in
      (case d_faults c of
         [] \<Rightarrow> (x, c\<lparr>d_state := d'\<rparr>)
       | Delivered # fs \<Rightarrow> (x, c\<lparr>d_state := d', d_faults := fs\<rparr>)
       | RequestLost # fs \<Rightarrow> (Inl (SqlOther ''connection''), c\<lparr>d_faults := fs\<rparr>)
       | ReplyLost # fs \<Rightarrow> (Inl (SqlOther ''connection''), c\<lparr>d_state := d', d_faults := fs\<rparr>)))"

section \<open>The table\<close>

text \<open>\<open>LIKE\<close> with backslash as the escape character; \<open>_\<close> stands for one character.\<close>

function like :: "string \<Rightarrow> string \<Rightarrow> bool" where
  "like [] t = (t = [])"
| "like (p # ps) t =
     (if p = CHR ''%'' then like ps t \<or> (case t of [] \<Rightarrow> False | _ # t' \<Rightarrow> like (p # ps) t')
      else if p = CHR ''_'' then (case t of [] \<Rightarrow> False | _ \<Rightarrow> like ps (drop (snd (DecodeRune t)) t))
      else if p = CHR 0x5C then
        (case ps of [] \<Rightarrow> False | q # qs \<Rightarrow> (case t of [] \<Rightarrow> False | c # t' \<Rightarrow> c = q \<and> like qs t'))
      else (case t of [] \<Rightarrow> False | c # t' \<Rightarrow> c = p \<and> like ps t'))"
  by pat_completeness auto
termination
  by (relation "measure (\<lambda>(p, t). length p + length t)") auto

text \<open>A text PostgreSQL accepts in a UTF-8 database.\<close>

definition pg_text :: "string \<Rightarrow> bool" where
  "pg_text s = (valid_utf8 s \<and> CHR 0x00 \<notin> set s)"

text \<open>\<open>uuid_in\<close> reads a UUID literal: its canonical text, or \<^const>\<open>None\<close> for a syntax error.\<close>

fun cond_error :: "(string \<Rightarrow> string option) \<Rightarrow> cond \<Rightarrow> bool" where
  "cond_error uuid_in (IdEq s) = (uuid_in s = None)"
| "cond_error uuid_in (EmailEq s) = (\<not> pg_text s)"
| "cond_error uuid_in (EmailLike s) = (\<not> pg_text s)"
| "cond_error uuid_in (RoleEq s) = (\<not> pg_text s)"
| "cond_error uuid_in (ActiveIs b) = False"

fun matches1 :: "(string \<Rightarrow> string option) \<Rightarrow> user \<Rightarrow> cond \<Rightarrow> bool" where
  "matches1 uuid_in u (IdEq s) = (uuid_in s = Some (ID u))"
| "matches1 uuid_in u (EmailEq s) = (Email u = s)"
| "matches1 uuid_in u (EmailLike s) = like s (Email u)"
| "matches1 uuid_in u (RoleEq s) = (Role u = s)"
| "matches1 uuid_in u (ActiveIs b) = (Active u = b)"

definition matches :: "(string \<Rightarrow> string option) \<Rightarrow> cond list \<Rightarrow> user \<Rightarrow> bool" where
  "matches uuid_in cs u = list_all (matches1 uuid_in u) cs"

text \<open>GORM fills a selected \<open>updated_at\<close> from its own clock \<open>now\<close>, whatever the model value.\<close>

fun assign1 :: "instant \<Rightarrow> user \<Rightarrow> assign \<Rightarrow> user" where
  "assign1 now u (SetEmail s) = u\<lparr>Email := s\<rparr>"
| "assign1 now u (SetRemark s) = u\<lparr>Remark := s\<rparr>"
| "assign1 now u (SetPasswordHash s) = u\<lparr>PasswordHash := s\<rparr>"
| "assign1 now u (SetRole r) = u\<lparr>Role := r\<rparr>"
| "assign1 now u (SetUpdatedAt t) = u\<lparr>UpdatedAt := now\<rparr>"
| "assign1 now u (SetActive b) = u\<lparr>Active := b\<rparr>"

definition assigned :: "instant \<Rightarrow> assign list \<Rightarrow> user \<Rightarrow> user" where
  "assigned now as u = foldl (assign1 now) u as"

text \<open>A row the column constraints accept.\<close>

definition row_ok :: "user \<Rightarrow> bool" where
  "row_ok u = (pg_text (Email u) \<and> pg_text (Remark u) \<and> pg_text (PasswordHash u) \<and> Valid (Role u))"

definition table_ok :: "(string \<Rightarrow> string option) \<Rightarrow> user list \<Rightarrow> bool" where
  "table_ok uuid_in us =
     (distinct (map ID us) \<and> distinct (map Email us) \<and> (\<forall>u \<in> set us. row_ok u \<and> uuid_in (ID u) = Some (ID u)))"

definition tb_Take :: "(string \<Rightarrow> string option) \<Rightarrow> cond list \<Rightarrow> (user list, user) stmt" where
  "tb_Take uuid_in cs us =
     (if list_ex (cond_error uuid_in) cs then (Inl (SqlOther ''invalid input''), us)
      else (case find (matches uuid_in cs) us of
              None \<Rightarrow> (Inl ErrRecordNotFound, us) | Some u \<Rightarrow> (Inr u, us)))"

definition tb_Count :: "(string \<Rightarrow> string option) \<Rightarrow> cond list \<Rightarrow> (user list, int) stmt" where
  "tb_Count uuid_in cs us =
     (if list_ex (cond_error uuid_in) cs then (Inl (SqlOther ''invalid input''), us)
      else (Inr (int (length (filter (matches uuid_in cs) us))), us))"

text \<open>An offset that is not positive and a negative limit leave the clause out.\<close>

definition page :: "int \<Rightarrow> int \<Rightarrow> 'a list \<Rightarrow> 'a list" where
  "page offset limit xs =
     (let xs = (if offset > 0 then drop (nat offset) xs else xs)
      in if limit < 0 then xs else take (nat limit) xs)"

definition tb_Create :: "(string \<Rightarrow> string option) \<Rightarrow> (instant \<Rightarrow> instant) \<Rightarrow> user \<Rightarrow> (user list, unit) stmt" where
  "tb_Create uuid_in tm u us =
     (case uuid_in (ID u) of
        None \<Rightarrow> (Inl (SqlOther ''invalid input''), us)
      | Some i \<Rightarrow>
          if \<not> row_ok u then (Inl (SqlOther ''invalid input''), us)
          else if list_ex (\<lambda>r. ID r = i \<or> Email r = Email u) us then (Inl ErrDuplicatedKey, us)
          else (Inr (), us @ [u\<lparr>ID := i, CreatedAt := tm (CreatedAt u), UpdatedAt := tm (UpdatedAt u)\<rparr>]))"

definition tb_Updates ::
    "(string \<Rightarrow> string option) \<Rightarrow> instant \<Rightarrow> cond list \<Rightarrow> assign list \<Rightarrow> (user list, int) stmt" where
  "tb_Updates uuid_in now cs as us =
     (let us' = map (\<lambda>u. if matches uuid_in cs u then assigned now as u else u) us in
      if list_ex (cond_error uuid_in) cs then (Inl (SqlOther ''invalid input''), us)
      else if \<not> list_all row_ok us' then (Inl (SqlOther ''invalid input''), us)
      else if \<not> distinct (map Email us') then (Inl ErrDuplicatedKey, us)
      else (Inr (int (length (filter (matches uuid_in cs) us))), us'))"

definition tb_Delete :: "(string \<Rightarrow> string option) \<Rightarrow> cond list \<Rightarrow> (user list, int) stmt" where
  "tb_Delete uuid_in cs us =
     (if list_ex (cond_error uuid_in) cs then (Inl (SqlOther ''invalid input''), us)
      else (Inr (int (length (filter (matches uuid_in cs) us))), filter (\<lambda>u. \<not> matches uuid_in cs u) us))"

section \<open>The contract\<close>

definition dsim :: "('d \<Rightarrow> 's) \<Rightarrow> ('d, 'a) stmt \<Rightarrow> ('s, 'a) stmt \<Rightarrow> 'd \<Rightarrow> bool" where
  "dsim h m1 m2 d = (m2 (h d) = (fst (m1 d), h (snd (m1 d))))"

text \<open>Rows newest first; the order of rows with equal times is not determined.\<close>

definition newest_first :: "user list \<Rightarrow> user list \<Rightarrow> bool" where
  "newest_first us xs = (mset xs = mset us \<and> sorted_wrt (\<lambda>a b. CreatedAt b \<le> CreatedAt a) xs)"

locale user_db =
  fixes D :: "'d db" and rows :: "'d \<Rightarrow> user list"
    and uuid_in :: "string \<Rightarrow> string option" and tm :: "instant \<Rightarrow> instant"
  assumes uuid_canon: "uuid_in s = Some i \<Longrightarrow> uuid_in i = Some i"
    and uuid_ascii: "uuid_in s = Some i \<Longrightarrow> is_ascii i \<and> i \<noteq> []"
    and sim_Take: "dsim rows (db_Take D cs) (tb_Take uuid_in cs) d"
    and sim_Count: "dsim rows (db_Count D cs) (tb_Count uuid_in cs) d"
    and sim_Create: "dsim rows (db_Create D u) (tb_Create uuid_in tm u) d"
    and sim_Updates: "\<exists>now. dsim rows (db_Updates D cs as) (tb_Updates uuid_in now cs as) d"
    and sim_Delete: "dsim rows (db_Delete D cs) (tb_Delete uuid_in cs) d"
    and find_rows: "rows (snd (db_Find D cs offset limit d)) = rows d"
    and find_bad: "list_ex (cond_error uuid_in) cs \<Longrightarrow> fst (db_Find D cs offset limit d) = Inl (SqlOther ''invalid input'')"
    and find_page: "\<not> list_ex (cond_error uuid_in) cs \<Longrightarrow>
      \<exists>xs. newest_first (filter (matches uuid_in cs) (rows d)) xs \<and> fst (db_Find D cs offset limit d) = Inr (page offset limit xs)"

subsection \<open>An instance\<close>

text \<open>Lists as tables, with letter case as the only redundancy of an id.\<close>

definition fold_id :: "string \<Rightarrow> string option" where
  "fold_id s = (if s \<noteq> [] \<and> is_ascii s then Some (map ascii_lower s) else None)"

definition table_db :: "user list db" where
  "table_db =
     \<lparr>db_Take = tb_Take fold_id,
      db_Find = (\<lambda>cs offset limit us.
        (if list_ex (cond_error fold_id) cs then Inl (SqlOther ''invalid input'')
         else Inr (page offset limit (sort_key (\<lambda>u. - CreatedAt u) (filter (matches fold_id cs) us))), us)),
      db_Count = tb_Count fold_id, db_Create = tb_Create fold_id id,
      db_Updates = tb_Updates fold_id 0, db_Delete = tb_Delete fold_id\<rparr>"

lemma newest_first_sort: "newest_first us (sort_key (\<lambda>u. - CreatedAt u) us)"
proof -
  have "sorted_wrt (\<lambda>a b. CreatedAt b \<le> CreatedAt a) (sort_key (\<lambda>u. - CreatedAt u) us)"
    using sorted_sort_key [of "\<lambda>u. - CreatedAt u" us] by (simp add: sorted_map)
  then show ?thesis by (simp add: newest_first_def)
qed

interpretation table_db: user_db table_db "\<lambda>us. us" fold_id id
proof unfold_locales
  show "\<exists>xs. newest_first (filter (matches fold_id cs) d) xs \<and>
      fst (db_Find table_db cs offset limit d) = Inr (page offset limit xs)"
    if "\<not> list_ex (cond_error fold_id) cs" for cs d offset limit
    using that newest_first_sort [of "filter (matches fold_id cs) d"] by (auto simp: table_db_def)
qed (auto simp: fold_id_def table_db_def dsim_def split: if_splits)

section \<open>Statements keep the table well formed\<close>

lemma matches_simps [simp]:
  "matches uuid_in [] u" "matches uuid_in (c # cs) u \<longleftrightarrow> matches1 uuid_in u c \<and> matches uuid_in cs u"
  by (simp_all add: matches_def)

lemma tb_Take_same: "snd (tb_Take uuid_in cs us) = us"
  by (auto simp: tb_Take_def split: option.splits)

lemma tb_Count_same: "snd (tb_Count uuid_in cs us) = us"
  by (simp add: tb_Count_def)

lemma assign1_ID [simp]: "ID (assign1 now u a) = ID u"
  by (cases a) simp_all

lemma assigned_ID [simp]: "ID (assigned now as u) = ID u"
  by (induction as arbitrary: u) (simp_all add: assigned_def)

lemma tb_Create_ok:
  assumes "table_ok uuid_in us" "\<And>s i. uuid_in s = Some i \<Longrightarrow> uuid_in i = Some i"
  shows "table_ok uuid_in (snd (tb_Create uuid_in tm u us))"
  using assms
  by (auto simp: tb_Create_def table_ok_def row_ok_def list_ex_iff split: option.splits)

lemma tb_Updates_ok:
  assumes "table_ok uuid_in us"
  shows "table_ok uuid_in (snd (tb_Updates uuid_in now cs as us))"
proof -
  let ?f = "\<lambda>u. if matches uuid_in cs u then assigned now as u else u"
  have ids: "map ID (map ?f us) = map ID us" by simp
  have "uuid_in (ID (?f u)) = Some (ID (?f u))" if "u \<in> set us" for u
    using assms that by (simp add: table_ok_def)
  then show ?thesis
    using assms ids
    by (simp add: tb_Updates_def Let_def table_ok_def list_all_iff comp_def if_distrib [of ID] cong: if_cong) auto
qed

lemma tb_Delete_ok:
  assumes "table_ok uuid_in us"
  shows "table_ok uuid_in (snd (tb_Delete uuid_in cs us))"
  using assms by (auto simp: tb_Delete_def table_ok_def distinct_map_filter)

end
