(* ===== verification/UserRepo.thy ===== *)
theory UserRepo
  imports Database Tokens "HOL-Library.Sublist"
begin

text \<open>
  \<open>internal/data/user.go\<close> and the generated \<open>FindByPage\<close> it calls: every method of
  \<open>UserRepository\<close> over the database interface. Go's \<open>int\<close> has 64 bits; \<open>go_int\<close> is the
  value an arithmetic result wraps to.
\<close>

definition go_int :: "int \<Rightarrow> int" where
  "go_int x = (x + 2 ^ 63) mod 2 ^ 64 - 2 ^ 63"

lemma go_int_idle: "- (2 ^ 63) \<le> x \<Longrightarrow> x < 2 ^ 63 \<Longrightarrow> go_int x = x"
  by (simp add: go_int_def)

section \<open>Text helpers\<close>

definition bootstrapAdminEmail :: string where
  "bootstrapAdminEmail = ''admin@localhost.com''"

definition normalizeEmail :: "unicode_tables \<Rightarrow> string \<Rightarrow> string" where
  "normalizeEmail U email = ToLower U (TrimSpace email)"

text \<open>A \<open>strings.Replacer\<close> whose old strings are single bytes works byte by byte.\<close>

definition escapeLikePattern :: "string \<Rightarrow> string" where
  "escapeLikePattern value =
     concat (map (\<lambda>c. if c = CHR 0x5C then [CHR 0x5C, CHR 0x5C]
                      else if c = CHR ''%'' then [CHR 0x5C, CHR ''%'']
                      else if c = CHR ''_'' then [CHR 0x5C, CHR ''_'']
                      else [c]) value)"

section \<open>Queries\<close>

definition FindByPage ::
    "'d db \<Rightarrow> 'd dconn \<Rightarrow> cond list \<Rightarrow> int \<Rightarrow> int \<Rightarrow> (sql_error + user list \<times> int) \<times> 'd dconn" where
  "FindByPage D c cs offset limit =
     (case dcall (db_Find D cs offset limit) c of
        (Inl e, c1) \<Rightarrow> (Inl e, c1)
      | (Inr result, c1) \<Rightarrow>
          (let size = int (length result) in
           if 0 < limit \<and> 0 < size \<and> size < limit then (Inr (result, go_int (size + offset)), c1)
           else
             (case dcall (db_Count D cs) c1 of
                (Inl e, c2) \<Rightarrow> (Inl e, c2)
              | (Inr cnt, c2) \<Rightarrow> (Inr (result, cnt), c2))))"

definition list_conds :: "unicode_tables \<Rightarrow> string \<Rightarrow> role \<Rightarrow> bool option \<Rightarrow> cond list" where
  "list_conds U email role active =
     (if email \<noteq> [] then [EmailLike (''%'' @ escapeLikePattern (normalizeEmail U email) @ ''%'')] else [])
     @ (if role \<noteq> [] then [RoleEq role] else [])
     @ (case active of None \<Rightarrow> [] | Some b \<Rightarrow> [ActiveIs b])"

fun other_error :: "sql_error \<Rightarrow> data_error" where
  "other_error ErrRecordNotFound = ErrOther ''record not found''"
| "other_error ErrDuplicatedKey = ErrOther ''duplicated key not allowed''"
| "other_error (SqlOther m) = ErrOther m"

definition ListUsers ::
    "unicode_tables \<Rightarrow> 'd db \<Rightarrow> 'd dconn \<Rightarrow> int \<Rightarrow> int \<Rightarrow> string \<Rightarrow> role \<Rightarrow> bool option \<Rightarrow>
     (data_error + user list \<times> int) \<times> 'd dconn" where
  "ListUsers U D c offset limit email role active =
     (case FindByPage D c (list_conds U email role active) offset limit of
        (Inl e, c') \<Rightarrow> (Inl (other_error e), c')
      | (Inr (rows, cnt), c') \<Rightarrow> (Inr (rows, cnt), c'))"

definition FindUserByID :: "'d db \<Rightarrow> 'd dconn \<Rightarrow> string \<Rightarrow> (data_error + user) \<times> 'd dconn" where
  "FindUserByID D c uid =
     (case dcall (db_Take D [IdEq uid]) c of
        (Inl ErrRecordNotFound, c') \<Rightarrow> (Inl ErrNotFound, c')
      | (Inl e, c') \<Rightarrow> (Inl (other_error e), c')
      | (Inr u, c') \<Rightarrow> (Inr u, c'))"

definition FindUserByEmail :: "unicode_tables \<Rightarrow> 'd db \<Rightarrow> 'd dconn \<Rightarrow> string \<Rightarrow> (data_error + user) \<times> 'd dconn" where
  "FindUserByEmail U D c email =
     (case dcall (db_Take D [EmailEq (normalizeEmail U email)]) c of
        (Inl ErrRecordNotFound, c') \<Rightarrow> (Inl ErrNotFound, c')
      | (Inl e, c') \<Rightarrow> (Inl (other_error e), c')
      | (Inr u, c') \<Rightarrow> (Inr u, c'))"

section \<open>Writes\<close>

definition CreateUser :: "'d db \<Rightarrow> 'd dconn \<Rightarrow> user \<Rightarrow> (data_error + user) \<times> 'd dconn" where
  "CreateUser D c u =
     (case dcall (db_Create D u) c of
        (Inl ErrDuplicatedKey, c') \<Rightarrow> (Inl ErrConflict, c')
      | (Inl e, c') \<Rightarrow> (Inl (other_error e), c')
      | (Inr _, c') \<Rightarrow> (Inr u, c'))"

definition UpdateUser :: "'d db \<Rightarrow> 'd dconn \<Rightarrow> user \<Rightarrow> (data_error + user) \<times> 'd dconn" where
  "UpdateUser D c u =
     (case dcall (db_Updates D [IdEq (ID u)]
             [SetEmail (Email u), SetRemark (Remark u), SetPasswordHash (PasswordHash u), SetRole (Role u),
              SetUpdatedAt (UpdatedAt u)]) c of
        (Inl ErrDuplicatedKey, c') \<Rightarrow> (Inl ErrConflict, c')
      | (Inl e, c') \<Rightarrow> (Inl (other_error e), c')
      | (Inr affected, c') \<Rightarrow>
          if affected = 0 then (Inl ErrNotFound, c') else FindUserByID D c' (ID u))"

definition SetUserActive :: "'d db \<Rightarrow> 'd dconn \<Rightarrow> string \<Rightarrow> bool \<Rightarrow> (data_error + user) \<times> 'd dconn" where
  "SetUserActive D c uid active =
     (case dcall (db_Updates D [IdEq uid] [SetActive active]) c of
        (Inl ErrDuplicatedKey, c') \<Rightarrow> (Inl ErrConflict, c')
      | (Inl e, c') \<Rightarrow> (Inl (other_error e), c')
      | (Inr affected, c') \<Rightarrow>
          if affected = 0 then (Inl ErrNotFound, c') else FindUserByID D c' uid)"

definition DeleteUser :: "'d db \<Rightarrow> 'd dconn \<Rightarrow> string \<Rightarrow> (data_error + unit) \<times> 'd dconn" where
  "DeleteUser D c uid =
     (case dcall (db_Delete D [IdEq uid]) c of
        (Inl ErrDuplicatedKey, c') \<Rightarrow> (Inl ErrConflict, c')
      | (Inl e, c') \<Rightarrow> (Inl (other_error e), c')
      | (Inr affected, c') \<Rightarrow> if affected = 0 then (Inl ErrNotFound, c') else (Inr (), c'))"

text \<open>The new password and the new id are the two UUIDs the code draws.\<close>

definition EnsureBootstrapAdmin ::
    "bcrypt_lib \<Rightarrow> 'd db \<Rightarrow> 'd dconn \<Rightarrow> string \<Rightarrow> string \<Rightarrow> string \<Rightarrow> instant \<Rightarrow>
     (data_error + string \<times> string \<times> string) \<times> 'd dconn" where
  "EnsureBootstrapAdmin B D c password salt new_id now =
     (case HashPassword B salt password of
        None \<Rightarrow> (Inl (ErrOther ''bcrypt''), c)
      | Some passwordHash \<Rightarrow>
          (let email = bootstrapAdminEmail in
           case dcall (db_Take D [EmailEq email]) c of
             (Inl ErrRecordNotFound, c1) \<Rightarrow>
               (case dcall (db_Create D \<lparr>ID = new_id, Email = email, Remark = ''admin'', PasswordHash = passwordHash,
                       Active = True, Role = RoleAdmin, CreatedAt = now, UpdatedAt = now\<rparr>) c1 of
                  (Inl e, c2) \<Rightarrow> (Inl (other_error e), c2)
                | (Inr _, c2) \<Rightarrow> (Inr (email, password, new_id), c2))
           | (Inl e, c1) \<Rightarrow> (Inl (other_error e), c1)
           | (Inr existing, c1) \<Rightarrow>
               (case dcall (db_Updates D [IdEq (ID existing)]
                       [SetPasswordHash passwordHash, SetRemark ''admin'', SetRole RoleAdmin, SetActive True]) c1 of
                  (Inl e, c2) \<Rightarrow> (Inl (other_error e), c2)
                | (Inr _, c2) \<Rightarrow> (Inr (email, password, ID existing), c2))))"

section \<open>LIKE patterns\<close>

text \<open>The pattern of an escaped text matches that text only, so the pattern of the listing
  matches exactly the emails that contain it.\<close>

lemma like_escaped:
  "like (escapeLikePattern s @ ps) t \<longleftrightarrow> (\<exists>r. t = s @ r \<and> like ps r)"
proof (induction s arbitrary: t)
  case (Cons c s)
  have e: "escapeLikePattern (c # s) =
      (if c \<in> {CHR 0x5C, CHR ''%'', CHR ''_''} then [CHR 0x5C, c] else [c]) @ escapeLikePattern s"
    by (auto simp: escapeLikePattern_def)
  show ?case
  proof (cases t)
    case Nil
    then show ?thesis by (simp add: e)
  next
    case (Cons d t')
    then show ?thesis using Cons.IH [of t'] by (auto simp: e)
  qed
qed (simp add: escapeLikePattern_def)

lemma like_percent: "like (CHR ''%'' # ps) t \<longleftrightarrow> (\<exists>p r. t = p @ r \<and> like ps r)"
proof (induction t)
  case Nil
  show ?case by simp
next
  case (Cons c t)
  have "like (CHR ''%'' # ps) (c # t) \<longleftrightarrow> like ps (c # t) \<or> like (CHR ''%'' # ps) t" by simp
  also have "\<dots> \<longleftrightarrow> (\<exists>p r. c # t = p @ r \<and> like ps r)"
    unfolding Cons by (metis append_Cons append_Nil list.inject neq_Nil_conv)
  finally show ?case .
qed

lemma like_contains: "like (''%'' @ escapeLikePattern s @ ''%'') t \<longleftrightarrow> (\<exists>p r. t = p @ s @ r)"
proof -
  have "like ''%'' r" for r using like_percent [of "[]" r] by simp
  then have "like (CHR ''%'' # escapeLikePattern s @ ''%'') t \<longleftrightarrow> (\<exists>p r. t = p @ r \<and> (\<exists>r'. r = s @ r'))"
    unfolding like_percent like_escaped by simp
  then show ?thesis by auto
qed

section \<open>Round trips to the database\<close>

lemma dcall_clean:
  "d_faults c = [] \<Longrightarrow> dcall m c = (fst (m (d_state c)), c\<lparr>d_state := snd (m (d_state c))\<rparr>)"
  by (simp add: dcall_def split_beta Let_def)

text \<open>What a statement can leave behind, and what a reply without error means.\<close>

lemma dcall_view:
  assumes "dsim rows m tb (d_state c)" "dcall m c = (x, c')"
  shows "rows (d_state c') = rows (d_state c) \<or> rows (d_state c') = snd (tb (rows (d_state c)))"
    and "x = Inr a \<Longrightarrow> tb (rows (d_state c)) = (Inr a, rows (d_state c'))"
proof -
  obtain y d' where m: "m (d_state c) = (y, d')" by fastforce
  then have tb: "tb (rows (d_state c)) = (y, rows d')" using assms(1) by (simp add: dsim_def)
  show "rows (d_state c') = rows (d_state c) \<or> rows (d_state c') = snd (tb (rows (d_state c)))"
    using assms(2) m tb by (auto simp: dcall_def split: list.splits fault.splits)
  show "x = Inr a \<Longrightarrow> tb (rows (d_state c)) = (Inr a, rows (d_state c'))"
    using assms(2) m tb by (auto simp: dcall_def split: list.splits fault.splits)
qed

lemma dcall_view_clean:
  assumes "dsim rows m tb (d_state c)" "d_faults c = []"
  shows "\<exists>d'. dcall m c = (fst (tb (rows (d_state c))), c\<lparr>d_state := d'\<rparr>) \<and> rows d' = snd (tb (rows (d_state c)))"
proof -
  have "tb (rows (d_state c)) = (fst (m (d_state c)), rows (snd (m (d_state c))))" using assms(1) by (simp add: dsim_def)
  then show ?thesis using dcall_clean [OF assms(2)] by auto
qed

lemma dcall_faults: "dcall m c = (x, c') \<Longrightarrow> d_faults c = [] \<Longrightarrow> d_faults c' = []"
  by (auto simp: dcall_def split: prod.splits)

text \<open>The operations a client of the repository can take.\<close>

inductive repo_step :: "bcrypt_lib \<Rightarrow> 'd db \<Rightarrow> 'd dconn \<Rightarrow> 'd dconn \<Rightarrow> bool" for B :: bcrypt_lib and D :: "'d db" where
  create: "CreateUser D c u = (x, c') \<Longrightarrow> repo_step B D c c'"
| update: "UpdateUser D c u = (x, c') \<Longrightarrow> repo_step B D c c'"
| set_active: "SetUserActive D c uid a = (x, c') \<Longrightarrow> repo_step B D c c'"
| delete: "DeleteUser D c uid = (y, c') \<Longrightarrow> repo_step B D c c'"
| bootstrap: "EnsureBootstrapAdmin B D c pw salt uid now = (z, c') \<Longrightarrow> repo_step B D c c'"
| find_id: "FindUserByID D c uid = (x, c') \<Longrightarrow> repo_step B D c c'"
| find_email: "FindUserByEmail U D c email = (x, c') \<Longrightarrow> repo_step B D c c'"

text \<open>The row a successful insert adds, and a row after \<open>UpdateUser\<close>: five columns are written,
  id, activity and creation time are not.\<close>

definition stored :: "(string \<Rightarrow> string option) \<Rightarrow> (instant \<Rightarrow> instant) \<Rightarrow> user \<Rightarrow> user" where
  "stored uuid_in tm u = u\<lparr>ID := the (uuid_in (ID u)), CreatedAt := tm (CreatedAt u), UpdatedAt := tm (UpdatedAt u)\<rparr>"

definition patched :: "instant \<Rightarrow> user \<Rightarrow> user \<Rightarrow> user" where
  "patched now u r = r\<lparr>Email := Email u, Remark := Remark u, PasswordHash := PasswordHash u, Role := Role u, UpdatedAt := now\<rparr>"

lemma matches_id: "uuid_in uid = Some i \<Longrightarrow> matches uuid_in [IdEq uid] = (\<lambda>u. ID u = i)"
  by (auto simp: fun_eq_iff)

context user_db
begin

abbreviation tab :: "'d dconn \<Rightarrow> user list" where "tab c \<equiv> rows (d_state c)"

lemma Take_keeps: "dcall (db_Take D cs) c = (x, c') \<Longrightarrow> tab c' = tab c"
  using dcall_view(1) [OF sim_Take] by (simp add: tb_Take_same)

lemma write_ok:
  assumes "dsim rows m tb (d_state c)" "\<And>us. table_ok uuid_in us \<Longrightarrow> table_ok uuid_in (snd (tb us))"
    and "dcall m c = (x, c')" "table_ok uuid_in (tab c)"
  shows "table_ok uuid_in (tab c')"
  using dcall_view(1) [OF assms(1,3)] assms(2,4) by auto

lemma Create_ok:
  assumes "dcall (db_Create D u) c = (x, c')" "table_ok uuid_in (tab c)" shows "table_ok uuid_in (tab c')"
  using assms by (rule write_ok [OF sim_Create, rotated]) (auto intro: tb_Create_ok uuid_canon)

lemma Updates_ok:
  assumes "dcall (db_Updates D cs as) c = (x, c')" "table_ok uuid_in (tab c)" shows "table_ok uuid_in (tab c')"
proof -
  obtain now where "dsim rows (db_Updates D cs as) (tb_Updates uuid_in now cs as) (d_state c)"
    using sim_Updates by (rule exE)
  then show ?thesis by (rule write_ok [OF _ _ assms]) (rule tb_Updates_ok)
qed

lemma Delete_ok:
  assumes "dcall (db_Delete D cs) c = (x, c')" "table_ok uuid_in (tab c)" shows "table_ok uuid_in (tab c')"
  using assms by (rule write_ok [OF sim_Delete, rotated]) (rule tb_Delete_ok)

lemma FindUserByID_keeps: "FindUserByID D c uid = (x, c') \<Longrightarrow> tab c' = tab c"
  by (auto simp: FindUserByID_def split: prod.splits sum.splits sql_error.splits dest: Take_keeps)

lemma FindUserByEmail_keeps: "FindUserByEmail U D c e = (x, c') \<Longrightarrow> tab c' = tab c"
  by (auto simp: FindUserByEmail_def split: prod.splits sum.splits sql_error.splits dest: Take_keeps)

lemma step_table_ok:
  assumes "repo_step B D c c'" "table_ok uuid_in (tab c)"
  shows "table_ok uuid_in (tab c')"
  using assms(1)
proof cases
  case (create u x)
  then show ?thesis
    using assms(2) by (auto simp: CreateUser_def split: prod.splits sum.splits sql_error.splits dest: Create_ok)
next
  case (update u x)
  obtain y c1 where y: "dcall (db_Updates D [IdEq (ID u)] [SetEmail (Email u), SetRemark (Remark u),
      SetPasswordHash (PasswordHash u), SetRole (Role u), SetUpdatedAt (UpdatedAt u)]) c = (y, c1)" by fastforce
  have ok: "table_ok uuid_in (tab c1)" by (rule Updates_ok [OF y assms(2)])
  from update y have "tab c' = tab c1"
    by (auto simp: UpdateUser_def split: prod.splits sum.splits sql_error.splits if_splits dest: FindUserByID_keeps)
  with ok show ?thesis by simp
next
  case (set_active uid a x)
  obtain y c1 where y: "dcall (db_Updates D [IdEq uid] [SetActive a]) c = (y, c1)" by fastforce
  have ok: "table_ok uuid_in (tab c1)" by (rule Updates_ok [OF y assms(2)])
  from set_active y have "tab c' = tab c1"
    by (auto simp: SetUserActive_def split: prod.splits sum.splits sql_error.splits if_splits dest: FindUserByID_keeps)
  with ok show ?thesis by simp
next
  case (delete uid y)
  then show ?thesis
    using assms(2) by (auto simp: DeleteUser_def split: prod.splits sum.splits sql_error.splits if_splits dest: Delete_ok)
next
  case (bootstrap pw salt uid now z)
  then show ?thesis
    using assms(2)
    by (auto simp: EnsureBootstrapAdmin_def Let_def split: option.splits prod.splits sum.splits sql_error.splits
        dest!: Take_keeps dest: Create_ok Updates_ok)
qed (use assms(2) FindUserByID_keeps FindUserByEmail_keeps in simp_all)

text \<open>Successful replies, whatever faults the connection has.\<close>

lemma Take_Inr:
  assumes "dcall (db_Take D cs) c = (Inr u, c')"
  shows "u \<in> set (tab c) \<and> matches uuid_in cs u \<and> tab c' = tab c"
  using dcall_view(2) [OF sim_Take assms refl]
  by (auto simp: tb_Take_def find_Some_iff split: if_splits option.splits)

lemma FindUserByID_Inr:
  assumes "FindUserByID D c uid = (Inr u, c')"
  shows "u \<in> set (tab c) \<and> uuid_in uid = Some (ID u) \<and> tab c' = tab c"
  using assms by (auto simp: FindUserByID_def split: prod.splits sum.splits sql_error.splits dest: Take_Inr)

lemma FindUserByEmail_Inr:
  assumes "FindUserByEmail U D c e = (Inr u, c')"
  shows "u \<in> set (tab c) \<and> Email u = normalizeEmail U e \<and> tab c' = tab c"
  using assms by (auto simp: FindUserByEmail_def split: prod.splits sum.splits sql_error.splits dest: Take_Inr)

lemma CreateUser_Inr:
  assumes "CreateUser D c u = (Inr v, c')"
  shows "v = u \<and> uuid_in (ID u) \<noteq> None \<and> row_ok u \<and> tab c' = tab c @ [stored uuid_in tm u]
    \<and> (\<forall>r \<in> set (tab c). ID r \<noteq> ID (stored uuid_in tm u) \<and> Email r \<noteq> Email u)"
proof -
  have d: "dcall (db_Create D u) c = (Inr (), c')" "v = u"
    using assms by (auto simp: CreateUser_def split: prod.splits sum.splits sql_error.splits)
  from dcall_view(2) [OF sim_Create d(1) refl] d(2) show ?thesis
    by (auto simp: tb_Create_def stored_def list_ex_iff split: option.splits if_splits)
qed

lemma Updates_Inr:
  assumes "dcall (db_Updates D [IdEq uid] as) c = (Inr n, c')"
  obtains i now where "uuid_in uid = Some i" "tab c' = map (\<lambda>u. if ID u = i then assigned now as u else u) (tab c)"
    "n = int (length (filter (\<lambda>u. ID u = i) (tab c)))"
proof -
  obtain now where "dsim rows (db_Updates D [IdEq uid] as) (tb_Updates uuid_in now [IdEq uid] as) (d_state c)"
    using sim_Updates by (rule exE)
  note e = dcall_view(2) [OF this assms refl]
  from e obtain i where i: "uuid_in uid = Some i"
    by (auto simp: tb_Updates_def Let_def split: if_splits)
  show ?thesis
    by (rule that [OF i, of now]) (use e i in \<open>simp_all add: tb_Updates_def Let_def matches_id split: if_splits\<close>)
qed

text \<open>Whatever the reply, an update that has run has changed the selected row only.\<close>

lemma UpdateUser_any:
  assumes "UpdateUser D c u = (x, c')"
  shows "tab c' = tab c \<or> (\<exists>i now. uuid_in (ID u) = Some i \<and> tab c' = map (\<lambda>r. if ID r = i then patched now u r else r) (tab c))"
proof -
  let ?as = "[SetEmail (Email u), SetRemark (Remark u), SetPasswordHash (PasswordHash u), SetRole (Role u), SetUpdatedAt (UpdatedAt u)]"
  obtain y c1 where y: "dcall (db_Updates D [IdEq (ID u)] ?as) c = (y, c1)" by fastforce
  have c': "tab c' = tab c1"
    using assms y by (auto simp: UpdateUser_def split: sum.splits sql_error.splits if_splits dest: FindUserByID_keeps)
  obtain now where now: "dsim rows (db_Updates D [IdEq (ID u)] ?as) (tb_Updates uuid_in now [IdEq (ID u)] ?as) (d_state c)"
    using sim_Updates by (rule exE)
  let ?us = "snd (tb_Updates uuid_in now [IdEq (ID u)] ?as (tab c))"
  have "?us = tab c \<or> (\<exists>i. uuid_in (ID u) = Some i \<and> ?us = map (\<lambda>r. if ID r = i then patched now u r else r) (tab c))"
  proof (cases "uuid_in (ID u)")
    case (Some i)
    then show ?thesis by (auto simp: tb_Updates_def Let_def matches_id assigned_def patched_def)
  qed (simp add: tb_Updates_def)
  then show ?thesis using dcall_view(1) [OF now y] unfolding c' by (elim disjE) auto
qed

lemma SetUserActive_Inr:
  assumes "SetUserActive D c uid a = (Inr v, c')"
  obtains i where "uuid_in uid = Some i" "tab c' = map (\<lambda>u. if ID u = i then u\<lparr>Active := a\<rparr> else u) (tab c)"
    "v \<in> set (tab c')" "ID v = i" "Active v = a"
proof -
  obtain n c1 where n: "dcall (db_Updates D [IdEq uid] [SetActive a]) c = (Inr n, c1)" and f: "FindUserByID D c1 uid = (Inr v, c')"
    using assms by (auto simp: SetUserActive_def split: prod.splits sum.splits sql_error.splits if_splits)
  obtain i now where i: "uuid_in uid = Some i" and t: "tab c1 = map (\<lambda>u. if ID u = i then assigned now [SetActive a] u else u) (tab c)"
    by (rule Updates_Inr [OF n])
  have t': "tab c1 = map (\<lambda>u. if ID u = i then u\<lparr>Active := a\<rparr> else u) (tab c)"
    unfolding t by (simp add: assigned_def cong: if_cong)
  have v: "v \<in> set (tab c1)" "ID v = i" "tab c' = tab c1" using FindUserByID_Inr [OF f] i by simp_all
  from v(1) obtain r where r: "v = (if ID r = i then r\<lparr>Active := a\<rparr> else r)" unfolding t' set_map by (rule imageE)
  have "Active v = a" using r v(2) by (cases "ID r = i") simp_all
  with v t' show ?thesis by (intro that [OF i]) simp_all
qed

lemma UpdateUser_Inr:
  assumes "UpdateUser D c u = (Inr v, c')"
  obtains i now r where "uuid_in (ID u) = Some i" "tab c' = map (\<lambda>r. if ID r = i then patched now u r else r) (tab c)"
    "v \<in> set (tab c')" "r \<in> set (tab c)" "ID r = i" "v = patched now u r"
proof -
  let ?as = "[SetEmail (Email u), SetRemark (Remark u), SetPasswordHash (PasswordHash u), SetRole (Role u), SetUpdatedAt (UpdatedAt u)]"
  obtain n c1 where n: "dcall (db_Updates D [IdEq (ID u)] ?as) c = (Inr n, c1)" and f: "FindUserByID D c1 (ID u) = (Inr v, c')"
    using assms by (auto simp: UpdateUser_def split: prod.splits sum.splits sql_error.splits if_splits)
  obtain i now where i: "uuid_in (ID u) = Some i" and t: "tab c1 = map (\<lambda>r. if ID r = i then assigned now ?as r else r) (tab c)"
    by (rule Updates_Inr [OF n])
  have t': "tab c1 = map (\<lambda>r. if ID r = i then patched now u r else r) (tab c)"
    unfolding t by (simp add: assigned_def patched_def cong: if_cong)
  have v: "v \<in> set (tab c1)" "ID v = i" "tab c' = tab c1" using FindUserByID_Inr [OF f] i by simp_all
  from v(1) obtain r where r: "r \<in> set (tab c)" "v = (if ID r = i then patched now u r else r)" unfolding t' set_map by (rule imageE)
  have "ID r = i" using r(2) v(2) by (cases "ID r = i") simp_all
  then show ?thesis using v t' r by (intro that [OF i]) simp_all
qed

lemma DeleteUser_Inr:
  assumes "DeleteUser D c uid = (Inr (), c')"
  obtains i u where "uuid_in uid = Some i" "tab c' = filter (\<lambda>u. ID u \<noteq> i) (tab c)" "u \<in> set (tab c)" "ID u = i"
proof -
  obtain n where n: "dcall (db_Delete D [IdEq uid]) c = (Inr n, c')" "n \<noteq> 0"
    using assms by (auto simp: DeleteUser_def split: prod.splits sum.splits sql_error.splits if_splits)
  note e = dcall_view(2) [OF sim_Delete n(1) refl]
  from e obtain i where i: "uuid_in uid = Some i" by (auto simp: tb_Delete_def split: if_splits)
  from e i have t: "tab c' = filter (\<lambda>u. ID u \<noteq> i) (tab c)" "n = int (length (filter (\<lambda>u. ID u = i) (tab c)))"
    by (simp_all add: tb_Delete_def matches_id split: if_splits)
  then obtain u where "u \<in> set (tab c)" "ID u = i" using n(2) by (auto simp: filter_empty_conv)
  then show ?thesis using i t by (intro that) simp_all
qed

text \<open>Replies on a working connection.\<close>

lemma Take_clean:
  assumes "d_faults c = []"
  obtains d' where "dcall (db_Take D cs) c = (fst (tb_Take uuid_in cs (tab c)), c\<lparr>d_state := d'\<rparr>)" "rows d' = tab c"
  using dcall_view_clean [OF sim_Take assms, of cs] by (auto simp: tb_Take_same)

lemma table_row_unique:
  assumes "table_ok uuid_in us" "u \<in> set us" "v \<in> set us" "ID u = ID v \<or> Email u = Email v"
  shows "u = v"
  using assms by (auto simp: table_ok_def distinct_map dest: inj_onD)

lemma find_row:
  assumes "table_ok uuid_in us" "u \<in> set us" "P u" "\<And>v. P v \<Longrightarrow> ID v = ID u \<or> Email v = Email u"
  shows "find P us = Some u"
proof (cases "find P us")
  case None
  then show ?thesis using assms(2,3) by (auto simp: find_None_iff)
next
  case (Some v)
  then have "v \<in> set us" "P v" by (auto simp: find_Some_iff)
  then show ?thesis using Some table_row_unique [OF assms(1) _ assms(2)] assms(4) by blast
qed

lemma FindUserByEmail_clean:
  assumes "d_faults c = []" "table_ok uuid_in (tab c)" "u \<in> set (tab c)" "Email u = normalizeEmail U e"
  obtains d' where "FindUserByEmail U D c e = (Inr u, c\<lparr>d_state := d'\<rparr>)" "rows d' = tab c"
proof -
  have "pg_text (normalizeEmail U e)" using assms by (auto simp: table_ok_def row_ok_def)
  moreover have "find (matches uuid_in [EmailEq (normalizeEmail U e)]) (tab c) = Some u"
    by (rule find_row [OF assms(2,3)]) (use assms(4) in auto)
  ultimately have "fst (tb_Take uuid_in [EmailEq (normalizeEmail U e)] (tab c)) = Inr u" by (simp add: tb_Take_def)
  moreover obtain d' where d: "dcall (db_Take D [EmailEq (normalizeEmail U e)]) c = (fst (tb_Take uuid_in [EmailEq (normalizeEmail U e)] (tab c)), c\<lparr>d_state := d'\<rparr>)" "rows d' = tab c"
    by (rule Take_clean [OF assms(1)])
  ultimately show ?thesis using that [OF _ d(2)] by (simp add: FindUserByEmail_def)
qed

lemma FindUserByID_clean:
  assumes "d_faults c = []" "table_ok uuid_in (tab c)" "u \<in> set (tab c)" "uuid_in uid = Some (ID u)"
  obtains d' where "FindUserByID D c uid = (Inr u, c\<lparr>d_state := d'\<rparr>)" "rows d' = tab c"
proof -
  have "find (matches uuid_in [IdEq uid]) (tab c) = Some u"
    by (rule find_row [OF assms(2,3)]) (use assms(4) in auto)
  then have "fst (tb_Take uuid_in [IdEq uid] (tab c)) = Inr u" using assms(4) by (simp add: tb_Take_def)
  moreover obtain d' where d: "dcall (db_Take D [IdEq uid]) c = (fst (tb_Take uuid_in [IdEq uid] (tab c)), c\<lparr>d_state := d'\<rparr>)" "rows d' = tab c"
    by (rule Take_clean [OF assms(1)])
  ultimately show ?thesis using that [OF _ d(2)] by (simp add: FindUserByID_def)
qed

lemma Find_clean:
  assumes "d_faults c = []" "\<not> list_ex (cond_error uuid_in) cs"
  obtains xs d' where "newest_first (filter (matches uuid_in cs) (tab c)) xs" "rows d' = tab c"
    "dcall (db_Find D cs offset limit) c = (Inr (page offset limit xs), c\<lparr>d_state := d'\<rparr>)"
  using find_page [OF assms(2), of "d_state c" offset limit] find_rows [of cs offset limit "d_state c"]
    dcall_clean [OF assms(1), of "db_Find D cs offset limit"] that by (metis (full_types))

lemma Count_clean:
  assumes "d_faults c = []" "\<not> list_ex (cond_error uuid_in) cs"
  obtains d' where "rows d' = tab c"
    "dcall (db_Count D cs) c = (Inr (int (length (filter (matches uuid_in cs) (tab c)))), c\<lparr>d_state := d'\<rparr>)"
  using dcall_view_clean [OF sim_Count assms(1), of cs] assms(2) that by (auto simp: tb_Count_def)

end

lemma page_length:
  assumes "0 \<le> offset" "0 < limit" "0 < length (page offset limit xs)" "int (length (page offset limit xs)) < limit"
  shows "int (length xs) = int (length (page offset limit xs)) + offset"
  using assms by (auto simp: page_def Let_def min_def split: if_splits)

context user_db
begin

text \<open>The shortcut of \<open>FindByPage\<close> agrees with the count it saves.\<close>

lemma FindByPage_clean:
  assumes c: "d_faults c = []" "\<not> list_ex (cond_error uuid_in) cs"
    and b: "0 \<le> offset" "0 < limit" "offset + limit < 2 ^ 63"
  obtains xs d' where "newest_first (filter (matches uuid_in cs) (tab c)) xs" "rows d' = tab c"
    "FindByPage D c cs offset limit =
      (Inr (page offset limit xs, int (length (filter (matches uuid_in cs) (tab c)))), c\<lparr>d_state := d'\<rparr>)"
proof -
  obtain xs d1 where x: "newest_first (filter (matches uuid_in cs) (tab c)) xs" "rows d1 = tab c"
    "dcall (db_Find D cs offset limit) c = (Inr (page offset limit xs), c\<lparr>d_state := d1\<rparr>)"
    by (rule Find_clean [OF c])
  have l: "length xs = length (filter (matches uuid_in cs) (tab c))"
    using x(1) mset_eq_length unfolding newest_first_def by blast
  let ?size = "int (length (page offset limit xs))"
  show ?thesis
  proof (cases "0 < ?size \<and> ?size < limit")
    case True
    then have "int (length xs) = ?size + offset" using page_length [OF b(1,2), of xs] by simp
    moreover have "go_int (?size + offset) = ?size + offset" using True b by (intro go_int_idle) auto
    ultimately show ?thesis
      using x l True b(2) by (intro that [OF x(1,2)]) (simp add: FindByPage_def Let_def)
  next
    case False
    obtain d2 where d2: "rows d2 = tab (c\<lparr>d_state := d1\<rparr>)"
      "dcall (db_Count D cs) (c\<lparr>d_state := d1\<rparr>) =
         (Inr (int (length (filter (matches uuid_in cs) (tab (c\<lparr>d_state := d1\<rparr>))))), (c\<lparr>d_state := d1\<rparr>)\<lparr>d_state := d2\<rparr>)"
      by (rule Count_clean [of "c\<lparr>d_state := d1\<rparr>" cs]) (use c in simp_all)
    show ?thesis
      using False x d2 b(2) by (intro that [OF x(1), of d2]) (auto simp: FindByPage_def Let_def)
  qed
qed

text \<open>The bootstrap on a working connection.\<close>

lemma EnsureBootstrapAdmin_Inr:
  assumes "EnsureBootstrapAdmin B D c pw salt new_id now = (Inr (e, p, uid), c')" "table_ok uuid_in (tab c)"
  obtains h a where "HashPassword B salt pw = Some h" "e = bootstrapAdminEmail" "p = pw" "a \<in> set (tab c')"
    "uuid_in uid = Some (ID a)" "Email a = bootstrapAdminEmail" "Active a" "Role a = RoleAdmin" "PasswordHash a = h"
    "filter (\<lambda>u. Email u \<noteq> bootstrapAdminEmail) (tab c') = filter (\<lambda>u. Email u \<noteq> bootstrapAdminEmail) (tab c)"
proof -
  obtain h where h: "HashPassword B salt pw = Some h"
    using assms(1) by (auto simp: EnsureBootstrapAdmin_def split: option.splits)
  obtain x c1 where x: "dcall (db_Take D [EmailEq bootstrapAdminEmail]) c = (x, c1)" by fastforce
  have t1: "tab c1 = tab c" by (rule Take_keeps [OF x])
  let ?n = "\<lparr>ID = new_id, Email = bootstrapAdminEmail, Remark = ''admin'', PasswordHash = h,
      Active = True, Role = RoleAdmin, CreatedAt = now, UpdatedAt = now\<rparr>"
  show ?thesis
  proof (cases x)
    case (Inl err)
    have d: "dcall (db_Create D ?n) c1 = (Inr (), c')" "e = bootstrapAdminEmail" "p = pw" "uid = new_id"
      using assms(1) h x Inl
      by (auto simp: EnsureBootstrapAdmin_def split: sql_error.splits sum.splits prod.splits)
    have "CreateUser D c1 ?n = (Inr ?n, c')" using d(1) by (simp add: CreateUser_def)
    note cr = CreateUser_Inr [OF this]
    show ?thesis
      by (rule that [OF h d(2,3), of "stored uuid_in tm ?n"])
        (use cr d(4) t1 in \<open>auto simp: stored_def intro: uuid_canon\<close>)
  next
    case (Inr r)
    note f = Take_Inr [OF x [unfolded Inr]]
    obtain n where d: "dcall (db_Updates D [IdEq (ID r)] [SetPasswordHash h, SetRemark ''admin'', SetRole RoleAdmin, SetActive True]) c1 = (Inr n, c')"
      "e = bootstrapAdminEmail" "p = pw" "uid = ID r"
      using assms(1) h x Inr by (auto simp: EnsureBootstrapAdmin_def split: sum.splits prod.splits)
    obtain i now' where u: "uuid_in (ID r) = Some i" "tab c' = map (\<lambda>u. if ID u = i then assigned now'
        [SetPasswordHash h, SetRemark ''admin'', SetRole RoleAdmin, SetActive True] u else u) (tab c1)"
      by (rule Updates_Inr [OF d(1)])
    have i: "i = ID r" using assms(2) f u(1) by (auto simp: table_ok_def)
    have same: "ID v = ID r \<longleftrightarrow> Email v = bootstrapAdminEmail" if "v \<in> set (tab c)" for v
      using table_row_unique [OF assms(2) that, of r] f by auto
    let ?a = "assigned now' [SetPasswordHash h, SetRemark ''admin'', SetRole RoleAdmin, SetActive True]"
    have "filter (\<lambda>u. Email u \<noteq> bootstrapAdminEmail) (map (\<lambda>u. if ID u = i then ?a u else u) us) =
        filter (\<lambda>u. Email u \<noteq> bootstrapAdminEmail) us" if "set us \<subseteq> set (tab c)" for us
      using that same by (induction us) (auto simp: i assigned_def)
    then show ?thesis
      by (intro that [OF h d(2,3), of "?a r"]) (use f u t1 i d(4) in \<open>auto simp: assigned_def\<close>)
  qed
qed

lemma update_clean:
  assumes "d_faults c = []" "r \<in> set (tab c)" "table_ok uuid_in (tab c)"
    and "\<And>now u. u \<in> set (tab c) \<Longrightarrow> ID u = ID r \<Longrightarrow> row_ok (assigned now as u)"
    and "\<And>now u. Email (assigned now as u) = Email u"
  obtains n d' where "dcall (db_Updates D [IdEq (ID r)] as) c = (Inr n, c\<lparr>d_state := d'\<rparr>)"
proof -
  obtain now where now: "dsim rows (db_Updates D [IdEq (ID r)] as) (tb_Updates uuid_in now [IdEq (ID r)] as) (d_state c)"
    using sim_Updates by (rule exE)
  have id: "uuid_in (ID r) = Some (ID r)" using assms(2,3) by (simp add: table_ok_def)
  let ?us = "map (\<lambda>u. if ID u = ID r then assigned now as u else u) (tab c)"
  have "map Email ?us = map Email (tab c)" by (simp add: assms(5))
  then have "distinct (map Email ?us)" using assms(3) unfolding table_ok_def by metis
  moreover have "list_all row_ok ?us" using assms(3,4) by (auto simp: list_all_iff table_ok_def)
  ultimately have "\<exists>n. fst (tb_Updates uuid_in now [IdEq (ID r)] as (tab c)) = Inr n"
    using id matches_id [of uuid_in "ID r" "ID r"] by (simp add: tb_Updates_def Let_def)
  then show ?thesis using dcall_view_clean [OF now assms(1)] that by metis
qed

lemma EnsureBootstrapAdmin_clean:
  assumes c: "d_faults c = []" "table_ok uuid_in (tab c)" and h: "HashPassword B salt pw = Some h" "pg_text h"
    and nid: "uuid_in new_id = Some i" "\<forall>u \<in> set (tab c). ID u \<noteq> i"
  shows "\<exists>e p uid c'. EnsureBootstrapAdmin B D c pw salt new_id now = (Inr (e, p, uid), c')"
proof -
  let ?cs = "[EmailEq bootstrapAdminEmail]"
  obtain d1 where d1: "dcall (db_Take D ?cs) c = (fst (tb_Take uuid_in ?cs (tab c)), c\<lparr>d_state := d1\<rparr>)" "rows d1 = tab c"
    by (rule Take_clean [OF c(1)])
  have t: "pg_text bootstrapAdminEmail" "pg_text ''admin''"
    by (simp_all add: bootstrapAdminEmail_def pg_text_def is_ascii_valid_utf8)
  show ?thesis
  proof (cases "find (matches uuid_in ?cs) (tab c)")
    case None
    let ?n = "\<lparr>ID = new_id, Email = bootstrapAdminEmail, Remark = ''admin'', PasswordHash = h,
        Active = True, Role = RoleAdmin, CreatedAt = now, UpdatedAt = now\<rparr>"
    have "row_ok ?n" using t h by (simp add: row_ok_def)
    then have "fst (tb_Create uuid_in tm ?n (tab c)) = Inr ()"
      using None nid by (auto simp: tb_Create_def list_ex_iff find_None_iff)
    then obtain c2 where "dcall (db_Create D ?n) (c\<lparr>d_state := d1\<rparr>) = (Inr (), c2)"
      using dcall_view_clean [OF sim_Create, of "c\<lparr>d_state := d1\<rparr>" ?n] c(1) d1(2) by auto
    then show ?thesis using d1 None t h by (simp add: EnsureBootstrapAdmin_def tb_Take_def)
  next
    case (Some r)
    then have r: "r \<in> set (tab c)" by (auto simp: find_Some_iff)
    let ?as = "[SetPasswordHash h, SetRemark ''admin'', SetRole RoleAdmin, SetActive True]"
    obtain n d2 where "dcall (db_Updates D [IdEq (ID r)] ?as) (c\<lparr>d_state := d1\<rparr>) = (Inr n, (c\<lparr>d_state := d1\<rparr>)\<lparr>d_state := d2\<rparr>)"
      by (rule update_clean [of "c\<lparr>d_state := d1\<rparr>" r ?as])
        (use c d1 r t h in \<open>auto simp: assigned_def row_ok_def table_ok_def\<close>)
    then show ?thesis using d1 Some t h by (simp add: EnsureBootstrapAdmin_def tb_Take_def)
  qed
qed

end

section \<open>Properties\<close>

text \<open>A small table for the witnesses.\<close>

definition demo_user :: "string \<Rightarrow> string \<Rightarrow> user" where
  "demo_user uid email = \<lparr>ID = uid, Email = email, Remark = ''r'', PasswordHash = ''$'', Active = True, Role = ''user'', CreatedAt = 5, UpdatedAt = 5\<rparr>"

definition demo_db :: "user list \<Rightarrow> user list dconn" where
  "demo_db us = \<lparr>d_state = us, d_faults = []\<rparr>"

abbreviation plain_unicode :: unicode_tables where
  "plain_unicode \<equiv> \<lparr>uni_lower = id, uni_upper = id\<rparr>"

lemma demo_user_simps [simp]: "ID (demo_user i e) = i" "Email (demo_user i e) = e" "CreatedAt (demo_user i e) = 5"
  by (simp_all add: demo_user_def)

lemma pg_text_ascii: "is_ascii s \<Longrightarrow> CHR 0x00 \<notin> set s \<Longrightarrow> pg_text s"
  by (simp add: pg_text_def is_ascii_valid_utf8)

lemma demo_table_ok: "table_ok fold_id [demo_user ''u1'' ''a@b.c'']"
proof -
  have "map ascii_lower ''u1'' = ''u1''" by code_simp
  then show ?thesis
    by (simp add: table_ok_def row_ok_def demo_user_def pg_text_ascii fold_id_def Valid_def RoleAdmin_def RoleUser_def)
qed

text \<open>
  What an operation may leave of the table: the given rows on success, the old ones when it reports a conflict,
  and either of the two after any other error (a connection can fail before or after the statement ran).
\<close>

definition leaves :: "user list \<Rightarrow> user list \<Rightarrow> ('d \<Rightarrow> user list) \<Rightarrow> (data_error + 'a) \<times> 'd dconn \<Rightarrow> bool" where
  "leaves us us' rows out \<longleftrightarrow>
     (case fst out of
        Inr _ \<Rightarrow> rows (d_state (snd out)) = us'
      | Inl ErrConflict \<Rightarrow> rows (d_state (snd out)) = us
      | Inl _ \<Rightarrow> rows (d_state (snd out)) \<in> {us, us'})"

text \<open>The rows with one of them changed, the one \<open>uid\<close> names, if any.\<close>

definition change_row :: "(string \<Rightarrow> string option) \<Rightarrow> string \<Rightarrow> (user \<Rightarrow> user) \<Rightarrow> user list \<Rightarrow> user list" where
  "change_row uuid_in uid f us = map (\<lambda>r. if uuid_in uid = Some (ID r) then f r else r) us"

definition admin_reset :: "string \<Rightarrow> user \<Rightarrow> user" where
  "admin_reset h r = r\<lparr>PasswordHash := h, Remark := ''admin'', Role := RoleAdmin, Active := True\<rparr>"

text \<open>The row a bootstrap inserts when there is none.\<close>

definition admin_row :: "string \<Rightarrow> string \<Rightarrow> instant \<Rightarrow> user" where
  "admin_row uid h now = \<lparr>ID = uid, Email = bootstrapAdminEmail, Remark = ''admin'', PasswordHash = h, Active = True,
     Role = RoleAdmin, CreatedAt = now, UpdatedAt = now\<rparr>"

text \<open>One statement, by its reply: an error reply of the database means that nothing was written.\<close>

lemma dcall_leaves:
  assumes sim: "dsim rows m tb (d_state c)" and err: "\<And>e. fst (tb (rows (d_state c))) = Inl e \<Longrightarrow> snd (tb (rows (d_state c))) = rows (d_state c)"
    and ok: "\<And>a. fst (tb (rows (d_state c))) = Inr a \<Longrightarrow> snd (tb (rows (d_state c))) = us'"
    and run: "dcall m c = (x, c')"
  shows "case x of Inr _ \<Rightarrow> rows (d_state c') = us' | Inl ErrDuplicatedKey \<Rightarrow> rows (d_state c') = rows (d_state c)
    | Inl _ \<Rightarrow> rows (d_state c') \<in> {rows (d_state c), us'}"
proof -
  obtain y d' where m: "m (d_state c) = (y, d')" by fastforce
  then have tb: "tb (rows (d_state c)) = (y, rows d')" using sim by (simp add: dsim_def)
  have d: "rows d' = (case y of Inr _ \<Rightarrow> us' | Inl _ \<Rightarrow> rows (d_state c))"
    using err ok tb by (cases y) auto
  show ?thesis using run m d
    by (auto simp: dcall_def split: list.splits fault.splits sum.splits sql_error.splits)
qed

lemma tb_Updates_change:
  assumes "\<And>r. assigned now as r = f r"
  shows "fst (tb_Updates uuid_in now [IdEq uid] as us) = Inl e \<Longrightarrow> snd (tb_Updates uuid_in now [IdEq uid] as us) = us"
    and "fst (tb_Updates uuid_in now [IdEq uid] as us) = Inr n \<Longrightarrow> snd (tb_Updates uuid_in now [IdEq uid] as us) = change_row uuid_in uid f us"
  by (auto simp: tb_Updates_def Let_def change_row_def assms split: if_splits)

context user_db
begin

lemma CreateUser_leaves: "leaves (tab c) (tab c @ [stored uuid_in tm u]) rows (CreateUser D c u)"
proof -
  obtain x c' where run: "dcall (db_Create D u) c = (x, c')" by fastforce
  have "case x of Inr _ \<Rightarrow> tab c' = tab c @ [stored uuid_in tm u] | Inl ErrDuplicatedKey \<Rightarrow> tab c' = tab c
    | Inl _ \<Rightarrow> tab c' \<in> {tab c, tab c @ [stored uuid_in tm u]}"
    by (rule dcall_leaves [OF sim_Create _ _ run]) (auto simp: tb_Create_def stored_def split: option.splits if_splits)
  then show ?thesis using run
    by (auto simp: leaves_def CreateUser_def split: sum.splits sql_error.splits)
qed

lemma Updates_leaves:
  assumes "\<And>now r. assigned now as r = f now r" "dcall (db_Updates D [IdEq uid] as) c = (x, c')"
  obtains now where "case x of Inr _ \<Rightarrow> tab c' = change_row uuid_in uid (f now) (tab c) | Inl ErrDuplicatedKey \<Rightarrow> tab c' = tab c
    | Inl _ \<Rightarrow> tab c' \<in> {tab c, change_row uuid_in uid (f now) (tab c)}"
proof -
  obtain now where now: "dsim rows (db_Updates D [IdEq uid] as) (tb_Updates uuid_in now [IdEq uid] as) (d_state c)"
    using sim_Updates by (rule exE)
  show ?thesis by (rule that [of now], rule dcall_leaves [OF now tb_Updates_change [OF assms(1)] assms(2)])
qed

lemma UpdateUser_leaves: "\<exists>now. leaves (tab c) (change_row uuid_in (ID u) (patched now u) (tab c)) rows (UpdateUser D c u)"
proof -
  let ?as = "[SetEmail (Email u), SetRemark (Remark u), SetPasswordHash (PasswordHash u), SetRole (Role u), SetUpdatedAt (UpdatedAt u)]"
  obtain x c' where run: "dcall (db_Updates D [IdEq (ID u)] ?as) c = (x, c')" by fastforce
  obtain now where e: "case x of Inr _ \<Rightarrow> tab c' = change_row uuid_in (ID u) (patched now u) (tab c) | Inl ErrDuplicatedKey \<Rightarrow> tab c' = tab c
    | Inl _ \<Rightarrow> tab c' \<in> {tab c, change_row uuid_in (ID u) (patched now u) (tab c)}"
    by (rule Updates_leaves [OF _ run, of "\<lambda>now. patched now u"]) (simp_all add: assigned_def patched_def)
  obtain y c2 where f: "FindUserByID D c' (ID u) = (y, c2)" by fastforce
  have "y \<noteq> Inl ErrConflict" using f by (auto simp: FindUserByID_def split: sum.splits sql_error.splits prod.splits)
  then show ?thesis using e run f FindUserByID_keeps [OF f]
    by (intro exI [of _ now]) (auto simp: leaves_def UpdateUser_def split: sum.splits sql_error.splits data_error.splits)
qed

lemma SetUserActive_leaves: "leaves (tab c) (change_row uuid_in uid (\<lambda>r. r\<lparr>Active := a\<rparr>) (tab c)) rows (SetUserActive D c uid a)"
proof -
  obtain x c' where run: "dcall (db_Updates D [IdEq uid] [SetActive a]) c = (x, c')" by fastforce
  obtain now where e: "case x of Inr _ \<Rightarrow> tab c' = change_row uuid_in uid (\<lambda>r. r\<lparr>Active := a\<rparr>) (tab c) | Inl ErrDuplicatedKey \<Rightarrow> tab c' = tab c
    | Inl _ \<Rightarrow> tab c' \<in> {tab c, change_row uuid_in uid (\<lambda>r. r\<lparr>Active := a\<rparr>) (tab c)}"
    by (rule Updates_leaves [OF _ run, of "\<lambda>(now :: instant) r. r\<lparr>Active := a\<rparr>"]) (simp_all add: assigned_def)
  obtain y c2 where f: "FindUserByID D c' uid = (y, c2)" by fastforce
  have "y \<noteq> Inl ErrConflict" using f by (auto simp: FindUserByID_def split: sum.splits sql_error.splits prod.splits)
  then show ?thesis using e run f FindUserByID_keeps [OF f]
    by (auto simp: leaves_def SetUserActive_def split: sum.splits sql_error.splits data_error.splits)
qed

lemma DeleteUser_leaves: "leaves (tab c) (filter (\<lambda>r. uuid_in uid \<noteq> Some (ID r)) (tab c)) rows (DeleteUser D c uid)"
proof -
  obtain x c' where run: "dcall (db_Delete D [IdEq uid]) c = (x, c')" by fastforce
  have "case x of Inr _ \<Rightarrow> tab c' = filter (\<lambda>r. uuid_in uid \<noteq> Some (ID r)) (tab c) | Inl ErrDuplicatedKey \<Rightarrow> tab c' = tab c
    | Inl _ \<Rightarrow> tab c' \<in> {tab c, filter (\<lambda>r. uuid_in uid \<noteq> Some (ID r)) (tab c)}"
    by (rule dcall_leaves [OF sim_Delete _ _ run]) (auto simp: tb_Delete_def split: if_splits)
  then show ?thesis using run
    by (auto simp: leaves_def DeleteUser_def split: sum.splits sql_error.splits)
qed

lemma Find_leaves:
  "leaves (tab c) (tab c) rows (FindUserByID D c uid)" "leaves (tab c) (tab c) rows (FindUserByEmail U D c e)"
proof -
  obtain x c' y d where f: "FindUserByID D c uid = (x, c')" "FindUserByEmail U D c e = (y, d)" by fastforce
  show "leaves (tab c) (tab c) rows (FindUserByID D c uid)"
    using f(1) FindUserByID_keeps [OF f(1)] by (auto simp: leaves_def split: sum.split data_error.split)
  show "leaves (tab c) (tab c) rows (FindUserByEmail U D c e)"
    using f(2) FindUserByEmail_keeps [OF f(2)] by (auto simp: leaves_def split: sum.split data_error.split)
qed

lemma Bootstrap_leaves:
  assumes h: "HashPassword B salt pw = Some h"
  shows "leaves (tab c)
    (case find (\<lambda>r. Email r = bootstrapAdminEmail) (tab c) of
       None \<Rightarrow> tab c @ [stored uuid_in tm (admin_row new_id h now)]
     | Some r \<Rightarrow> change_row uuid_in (ID r) (admin_reset h) (tab c)) rows (EnsureBootstrapAdmin B D c pw salt new_id now)"
proof -
  let ?cs = "[EmailEq bootstrapAdminEmail]" and ?as = "[SetPasswordHash h, SetRemark ''admin'', SetRole RoleAdmin, SetActive True]"
  obtain x c1 where t: "dcall (db_Take D ?cs) c = (x, c1)" by fastforce
  have c1: "tab c1 = tab c" by (rule Take_keeps [OF t])
  have m: "matches uuid_in ?cs = (\<lambda>r. Email r = bootstrapAdminEmail)" by (simp add: fun_eq_iff)
  obtain y d' where y: "db_Take D ?cs (d_state c) = (y, d')" by fastforce
  then have "fst (tb_Take uuid_in ?cs (tab c)) = y" using sim_Take [of ?cs "d_state c"] by (simp add: dsim_def)
  then have x: "x = Inl (SqlOther ''connection'') \<or> x = fst (tb_Take uuid_in ?cs (tab c))"
    using t y by (auto simp: dcall_def split: list.splits fault.splits)
  show ?thesis
  proof (cases x)
    case (Inl e)
    show ?thesis
    proof (cases "e = ErrRecordNotFound")
      case True
      have n: "find (\<lambda>r. Email r = bootstrapAdminEmail) (tab c) = None"
        using x Inl True by (auto simp: tb_Take_def m split: if_splits option.splits)
      obtain z c2 where cr: "dcall (db_Create D (admin_row new_id h now)) c1 = (z, c2)" by fastforce
      have "case z of Inr _ \<Rightarrow> tab c2 = tab c1 @ [stored uuid_in tm (admin_row new_id h now)] | Inl ErrDuplicatedKey \<Rightarrow> tab c2 = tab c1
        | Inl _ \<Rightarrow> tab c2 \<in> {tab c1, tab c1 @ [stored uuid_in tm (admin_row new_id h now)]}"
        by (rule dcall_leaves [OF sim_Create _ _ cr]) (auto simp: tb_Create_def stored_def split: option.splits if_splits)
      then show ?thesis using t cr h n c1 Inl True
        by (auto simp: leaves_def EnsureBootstrapAdmin_def admin_row_def split: sum.splits sql_error.splits)
    next
      case False
      then show ?thesis using t h c1 Inl
        by (cases e) (auto simp: leaves_def EnsureBootstrapAdmin_def)
    qed
  next
    case (Inr r)
    have n: "find (\<lambda>r. Email r = bootstrapAdminEmail) (tab c) = Some r"
      using x Inr by (auto simp: tb_Take_def m split: if_splits option.splits)
    obtain z c2 where up: "dcall (db_Updates D [IdEq (ID r)] ?as) c1 = (z, c2)" by fastforce
    obtain w :: instant where "case z of Inr _ \<Rightarrow> tab c2 = change_row uuid_in (ID r) (admin_reset h) (tab c1) | Inl ErrDuplicatedKey \<Rightarrow> tab c2 = tab c1
        | Inl _ \<Rightarrow> tab c2 \<in> {tab c1, change_row uuid_in (ID r) (admin_reset h) (tab c1)}"
      by (rule Updates_leaves [OF _ up, of "\<lambda>(w :: instant). admin_reset h"]) (simp_all add: assigned_def admin_reset_def)
    then show ?thesis using t up h n c1 Inr
      by (auto simp: leaves_def EnsureBootstrapAdmin_def split: sum.splits sql_error.splits)
  qed
qed

end

text \<open>
  C34 (refinement). What each repository operation writes, whatever the connection does: creating appends the stored
  row, updating and enabling change the one row their id names (five columns, or the activity), deleting removes it, the
  bootstrap inserts its administrator or resets the row that has that email, and the two
  lookups write nothing. A success means that it was written and a conflict that
  it was not; after another error the table is the old or the new one, never something else.
\<close>

theorem repo_writes:
  assumes D: "user_db D rows uuid_in tm" and h: "HashPassword B salt pw = Some h" and us: "us = rows (d_state c)"
  shows "leaves us (us @ [stored uuid_in tm u]) rows (CreateUser D c u)
    \<and> (\<exists>now. leaves us (change_row uuid_in (ID u) (patched now u) us) rows (UpdateUser D c u))
    \<and> leaves us (change_row uuid_in uid (\<lambda>r. r\<lparr>Active := a\<rparr>) us) rows (SetUserActive D c uid a)
    \<and> leaves us (filter (\<lambda>r. uuid_in uid \<noteq> Some (ID r)) us) rows (DeleteUser D c uid)
    \<and> leaves us (case find (\<lambda>r. Email r = bootstrapAdminEmail) us of
         None \<Rightarrow> us @ [stored uuid_in tm (admin_row new_id h now)]
       | Some r \<Rightarrow> change_row uuid_in (ID r) (admin_reset h) us) rows (EnsureBootstrapAdmin B D c pw salt new_id now)
    \<and> leaves us us rows (FindUserByID D c uid) \<and> leaves us us rows (FindUserByEmail U D c email)"
  using user_db.Bootstrap_leaves [OF D h, where c = c and new_id = new_id and now = now] unfolding us
  by (intro conjI user_db.CreateUser_leaves [OF D] user_db.UpdateUser_leaves [OF D] user_db.SetUserActive_leaves [OF D]
      user_db.DeleteUser_leaves [OF D] user_db.Find_leaves [OF D])

theorem repo_writes_witness:
  "\<exists>c'. SetUserActive table_db \<lparr>d_state = [demo_user ''u1'' ''a@b.c'', demo_user ''u2'' ''d@e.f''], d_faults = [ReplyLost]\<rparr> ''U2'' False =
      (Inl (ErrOther ''connection''), c')
    \<and> d_state c' \<in> {[demo_user ''u1'' ''a@b.c'', demo_user ''u2'' ''d@e.f''],
        [demo_user ''u1'' ''a@b.c'', (demo_user ''u2'' ''d@e.f'')\<lparr>Active := False\<rparr>]}"
proof -
  let ?us = "[demo_user ''u1'' ''a@b.c'', demo_user ''u2'' ''d@e.f'']"
  let ?c = "\<lparr>d_state = ?us, d_faults = [ReplyLost]\<rparr>"
  have i: "fold_id ''U2'' = Some ''u2''" by (simp add: fold_id_def) code_simp
  obtain c' where run: "SetUserActive table_db ?c ''U2'' False = (Inl (ErrOther ''connection''), c')"
    by (simp add: SetUserActive_def dcall_def split_beta Let_def)
  have h: "HashPassword plain_bcrypt [] [] \<noteq> None"
    using plain_bcrypt.generate_short [of "[]" "[]"] by (simp add: HashPassword_def)
  then obtain h where "HashPassword plain_bcrypt [] [] = Some h" by blast
  from repo_writes [OF table_db.user_db_axioms this refl, of ?c]
  have "leaves ?us (change_row fold_id ''U2'' (\<lambda>r. r\<lparr>Active := False\<rparr>) ?us) (\<lambda>us. us) (SetUserActive table_db ?c ''U2'' False)"
    by simp
  then have "d_state c' \<in> {?us, [demo_user ''u1'' ''a@b.c'', (demo_user ''u2'' ''d@e.f'')\<lparr>Active := False\<rparr>]}"
    unfolding run by (simp add: leaves_def change_row_def i)
  then show ?thesis using run by blast
qed

text \<open>What a listing asks for.\<close>

definition listed :: "unicode_tables \<Rightarrow> string \<Rightarrow> role \<Rightarrow> bool option \<Rightarrow> user \<Rightarrow> bool" where
  "listed U email role active u =
     ((email = [] \<or> sublist (normalizeEmail U email) (Email u)) \<and> (role = [] \<or> Role u = role)
      \<and> (active = None \<or> active = Some (Active u)))"

lemma list_conds_matches: "matches uuid_in (list_conds U email role active) = listed U email role active"
proof
  fix u
  show "matches uuid_in (list_conds U email role active) u = listed U email role active u"
    using like_contains [of "normalizeEmail U email" "Email u"]
    by (cases active) (auto simp: list_conds_def listed_def sublist_def)
qed

lemma pg_text_append: "pg_text (a @ b) \<longleftrightarrow> valid_utf8 (a @ b) \<and> CHR 0x00 \<notin> set a \<and> CHR 0x00 \<notin> set b"
  by (auto simp: pg_text_def)

text \<open>
  C33 (equivalence). The listing is its specification: the page of the matching users, newest
  first, together with the number of all matching users, also where \<open>FindByPage\<close> computes
  that number without asking the database. A typed percent sign, underscore or backslash
  stands for itself: the email filter is substring search.
\<close>

theorem list_users_page:
  assumes "user_db D rows uuid_in tm" "d_faults c = []" "0 \<le> offset" "0 < limit" "offset + limit < 2 ^ 63"
    and "\<not> list_ex (cond_error uuid_in) (list_conds U email role active)"
  shows "\<exists>xs d'. newest_first (filter (listed U email role active) (rows (d_state c))) xs \<and> rows d' = rows (d_state c)
    \<and> ListUsers U D c offset limit email role active =
        (Inr (take (nat limit) (drop (nat offset) xs), int (length (filter (listed U email role active) (rows (d_state c))))),
         c\<lparr>d_state := d'\<rparr>)"
proof -
  obtain xs d' where x: "newest_first (filter (matches uuid_in (list_conds U email role active)) (rows (d_state c))) xs"
      "rows d' = rows (d_state c)"
    "FindByPage D c (list_conds U email role active) offset limit =
      (Inr (page offset limit xs, int (length (filter (matches uuid_in (list_conds U email role active)) (rows (d_state c))))), c\<lparr>d_state := d'\<rparr>)"
    by (rule user_db.FindByPage_clean [OF assms(1,2,6,3-5)])
  moreover have "page offset limit xs = take (nat limit) (drop (nat offset) xs)"
    using assms(3,4) by (simp add: page_def)
  ultimately show ?thesis unfolding list_conds_matches by (auto simp: ListUsers_def)
qed

theorem list_users_page_witness:
  "\<exists>c'. ListUsers plain_unicode table_db (demo_db [demo_user ''u1'' ''a@b.c'', (demo_user ''u2'' ''d@e.f'')\<lparr>Active := False\<rparr>]) 0 20 [] ''user'' (Some True) =
     (Inr ([demo_user ''u1'' ''a@b.c''], 1), c')"
proof -
  let ?u = "demo_user ''u1'' ''a@b.c''" and ?U = plain_unicode
  let ?us = "[?u, (demo_user ''u2'' ''d@e.f'')\<lparr>Active := False\<rparr>]"
  have f: "filter (listed ?U [] ''user'' (Some True)) ?us = [?u]" by (simp add: listed_def demo_user_def)
  have e: "\<not> list_ex (cond_error fold_id) (list_conds ?U [] ''user'' (Some True))" by (simp add: list_conds_def pg_text_ascii)
  obtain xs d' where x: "newest_first [?u] xs" "ListUsers ?U table_db (demo_db ?us) 0 20 [] ''user'' (Some True) =
      (Inr (take 20 xs, 1), (demo_db ?us)\<lparr>d_state := d'\<rparr>)"
    using list_users_page [OF table_db.user_db_axioms _ _ _ _ e, of "demo_db ?us" 0 20] f by (auto simp: demo_db_def)
  have "xs = [?u]" using x(1) by (simp add: newest_first_def)
  then show ?thesis using x(2) by auto
qed

text \<open>
  A created account can be found: by its email, typed with any surrounding
  space and capitals, and by its id, and both give the row that was stored. A second account
  with that email is refused with \<open>ErrConflict\<close> and changes nothing.
\<close>

theorem create_then_find:
  assumes D: "user_db D rows uuid_in tm" and c: "d_faults c = []" "table_ok uuid_in (rows (d_state c))"
    and cr: "CreateUser D c u = (Inr v, c')" and e: "normalizeEmail U e = Email u"
    and w: "Email w = Email u" "row_ok w" "uuid_in (ID w) \<noteq> None"
  shows "fst (FindUserByEmail U D c' e) = Inr (stored uuid_in tm u) \<and> fst (FindUserByID D c' (ID u)) = Inr (stored uuid_in tm u)
    \<and> (\<exists>d2. CreateUser D c' w = (Inl ErrConflict, c'\<lparr>d_state := d2\<rparr>) \<and> rows d2 = rows (d_state c'))"
proof -
  note i = user_db.CreateUser_Inr [OF D cr]
  let ?s = "stored uuid_in tm u"
  have c': "d_faults c' = []" using cr c dcall_faults by (auto simp: CreateUser_def split: prod.splits sum.splits sql_error.splits)
  have ok: "table_ok uuid_in (rows (d_state c'))"
    by (rule user_db.step_table_ok [OF D repo_step.create [OF cr] c(2)])
  have s: "?s \<in> set (rows (d_state c'))" "Email ?s = normalizeEmail U e" "uuid_in (ID u) = Some (ID ?s)"
    using i e by (auto simp: stored_def)
  obtain d1 d2 where "FindUserByEmail U D c' e = (Inr ?s, c'\<lparr>d_state := d1\<rparr>)" "FindUserByID D c' (ID u) = (Inr ?s, c'\<lparr>d_state := d2\<rparr>)"
    using user_db.FindUserByEmail_clean [OF D c' ok s(1,2)] user_db.FindUserByID_clean [OF D c' ok s(1,3)] by metis
  moreover have "tb_Create uuid_in tm w (rows (d_state c')) = (Inl ErrDuplicatedKey, rows (d_state c'))"
    using w s(1) e s(2) by (auto simp: tb_Create_def list_ex_iff)
  then have "\<exists>d2. CreateUser D c' w = (Inl ErrConflict, c'\<lparr>d_state := d2\<rparr>) \<and> rows d2 = rows (d_state c')"
    using dcall_view_clean [OF user_db.sim_Create [OF D, of w] c'] by (auto simp: CreateUser_def)
  ultimately show ?thesis by simp
qed

theorem create_then_find_witness:
  "\<exists>c'. CreateUser table_db (demo_db []) (demo_user ''u1'' ''a@b.c'') = (Inr (demo_user ''u1'' ''a@b.c''), c')
    \<and> fst (FindUserByEmail plain_unicode table_db c' '' A@b.C '') = Inr (demo_user ''u1'' ''a@b.c'')"
proof -
  let ?u = "demo_user ''u1'' ''a@b.c''"
  have fold: "fold_id ''u1'' = Some ''u1''" by (simp add: fold_id_def) code_simp
  have ok: "row_ok ?u" using demo_table_ok by (simp add: table_ok_def)
  have n: "normalizeEmail plain_unicode '' A@b.C '' = ''a@b.c''"
    by (simp add: normalizeEmail_def TrimSpace_ascii ToLower_def IsSpace_def) code_simp
  have cr: "CreateUser table_db (demo_db []) ?u = (Inr ?u, demo_db [?u])"
    by (simp add: CreateUser_def dcall_clean demo_db_def table_db_def tb_Create_def fold ok)
  have st: "stored fold_id id ?u = ?u" by (simp add: stored_def fold)
  have "fst (FindUserByEmail plain_unicode table_db (demo_db [?u]) '' A@b.C '') = Inr ?u"
    using create_then_find [OF table_db.user_db_axioms _ _ cr, of plain_unicode "'' A@b.C ''" ?u] n ok fold
    unfolding st by (simp add: demo_db_def table_ok_def)
  then show ?thesis using cr by blast
qed

text \<open>
  On a working connection the bootstrap of the administrator always succeeds:
  afterwards there is an active administrator with the fixed address whose stored hash
  accepts the new password, its id is the one that is returned, and every other account is
  unchanged.
\<close>

theorem bootstrap_admin:
  assumes D: "user_db D rows uuid_in tm" and B: "bcrypt_library B" and c: "d_faults c = []" "table_ok uuid_in (rows (d_state c))"
    and pw: "length pw \<le> 72" and nid: "uuid_in new_id = Some i" "\<forall>u \<in> set (rows (d_state c)). ID u \<noteq> i"
  shows "\<exists>uid c' a. EnsureBootstrapAdmin B D c pw salt new_id now = (Inr (bootstrapAdminEmail, pw, uid), c')
    \<and> a \<in> set (rows (d_state c')) \<and> uuid_in uid = Some (ID a) \<and> Email a = bootstrapAdminEmail \<and> Active a \<and> Role a = RoleAdmin
    \<and> Compare B (PasswordHash a) pw
    \<and> filter (\<lambda>u. Email u \<noteq> bootstrapAdminEmail) (rows (d_state c')) = filter (\<lambda>u. Email u \<noteq> bootstrapAdminEmail) (rows (d_state c))"
proof -
  obtain h where h: "HashPassword B salt pw = Some h" "Compare B h pw" "pg_text h"
    using bcrypt_library.HashPassword_Compare [OF B pw] bcrypt_library.generate_text [OF B] pg_text_ascii
    by (metis HashPassword_def)
  obtain e p uid c' where r: "EnsureBootstrapAdmin B D c pw salt new_id now = (Inr (e, p, uid), c')"
    using user_db.EnsureBootstrapAdmin_clean [OF D c h(1,3) nid] by blast
  obtain h' a where "HashPassword B salt pw = Some h'" "e = bootstrapAdminEmail" "p = pw" "a \<in> set (rows (d_state c'))" "uuid_in uid = Some (ID a)" "Email a = bootstrapAdminEmail"
    "Active a" "Role a = RoleAdmin" "PasswordHash a = h'"
    "filter (\<lambda>u. Email u \<noteq> bootstrapAdminEmail) (rows (d_state c')) = filter (\<lambda>u. Email u \<noteq> bootstrapAdminEmail) (rows (d_state c))"
    by (rule user_db.EnsureBootstrapAdmin_Inr [OF D r c(2)])
  with r h show ?thesis by (intro exI [of _ uid] exI [of _ c'] exI [of _ a]) simp
qed

theorem bootstrap_admin_witness:
  "\<exists>uid c' a. EnsureBootstrapAdmin plain_bcrypt table_db (demo_db [demo_user ''u1'' ''a@b.c'']) ''pw'' ''s'' ''u2'' 7 =
      (Inr (bootstrapAdminEmail, ''pw'', uid), c')
    \<and> a \<in> set (d_state c') \<and> Role a = RoleAdmin \<and> Compare plain_bcrypt (PasswordHash a) ''pw''"
proof -
  have "fold_id ''u2'' = Some ''u2''" by (simp add: fold_id_def) code_simp
  then show ?thesis
    using bootstrap_admin [OF table_db.user_db_axioms plain_bcrypt.bcrypt_library_axioms, of "demo_db [demo_user ''u1'' ''a@b.c'']" "''pw''" "''u2''" "''u2''" "''s''" 7]
      demo_table_ok
    by (simp add: demo_db_def) blast
qed

end
