(* ===== verification/DigestVectors.thy ===== *)
theory DigestVectors
  imports Tokens
begin

text \<open>
  The SHA-256 model evaluated inside the logic on two messages: the published test vector
  \<open>abc\<close> and the refresh token that 32 zero bytes encode to. Words are kept below \<open>2 ^ 32\<close>
  on the way by \<open>reduced\<close>, which is the identity.
\<close>

unbundle bit_operations_syntax

definition reduced :: "w32 \<Rightarrow> w32" where "reduced x = x"

lemma reduced_num [simp]: "reduced (numeral n) = word_of_int (numeral n mod 4294967296)" "reduced 0 = 0" "reduced 1 = 1"
proof -
  have "word_of_int (i mod 4294967296) = (word_of_int i :: w32)" for i
    by (simp add: word_of_int_eq_iff take_bit_eq_mod)
  from this [of "numeral n"] show "reduced (numeral n) = word_of_int (numeral n mod 4294967296)"
    unfolding reduced_def by (simp only: word_of_int_numeral)
qed (simp_all add: reduced_def)

lemma rotr_eval: "rotr n x = reduced (drop_bit n x OR push_bit (32 - n) x)"
  by (simp add: reduced_def rotr_def)

lemma schedule_eval:
  "sha_schedule (numeral k) ws = sha_schedule (pred_numeral k) (reduced (ssig1 (ws ! 1) + ws ! 6 + ssig0 (ws ! 14) + ws ! 15) # ws)"
  "sha_schedule (Suc 0) ws = reduced (ssig1 (ws ! 1) + ws ! 6 + ssig0 (ws ! 14) + ws ! 15) # ws"
  by (simp_all add: reduced_def numeral_eq_Suc)

lemma round_eval:
  "sha_round (k, w) [a, b, c, d, e, f, g, h] =
     (let t1 = reduced (h + bsig1 e + ((e AND f) XOR (NOT e AND g)) + k + w);
          t2 = bsig0 a + ((a AND b) XOR (a AND c) XOR (b AND c))
      in [reduced (t1 + t2), a, b, c, reduced (d + t1), e, f, g])"
  by (simp add: reduced_def sha_round_def)

lemmas sigma_eval = ssig0_def ssig1_def bsig0_def bsig1_def rotr_eval

lemma replicate_eval: "replicate (numeral k) x = x # replicate (pred_numeral k) x"
  by (simp add: numeral_eq_Suc)

lemma downto_8: "rev [0..<8] = [7, 6, 5, 4, 3, 2, 1, 0 :: nat]"
  by code_simp

lemmas pad_eval = sha_pad_def length_bytes_def downto_8 replicate_eval

definition words_abc :: "w32 list" where
  "words_abc = [1633837952, 0, 0, 0, 0, 0, 0, 0, 0, 0, 0, 0, 0, 0, 0, 24]"

lemma schedule_abc:
  "rev (sha_schedule 48 (rev words_abc)) = [1633837952, 0, 0, 0, 0, 0, 0, 0, 0, 0, 0, 0, 0, 0, 0, 24, 1633837952, 983040, 2108187653, 1610613702, 1050508152,
    25426944, 316456923, 3806512014, 3357629466, 3073800610, 3854317833, 845560923, 2636160359, 3968280267, 1881225380,
    3552024379, 2482346367, 996719219, 2952069057, 4043988066, 176896406, 1924104970, 2483675966, 610538786, 2672279444,
    4037431130, 1042573945, 657669027, 206005234, 2215296807, 2049510749, 106709978, 4215179723, 3430291419, 3118885940,
    2845390439, 2226839261, 3256115900, 344409900, 2987358873, 4015503821, 3957764664, 2682456414, 2025622859, 2755645205,
    1720397816, 4004225740, 313650667]"
  by (simp add: words_abc_def sigma_eval schedule_eval del: sha_schedule.simps)

lemma rounds_abc_1:
  "fold sha_round (zip [1116352408, 1899447441, 3049323471, 3921009573, 961987163, 1508970993, 2453635748, 2870763221, 3624381080, 310598401,
    607225278, 1426881987, 1925078388, 2162078206, 2614888103, 3248222580]
     [1633837952, 0, 0, 0, 0, 0, 0, 0, 0, 0, 0, 0, 0, 0, 0, 24])
     [1779033703, 3144134277, 1013904242, 2773480762, 1359893119, 2600822924, 528734635, 1541459225] =
   [2969183118, 3227803614, 3643992854, 2274437520, 123276749, 194179596, 1952073950, 509051416]"
  by (simp add: sigma_eval round_eval Let_def)

lemma rounds_abc_2:
  "fold sha_round (zip [3835390401, 4022224774, 264347078, 604807628, 770255983, 1249150122, 1555081692, 1996064986, 2554220882, 2821834349,
    2952996808, 3210313671, 3336571891, 3584528711, 113926993, 338241895]
     [1633837952, 983040, 2108187653, 1610613702, 1050508152, 25426944, 316456923, 3806512014, 3357629466, 3073800610,
    3854317833, 845560923, 2636160359, 3968280267, 1881225380, 3552024379])
     [2969183118, 3227803614, 3643992854, 2274437520, 123276749, 194179596, 1952073950, 509051416] =
   [1941126133, 3935906338, 2684750640, 909411017, 3126399250, 17410874, 2917635127, 1628611511]"
  by (simp add: sigma_eval round_eval Let_def)

lemma rounds_abc_3:
  "fold sha_round (zip [666307205, 773529912, 1294757372, 1396182291, 1695183700, 1986661051, 2177026350, 2456956037, 2730485921, 2820302411,
    3259730800, 3345764771, 3516065817, 3600352804, 4094571909, 275423344]
     [2482346367, 996719219, 2952069057, 4043988066, 176896406, 1924104970, 2483675966, 610538786, 2672279444, 4037431130,
    1042573945, 657669027, 206005234, 2215296807, 2049510749, 106709978])
     [1941126133, 3935906338, 2684750640, 909411017, 3126399250, 17410874, 2917635127, 1628611511] =
   [1098003085, 2706117808, 1923828625, 643991573, 4274981830, 3581645993, 3077922209, 2819559920]"
  by (simp add: sigma_eval round_eval Let_def)

lemma rounds_abc_4:
  "fold sha_round (zip [430227734, 506948616, 659060556, 883997877, 958139571, 1322822218, 1537002063, 1747873779, 1955562222, 2024104815,
    2227730452, 2361852424, 2428436474, 2756734187, 3204031479, 3329325298]
     [4215179723, 3430291419, 3118885940, 2845390439, 2226839261, 3256115900, 344409900, 2987358873, 4015503821, 3957764664,
    2682456414, 2025622859, 2755645205, 1720397816, 4004225740, 313650667])
     [1098003085, 2706117808, 1923828625, 643991573, 4274981830, 3581645993, 3077922209, 2819559920] =
   [1349398616, 3550093669, 80891244, 3093179625, 1593118500, 4212265488, 2492278198, 2518632596]"
  by (simp add: sigma_eval round_eval Let_def)

lemma block_abc:
  "sha_block words_abc sha_init = [3128432319, 2399260650, 1094795486, 1571693091, 2953011619, 2518121116, 3021012833, 4060091821]"
proof -
  have "fold sha_round (zip sha_k (rev (sha_schedule 48 (rev words_abc)))) sha_init = [1349398616, 3550093669, 80891244, 3093179625, 1593118500, 4212265488, 2492278198, 2518632596]"
    unfolding schedule_abc sha_k_def sha_init_def
    using rounds_abc_1 rounds_abc_2 rounds_abc_3 rounds_abc_4 by simp
  then show ?thesis by (simp add: sha_block_def sha_init_def)
qed

definition words_zero_token :: "w32 list" where
  "words_zero_token = [1094795585, 1094795585, 1094795585, 1094795585, 1094795585, 1094795585, 1094795585, 1094795585, 1094795585, 1094795585,
    1094795648, 0, 0, 0, 0, 344]"

lemma schedule_zero_token:
  "rev (sha_schedule 48 (rev words_zero_token)) = [1094795585, 1094795585, 1094795585, 1094795585, 1094795585, 1094795585, 1094795585, 1094795585, 1094795585, 1094795585,
    1094795648, 0, 0, 0, 0, 344, 1568505212, 1577352635, 759379593, 3451486744, 433790975, 230182214, 138565284,
    2831311663, 3687141298, 1160201358, 487885665, 1688388581, 3801363792, 1104776473, 4115868525, 2135921096, 4120716192,
    2418841778, 271150540, 3400522835, 2517510078, 4115561745, 824255822, 3164255224, 3875649202, 1212031243, 1277139860,
    2150319256, 1888300442, 1301662615, 1622517578, 3668710872, 4130931708, 637832372, 2078635160, 4177829385, 2590829875,
    102076811, 1090170020, 1112255259, 2830255259, 757125227, 2688279947, 4267839638, 1523297160, 3388733502, 4080784246,
    2925366693]"
  by (simp add: words_zero_token_def sigma_eval schedule_eval del: sha_schedule.simps)

lemma rounds_zero_token_1:
  "fold sha_round (zip [1116352408, 1899447441, 3049323471, 3921009573, 961987163, 1508970993, 2453635748, 2870763221, 3624381080, 310598401,
    607225278, 1426881987, 1925078388, 2162078206, 2614888103, 3248222580]
     [1094795585, 1094795585, 1094795585, 1094795585, 1094795585, 1094795585, 1094795585, 1094795585, 1094795585, 1094795585,
    1094795648, 0, 0, 0, 0, 344])
     [1779033703, 3144134277, 1013904242, 2773480762, 1359893119, 2600822924, 528734635, 1541459225] =
   [3506342200, 2748856931, 2498825106, 3153099384, 1563693536, 416047593, 2722498059, 604803579]"
  by (simp add: sigma_eval round_eval Let_def)

lemma rounds_zero_token_2:
  "fold sha_round (zip [3835390401, 4022224774, 264347078, 604807628, 770255983, 1249150122, 1555081692, 1996064986, 2554220882, 2821834349,
    2952996808, 3210313671, 3336571891, 3584528711, 113926993, 338241895]
     [1568505212, 1577352635, 759379593, 3451486744, 433790975, 230182214, 138565284, 2831311663, 3687141298, 1160201358,
    487885665, 1688388581, 3801363792, 1104776473, 4115868525, 2135921096])
     [3506342200, 2748856931, 2498825106, 3153099384, 1563693536, 416047593, 2722498059, 604803579] =
   [3648047794, 903823825, 593163616, 447859329, 2350039408, 3750054387, 1695547267, 2884801813]"
  by (simp add: sigma_eval round_eval Let_def)

lemma rounds_zero_token_3:
  "fold sha_round (zip [666307205, 773529912, 1294757372, 1396182291, 1695183700, 1986661051, 2177026350, 2456956037, 2730485921, 2820302411,
    3259730800, 3345764771, 3516065817, 3600352804, 4094571909, 275423344]
     [4120716192, 2418841778, 271150540, 3400522835, 2517510078, 4115561745, 824255822, 3164255224, 3875649202, 1212031243,
    1277139860, 2150319256, 1888300442, 1301662615, 1622517578, 3668710872])
     [3648047794, 903823825, 593163616, 447859329, 2350039408, 3750054387, 1695547267, 2884801813] =
   [2254071611, 908801873, 4242872923, 3521471209, 2479496928, 125560837, 3201777528, 2173397643]"
  by (simp add: sigma_eval round_eval Let_def)

lemma rounds_zero_token_4:
  "fold sha_round (zip [430227734, 506948616, 659060556, 883997877, 958139571, 1322822218, 1537002063, 1747873779, 1955562222, 2024104815,
    2227730452, 2361852424, 2428436474, 2756734187, 3204031479, 3329325298]
     [4130931708, 637832372, 2078635160, 4177829385, 2590829875, 102076811, 1090170020, 1112255259, 2830255259, 757125227,
    2688279947, 4267839638, 1523297160, 3388733502, 4080784246, 2925366693])
     [2254071611, 908801873, 4242872923, 3521471209, 2479496928, 125560837, 3201777528, 2173397643] =
   [2767621406, 4220659250, 2990768404, 1616899183, 865227072, 149597252, 2124848801, 2382692353]"
  by (simp add: sigma_eval round_eval Let_def)

lemma block_zero_token:
  "sha_block words_zero_token sha_init = [251687813, 3069826231, 4004672646, 95412649, 2225120191, 2750420176, 2653583436, 3924151578]"
proof -
  have "fold sha_round (zip sha_k (rev (sha_schedule 48 (rev words_zero_token)))) sha_init = [2767621406, 4220659250, 2990768404, 1616899183, 865227072, 149597252, 2124848801, 2382692353]"
    unfolding schedule_zero_token sha_k_def sha_init_def
    using rounds_zero_token_1 rounds_zero_token_2 rounds_zero_token_3 rounds_zero_token_4 by simp
  then show ?thesis by (simp add: sha_block_def sha_init_def)
qed

lemma padded_abc: "be_words (sha_pad (map of_char ''abc'')) = words_abc"
  by (simp add: pad_eval words_abc_def)

lemma padded_zero_token: "be_words (sha_pad (map of_char (replicate 43 CHR ''A''))) = words_zero_token"
  by (simp add: pad_eval words_zero_token_def)

lemma length_words: "length words_abc = 16" "length words_zero_token = 16"
  by (simp_all add: words_abc_def words_zero_token_def)

lemma HashTokenHex_abc: "HashTokenHex ''abc'' = ''ba7816bf8f01cfea414140de5dae2223b00361a396177a9cb410ff61f20015ad''"
  unfolding HashTokenHex_def HashToken_def Sum256_def Let_def padded_abc
  by (simp add: length_words block_abc word_bytes_def hex_EncodeToString_def hex_digit_def Let_def)

lemma HashTokenHex_zero_token:
  "HashTokenHex (replicate 43 CHR ''A'') = ''0f007385b6f9d4b7eeb2748605afe1a984a0a3bfa3f014d09e2a784ce9e5cd1a''"
  unfolding HashTokenHex_def HashToken_def Sum256_def Let_def padded_zero_token
  by (simp add: length_words block_zero_token word_bytes_def hex_EncodeToString_def hex_digit_def Let_def)

lemma zero_token: "base64_RawURL (replicate 32 0) = replicate 43 CHR ''A''"
  by (simp add: replicate_eval url_digit_def)

text \<open>
  The digest model is SHA-256: on the published test message \<open>abc\<close> it
  gives the published digest, in lower-case hexadecimal.
\<close>

theorem digest_test_vector:
  "HashTokenHex ''abc'' = ''ba7816bf8f01cfea414140de5dae2223b00361a396177a9cb410ff61f20015ad''"
  by (rule HashTokenHex_abc)

end
