(* ===== verification/AuthService.thy ===== *)
theory AuthService
  imports UserRepo CaptchaStore SessionMachine Middleware
begin

text \<open>
  \<open>internal/service/auth.go\<close>: the handlers of the authentication routes. The world a
  handler changes is the Redis connection and the database connection. The packages the
  handlers call through the components are collected in a record \<open>deps\<close>; random bytes,
  fresh UUIDs and readings of the clock are the record \<open>draws\<close>, one field per call. The
  outcome of binding the request body is an argument. Log lines are not modelled.
\<close>

section \<open>State\<close>

record ('r, 'd) world =
  w_redis :: "'r conn"
  w_db :: "'d dconn"

record ('r, 'd) deps =
  x_redis :: "'r redis"
  x_db :: "'d db"
  x_jwt :: jwt_lib
  x_bcrypt :: bcrypt_lib
  x_captcha :: captcha_lib
  x_unicode :: unicode_tables
  x_uuid_Parse :: "string \<Rightarrow> string option"

text \<open>\<open>x_uuid_Parse\<close> is \<open>uuid.Parse\<close> followed by \<open>String()\<close>.\<close>

record AuthService =
  images :: "DriverString option"
  tokens :: Manager
  refreshTTL :: duration
  secureCookie :: bool
  refreshCookieName :: string
  accessTTL :: duration
  captchaConfig :: CaptchaConfig

definition NewAuthService :: "DriverString option \<Rightarrow> Manager \<Rightarrow> AuthConfig \<Rightarrow> CaptchaConfig \<Rightarrow> AuthService" where
  "NewAuthService imgs mgr cfg captcha =
     \<lparr>images = imgs, tokens = mgr, refreshTTL = RefreshTokenTTL cfg, secureCookie = RefreshCookieSecure cfg,
      refreshCookieName = RefreshCookieName cfg, accessTTL = AccessTokenTTL cfg, captchaConfig = captcha\<rparr>"

record draws =
  dr_random :: "nat list option"
  dr_sessionID :: string
  dr_accessJTI :: string
  dr_now_create :: instant
  dr_now_issue :: instant
  dr_now_expires :: instant
  dr_now_cookie :: instant

section \<open>Answers\<close>

abbreviation unauthorized :: "ctx \<Rightarrow> ctx" where
  "unauthorized c \<equiv> AbortWithStatusJSON 401 (FailWithCode ''authentication required'' ''UNAUTHORIZED'') c"

abbreviation invalid_credentials :: "ctx \<Rightarrow> ctx" where
  "invalid_credentials c \<equiv> AbortWithStatusJSON 401 (FailWithCode ''invalid credentials'' ''INVALID_CREDENTIALS'') c"

abbreviation bad_request :: "ctx \<Rightarrow> ctx" where
  "bad_request c \<equiv> AbortWithStatusJSON 400 (FailWithCode ''invalid request'' ''INVALID_REQUEST'') c"

abbreviation too_large :: "ctx \<Rightarrow> ctx" where
  "too_large c \<equiv> AbortWithStatusJSON 413 (FailWithCode ''request body too large'' ''PAYLOAD_TOO_LARGE'') c"

abbreviation internal_error :: "ctx \<Rightarrow> ctx" where
  "internal_error c \<equiv> AbortWithStatusJSON 500 (FailWithCode ''internal server error'' ''INTERNAL_ERROR'') c"

abbreviation unavailable :: "ctx \<Rightarrow> ctx" where
  "unavailable c \<equiv> AbortWithStatusJSON 503 (FailWithCode ''service temporarily unavailable'' ''SERVICE_UNAVAILABLE'') c"

section \<open>Cookies\<close>

definition setRefreshCookie :: "AuthService \<Rightarrow> instant \<Rightarrow> ctx \<Rightarrow> string \<Rightarrow> instant \<Rightarrow> ctx" where
  "setRefreshCookie s now c v expires =
     SetCookie \<lparr>ck_Name = refreshCookieName s, ck_Value = v, ck_Path = ''/api/v1/auth'', ck_HttpOnly = True,
       ck_Secure = secureCookie s, ck_SameSite = ''Lax'', ck_Expires = Some expires, ck_MaxAge = whole_seconds (expires - now)\<rparr> c"

definition clearRefreshCookie :: "AuthService \<Rightarrow> ctx \<Rightarrow> ctx" where
  "clearRefreshCookie s c =
     SetCookie \<lparr>ck_Name = refreshCookieName s, ck_Value = [], ck_Path = ''/api/v1/auth'', ck_HttpOnly = True,
       ck_Secure = secureCookie s, ck_SameSite = ''Lax'', ck_Expires = None, ck_MaxAge = -1\<rparr> c"

section \<open>Handlers\<close>

definition Me :: "ctx \<Rightarrow> 'w \<Rightarrow> ctx \<times> 'w" where
  "Me c w =
     (case CurrentPrincipal c of
        None \<Rightarrow> (unauthorized c, w)
      | Some p \<Rightarrow> (ctx_JSON 200 (OKWithData (Auth_user_data
          \<lparr>au_ID = p_ID p, au_Email = p_Email p, au_Remark = p_Remark p, au_Role = p_Role p\<rparr>)) c, w))"

definition InvalidateUserSessions ::
    "('r, 'd) deps \<Rightarrow> ('r, 'd) world \<Rightarrow> string \<Rightarrow> (data_error + unit) \<times> ('r, 'd) world" where
  "InvalidateUserSessions X w userID =
     (case SessionStore_DeleteUserSessions (x_redis X) (w_redis w) userID of (x, r) \<Rightarrow> (x, w\<lparr>w_redis := r\<rparr>))"

definition UsersOnline ::
    "('r, 'd) deps \<Rightarrow> ('r, 'd) world \<Rightarrow> instant \<Rightarrow> string list \<Rightarrow> (data_error + (string \<rightharpoonup> bool)) \<times> ('r, 'd) world" where
  "UsersOnline X w now userIDs =
     (case SessionStore_OnlineMap (x_redis X) (w_redis w) now userIDs of (x, r) \<Rightarrow> (x, w\<lparr>w_redis := r\<rparr>))"

definition Captcha_handler ::
    "('r, 'd) deps \<Rightarrow> AuthService \<Rightarrow> nat \<Rightarrow> string \<Rightarrow> ctx \<Rightarrow> ('r, 'd) world \<Rightarrow> ctx \<times> ('r, 'd) world" where
  "Captcha_handler X s seed uuid c w =
     (case CaptchaStore_AllowIssue (x_redis X) (w_redis w) (rq_ClientIP (Request c))
             (IssueLimitPerMinute (captchaConfig s)) minute of
        (Inl _, r) \<Rightarrow> (unavailable c, w\<lparr>w_redis := r\<rparr>)
      | (Inr allowed, r) \<Rightarrow>
          (let w = w\<lparr>w_redis := r\<rparr> in
           if \<not> allowed
           then (AbortWithStatusJSON 429 (FailWithCode ''too many requests'' ''TOO_MANY_REQUESTS'') c, w)
           else
             (case ImageCaptcha_Generate (x_unicode X) (x_captcha X) (images s) seed uuid of
                Inl _ \<Rightarrow> (internal_error c, w)
              | Inr (cid, picture, answer) \<Rightarrow>
                  (case CaptchaStore_Put (x_redis X) (w_redis w) cid answer (TTL (captchaConfig s)) of
                     (Inl _, r) \<Rightarrow> (unavailable c, w\<lparr>w_redis := r\<rparr>)
                   | (Inr _, r) \<Rightarrow>
                       (ctx_JSON 200 (OKWithData (Captcha_data
                          \<lparr>c_CaptchaID = cid, c_Image = picture, c_ExpiresIn = whole_seconds (TTL (captchaConfig s))\<rparr>)) c,
                        w\<lparr>w_redis := r\<rparr>)))))"

text \<open>The boolean says whether the login goes on.\<close>

definition consumeLoginCaptcha ::
    "('r, 'd) deps \<Rightarrow> AuthService \<Rightarrow> ctx \<Rightarrow> ('r, 'd) world \<Rightarrow> string \<Rightarrow> string \<Rightarrow> bool \<times> ctx \<times> ('r, 'd) world" where
  "consumeLoginCaptcha X s c w captchaID captcha =
     (if \<not> Enabled (captchaConfig s) then (True, c, w)
      else
        (let captchaID = TrimSpace captchaID; captcha = TrimSpace captcha in
         if captchaID = [] \<or> captcha = [] \<or> length captcha > 16 then (False, bad_request c, w)
         else
           (case x_uuid_Parse X captchaID of
              None \<Rightarrow> (False, bad_request c, w)
            | Some parsed \<Rightarrow>
                if parsed \<noteq> captchaID then (False, bad_request c, w)
                else
                  (case CaptchaStore_Consume (x_unicode X) (x_redis X) (w_redis w) captchaID captcha of
                     (Inl _, r) \<Rightarrow> (False, unavailable c, w\<lparr>w_redis := r\<rparr>)
                   | (Inr ok, r) \<Rightarrow>
                       if \<not> ok
                       then (False, AbortWithStatusJSON 400 (FailWithCode ''invalid captcha'' ''INVALID_CAPTCHA'') c,
                             w\<lparr>w_redis := r\<rparr>)
                       else (True, c, w\<lparr>w_redis := r\<rparr>)))))"

text \<open>The end of \<open>Login\<close>: from the verified user to the session and the tokens.\<close>

definition login_issue ::
    "('r, 'd) deps \<Rightarrow> AuthService \<Rightarrow> draws \<Rightarrow> user \<Rightarrow> ctx \<Rightarrow> ('r, 'd) world \<Rightarrow> ctx \<times> ('r, 'd) world" where
  "login_issue X s dr u c w =
     (case Random (dr_random dr) of
        None \<Rightarrow> (internal_error c, w)
      | Some refreshToken \<Rightarrow>
          (let sessionID = dr_sessionID dr; accessJTI = dr_accessJTI dr;
               session = (NewAuthSession u)\<lparr>s_AccessJTI := accessJTI\<rparr> in
           case SessionStore_Create (x_redis X) (w_redis w) (dr_now_create dr) sessionID session
                  (HashTokenHex refreshToken) (refreshTTL s) of
             (Inl _, r) \<Rightarrow> (unavailable c, w\<lparr>w_redis := r\<rparr>)
           | (Inr _, r) \<Rightarrow>
               (case Manager_Issue (x_jwt X) (tokens s) (dr_now_issue dr) (ID u) sessionID accessJTI of
                  None \<Rightarrow> (internal_error c, w\<lparr>w_redis := snd (SessionStore_Delete (x_redis X) r sessionID)\<rparr>)
                | Some accessToken \<Rightarrow>
                    (let result = \<lparr>lr_AccessToken = accessToken, lr_RefreshToken = refreshToken,
                           lr_RefreshExpiresAt = dr_now_expires dr + refreshTTL s, lr_User = u\<rparr>;
                         c = setRefreshCookie s (dr_now_cookie dr) c (lr_RefreshToken result) (lr_RefreshExpiresAt result)
                     in (ctx_JSON 200 (OKWithData (Token_data \<lparr>t_AccessToken = lr_AccessToken result, t_TokenType = ''Bearer'',
                           t_ExpiresIn = whole_seconds (accessTTL s), t_User = ToAuthUser (lr_User result)\<rparr>)) c,
                         w\<lparr>w_redis := r\<rparr>)))))"

definition Login ::
    "('r, 'd) deps \<Rightarrow> AuthService \<Rightarrow> login_command bind \<Rightarrow> draws \<Rightarrow> ctx \<Rightarrow> ('r, 'd) world \<Rightarrow> ctx \<times> ('r, 'd) world" where
  "Login X s body dr c w =
     (case body of
        BindTooLarge \<Rightarrow> (too_large c, w)
      | BindErr \<Rightarrow> (bad_request c, w)
      | BindOk req \<Rightarrow>
          (case consumeLoginCaptcha X s c w (l_CaptchaID req) (l_Captcha req) of
             (False, c1, w1) \<Rightarrow> (c1, w1)
           | (True, c1, w1) \<Rightarrow>
               (let req = req\<lparr>l_Email := ToLower (x_unicode X) (TrimSpace (l_Email req))\<rparr> in
                if l_Email req = [] \<or> l_Password req = [] \<or> length (l_Password req) > 1024
                then (invalid_credentials c1, w1)
                else
                  (case FindUserByEmail (x_unicode X) (x_db X) (w_db w1) (l_Email req) of
                     (Inl ErrNotFound, d) \<Rightarrow> (invalid_credentials c1, w1\<lparr>w_db := d\<rparr>)
                   | (Inl _, d) \<Rightarrow> (internal_error c1, w1\<lparr>w_db := d\<rparr>)
                   | (Inr u, d) \<Rightarrow>
                       (let w2 = w1\<lparr>w_db := d\<rparr> in
                        if \<not> Active u \<or> \<not> Compare (x_bcrypt X) (PasswordHash u) (l_Password req)
                        then (invalid_credentials c1, w2)
                        else login_issue X s dr u c1 w2)))))"

definition Refresh ::
    "('r, 'd) deps \<Rightarrow> AuthService \<Rightarrow> draws \<Rightarrow> ctx \<Rightarrow> ('r, 'd) world \<Rightarrow> ctx \<times> ('r, 'd) world" where
  "Refresh X s dr c w =
     (case rq_Cookie (Request c) (refreshCookieName s) of
        None \<Rightarrow> (unauthorized c, w)
      | Some rawRefresh \<Rightarrow>
          (case Random (dr_random dr) of
             None \<Rightarrow> (internal_error c, w)
           | Some nextRefresh \<Rightarrow>
               (let nextAccessJTI = dr_accessJTI dr in
                case SessionStore_Rotate (x_redis X) (w_redis w) (HashTokenHex rawRefresh) (HashTokenHex nextRefresh)
                       nextAccessJTI of
                  (Inl ErrNotFound, r) \<Rightarrow> (unauthorized (clearRefreshCookie s c), w\<lparr>w_redis := r\<rparr>)
                | (Inl _, r) \<Rightarrow> (unavailable c, w\<lparr>w_redis := r\<rparr>)
                | (Inr (sessionID, session, remainingTTL), r) \<Rightarrow>
                    if \<not> s_Active session \<or> \<not> Valid (s_Role session)
                    then (unauthorized c, w\<lparr>w_redis := snd (SessionStore_Delete (x_redis X) r sessionID)\<rparr>)
                    else
                      (case Manager_Issue (x_jwt X) (tokens s) (dr_now_issue dr) (s_UserID session) sessionID nextAccessJTI of
                         None \<Rightarrow> (internal_error c, w\<lparr>w_redis := snd (SessionStore_Delete (x_redis X) r sessionID)\<rparr>)
                       | Some accessToken \<Rightarrow>
                           (let u = \<lparr>ID = s_UserID session, Email = s_Email session, Remark = s_Remark session,
                                  PasswordHash = [], Active = s_Active session, Role = s_Role session, CreatedAt = 0, UpdatedAt = 0\<rparr>;
                                result = \<lparr>lr_AccessToken = accessToken, lr_RefreshToken = nextRefresh,
                                  lr_RefreshExpiresAt = dr_now_expires dr + remainingTTL, lr_User = u\<rparr>;
                                c = setRefreshCookie s (dr_now_cookie dr) c (lr_RefreshToken result) (lr_RefreshExpiresAt result)
                            in (ctx_JSON 200 (OKWithData (Token_data \<lparr>t_AccessToken = lr_AccessToken result,
                                  t_TokenType = ''Bearer'', t_ExpiresIn = whole_seconds (accessTTL s),
                                  t_User = ToAuthUser (lr_User result)\<rparr>)) c,
                                w\<lparr>w_redis := r\<rparr>))))))"

definition Logout ::
    "('r, 'd) deps \<Rightarrow> AuthService \<Rightarrow> ctx \<Rightarrow> ('r, 'd) world \<Rightarrow> ctx \<times> ('r, 'd) world" where
  "Logout X s c w =
     (let rawRefresh = (case rq_Cookie (Request c) (refreshCookieName s) of None \<Rightarrow> [] | Some v \<Rightarrow> v) in
      case SessionStore_DeleteByRefreshDigest (x_redis X) (w_redis w) (HashTokenHex rawRefresh) of
        (Inl _, r) \<Rightarrow> (unavailable c, w\<lparr>w_redis := r\<rparr>)
      | (Inr _, r) \<Rightarrow> (ctx_JSON 200 (OKWithMessage ''logged out'') (clearRefreshCookie s c), w\<lparr>w_redis := r\<rparr>))"

end
