(* ===== verification/Services.thy ===== *)
theory Services
  imports AuthService
begin

text \<open>
  What the handlers rely on, as one interface: a Redis server, a users table, a JWT package
  and a bcrypt package, each with its contract (locale \<open>services\<close>). The section also has the
  view of the captcha store and of session lookups through that interface, and the wiring of
  the authorisation middleware to them (\<open>NewAuthMiddleware\<close> in \<open>pkg/app/app.go\<close>).
\<close>

locale services =
  redis_server "x_redis X" ks + user_db "x_db X" rows uuid_in tm + jwt_library "x_jwt X" + bcrypt_library "x_bcrypt X"
  for X :: "('r, 'd) deps" and ks :: "'r \<Rightarrow> keyspace" and rows :: "'d \<Rightarrow> user list"
    and uuid_in :: "string \<Rightarrow> string option" and tm :: "instant \<Rightarrow> instant"

definition demo_deps :: "(keyspace, user list) deps" where
  "demo_deps = \<lparr>x_redis = ks_redis ks_cjson, x_db = table_db, x_jwt = plain_jwt, x_bcrypt = plain_bcrypt,
     x_captcha = demo_captcha_lib, x_unicode = demo_unicode, x_uuid_Parse = fold_id\<rparr>"

lemma demo_deps_simps [simp]:
  "x_redis demo_deps = ks_redis ks_cjson" "x_db demo_deps = table_db" "x_jwt demo_deps = plain_jwt"
  "x_bcrypt demo_deps = plain_bcrypt" "x_unicode demo_deps = demo_unicode" "x_uuid_Parse demo_deps = fold_id"
  by (simp_all add: demo_deps_def)

interpretation demo_services: services demo_deps "\<lambda>k. k" "\<lambda>us. us" fold_id id
  by (rule services.intro)
    (simp_all add: reference_server.redis_server_axioms table_db.user_db_axioms plain_jwt.jwt_library_axioms
      plain_bcrypt.bcrypt_library_axioms)

section \<open>Stores through the interface\<close>

context redis_server
begin

lemma Consume_view:
  assumes "CaptchaStore_Consume U R c cid a = (x, c')"
  shows "clock c' = clock c" "table ks c' = table ks c" "view_inv ks c' = view_inv ks c"
    and "same_sessions (ks (server c)) (ks (server c'))"
    and "x = Inr b \<Longrightarrow> cid \<noteq> [] \<Longrightarrow> a \<noteq> [] \<Longrightarrow> b = (stored_answer (clock c) (ks (server c)) cid = Some (NormalizeCaptcha U a))"
    and "x = Inr b \<Longrightarrow> cid \<noteq> [] \<Longrightarrow> a \<noteq> [] \<Longrightarrow> stored_answer (clock c') (ks (server c')) cid = None"
proof -
  have run: "CaptchaStore_Consume U K (conn_view ks c) cid a = (x, conn_view ks c')"
    using Consume_sim [of U c cid a] assms by simp
  from Consume_frame [OF run] have f: "clock c' = clock c" "same_sessions (ks (server c)) (ks (server c'))" by simp_all
  show "clock c' = clock c" "table ks c' = table ks c" "view_inv ks c' = view_inv ks c" "same_sessions (ks (server c)) (ks (server c'))"
    using f same_sessions_frame [OF f(2)] by simp_all
  show "x = Inr b \<Longrightarrow> cid \<noteq> [] \<Longrightarrow> a \<noteq> [] \<Longrightarrow> b = (stored_answer (clock c) (ks (server c)) cid = Some (NormalizeCaptcha U a))"
    "x = Inr b \<Longrightarrow> cid \<noteq> [] \<Longrightarrow> a \<noteq> [] \<Longrightarrow> stored_answer (clock c') (ks (server c')) cid = None"
    using Consume_effect [of U "rd_cjson R" "conn_view ks c" cid a b "conn_view ks c'"] run by (auto simp: stored_answer_def)
qed

lemma Get_view:
  assumes "view_inv ks c" "SessionStore_Get R c sid = (x, c')"
  shows "ks (server c') = ks (server c) \<and> clock c' = clock c
    \<and> (x = (case table ks c sid of None \<Rightarrow> Inl ErrNotFound | Some (r, e) \<Rightarrow> Inr (ar_AuthSession r))
       \<or> (x = Inl (ErrOther ''load authentication session'') \<and> faults c \<noteq> []))"
  using Get_result [of "conn_view ks c" "rd_cjson R" sid x "conn_view ks c'"] assms by (simp add: Get_sim)

end

lemma same_sessions_fresh: "same_sessions ks ks' \<Longrightarrow> fresh t ks' sid d = fresh t ks sid d"
  by (simp add: fresh_def same_sessions_live)

section \<open>The authorisation middleware\<close>

definition session_reader :: "('r, 'd) deps \<Rightarrow> string \<Rightarrow> ('r, 'd) world \<Rightarrow> (data_error + auth_session) \<times> ('r, 'd) world" where
  "session_reader X sid w = (case SessionStore_Get (x_redis X) (w_redis w) sid of (x, r) \<Rightarrow> (x, w\<lparr>w_redis := r\<rparr>))"

text \<open>A request with this \<open>Authorization\<close> header passes the gate as \<open>p\<close> at time \<open>now\<close>.\<close>

definition passes :: "('r, 'd) deps \<Rightarrow> AuthService \<Rightarrow> instant \<Rightarrow> role set \<Rightarrow> string \<Rightarrow> ('r, 'd) world \<Rightarrow> principal \<Rightarrow> bool" where
  "passes X s now roles header w p = admitted (Manager_Parse (x_jwt X) (tokens s) now) (session_reader X) roles header w p"

lemma Fields_Bearer:
  assumes "is_ascii tok" "tok \<noteq> []" "\<forall>c \<in> set tok. \<not> ascii_space c"
  shows "Fields (''Bearer '' @ tok) = [''Bearer'', tok]"
proof -
  have run: "fields_of (map (\<lambda>c. (of_char c, [c])) cs) cur = (if cur @ cs = [] then [] else [cur @ cs])"
    if "\<forall>c \<in> set cs. \<not> ascii_space c" for cs cur
    using that by (induction cs arbitrary: cur) auto
  have "is_ascii (''Bearer '' @ tok)" using assms(1) by (simp add: is_ascii_set)
  then have "segs (''Bearer '' @ tok) = map (\<lambda>c. (of_char c, [c])) (''Bearer '' @ tok)" by (rule segs_ascii)
  then show ?thesis using run [OF assms(3)] assms(2) by (simp add: Fields_def IsSpace_def)
qed

context services
begin

text \<open>On a healthy connection the gate depends on the token and on the table of sessions only.\<close>

lemma passes_table:
  assumes "view_inv ks (w_redis w)" "faults (w_redis w) = []" "Fields header = [''Bearer'', tok]"
  shows "passes X s now roles header w p \<longleftrightarrow>
    (\<exists>i r e. Manager_Parse (x_jwt X) (tokens s) now tok = Inr i \<and> table ks (w_redis w) (ai_SessionID i) = Some (r, e)
       \<and> s_Active (ar_AuthSession r) \<and> Valid (s_Role (ar_AuthSession r)) \<and> s_UserID (ar_AuthSession r) = ai_UserID i
       \<and> s_AccessJTI (ar_AuthSession r) = ai_AccessJTI i \<and> s_Role (ar_AuthSession r) \<in> roles
       \<and> p = Principal (ar_AuthSession r) (ai_SessionID i))"
proof -
  have "fst (session_reader X sid w) = Inr a \<longleftrightarrow> (\<exists>r e. table ks (w_redis w) sid = Some (r, e) \<and> a = ar_AuthSession r)" for sid a
    using Get_view [OF assms(1), of sid] assms(2)
    by (cases "SessionStore_Get (x_redis X) (w_redis w) sid") (auto simp: session_reader_def split: option.splits)
  then show ?thesis unfolding passes_def admitted_def using assms(3) by simp blast
qed

end

end
