(* ===== verification/AuthProps.thy ===== *)
theory AuthProps
  imports Services SessionProps DigestVectors
begin

text \<open>
  What the authentication handlers promise, end to end: a login needs the credentials, a
  token obtained by login or refresh passes the authorisation middleware, a refresh retires
  the token before it, a logout retires the session.
\<close>

section \<open>Successful runs\<close>

lemma login_issue_200:
  assumes "login_issue X s dr u c w = (c', w')" "Status c' = 200"
  obtains rt tok where "Random (dr_random dr) = Some rt"
    "SessionStore_Create (x_redis X) (w_redis w) (dr_now_create dr) (dr_sessionID dr)
       ((NewAuthSession u)\<lparr>s_AccessJTI := dr_accessJTI dr\<rparr>) (HashTokenHex rt) (refreshTTL s) = (Inr (), w_redis w')"
    "Manager_Issue (x_jwt X) (tokens s) (dr_now_issue dr) (ID u) (dr_sessionID dr) (dr_accessJTI dr) = Some tok"
    "c' = ctx_JSON 200 (OKWithData (Token_data \<lparr>t_AccessToken = tok, t_TokenType = ''Bearer'',
        t_ExpiresIn = whole_seconds (accessTTL s), t_User = ToAuthUser u\<rparr>))
        (setRefreshCookie s (dr_now_cookie dr) c rt (dr_now_expires dr + refreshTTL s))"
  using assms by (auto simp: login_issue_def Let_def split: option.splits prod.splits sum.splits)

lemma login_issue_status:
  "login_issue X s dr u c w = (c', w') \<Longrightarrow> Status c' \<in> {200, 500, 503}"
  by (auto simp: login_issue_def Let_def split: option.splits prod.splits sum.splits)

lemma login_issue_db: "login_issue X s dr u c w = (c', w') \<Longrightarrow> w_db w' = w_db w"
  by (auto simp: login_issue_def Let_def split: option.splits prod.splits sum.splits)

lemma Refresh_200:
  assumes "Refresh X s dr c w = (c', w')" "Status c' = 200"
  obtains raw rt sid session left tok where "rq_Cookie (Request c) (refreshCookieName s) = Some raw"
    "Random (dr_random dr) = Some rt"
    "SessionStore_Rotate (x_redis X) (w_redis w) (HashTokenHex raw) (HashTokenHex rt) (dr_accessJTI dr) =
       (Inr (sid, session, left), w_redis w')"
    "s_Active session" "Valid (s_Role session)" "w_db w' = w_db w"
    "Manager_Issue (x_jwt X) (tokens s) (dr_now_issue dr) (s_UserID session) sid (dr_accessJTI dr) = Some tok"
    "c' = ctx_JSON 200 (OKWithData (Token_data \<lparr>t_AccessToken = tok, t_TokenType = ''Bearer'',
        t_ExpiresIn = whole_seconds (accessTTL s),
        t_User = \<lparr>au_ID = s_UserID session, au_Email = s_Email session, au_Remark = s_Remark session, au_Role = s_Role session\<rparr>\<rparr>))
        (setRefreshCookie s (dr_now_cookie dr) c rt (dr_now_expires dr + left))"
  using assms
  by (auto simp: Refresh_def Let_def ToAuthUser_def
      split: option.splits prod.splits sum.splits data_error.splits if_splits)

text \<open>The branches of \<open>Login\<close> behind the captcha.\<close>

lemma Login_branches:
  assumes "Login X s body dr c w = (c', w')"
  obtains (unbound) "body = BindTooLarge \<or> body = BindErr" "Status c' \<in> {400, 413}" "w' = w"
  | (captcha) req where "body = BindOk req" "consumeLoginCaptcha X s c w (l_CaptchaID req) (l_Captcha req) = (False, c', w')"
  | (denied) req c1 w1 where "body = BindOk req"
      "consumeLoginCaptcha X s c w (l_CaptchaID req) (l_Captcha req) = (True, c1, w1)"
      "Status c' \<in> {401, 500}" "w_redis w' = w_redis w1"
  | (verified) req c1 w1 u d where "body = BindOk req"
      "consumeLoginCaptcha X s c w (l_CaptchaID req) (l_Captcha req) = (True, c1, w1)"
      "FindUserByEmail (x_unicode X) (x_db X) (w_db w1) (normalizeEmail (x_unicode X) (l_Email req)) = (Inr u, d)"
      "Active u" "Compare (x_bcrypt X) (PasswordHash u) (l_Password req)" "login_issue X s dr u c1 (w1\<lparr>w_db := d\<rparr>) = (c', w')"
  using assms
  by (auto simp: Login_def Let_def normalizeEmail_def
      split: bind.splits prod.splits bool.splits sum.splits data_error.splits if_splits)

context services
begin

lemma consume_captcha:
  assumes "consumeLoginCaptcha X s c w cid cap = (b, c', w')"
  shows "w_db w' = w_db w" "clock (w_redis w') = clock (w_redis w)" "table ks (w_redis w') = table ks (w_redis w)"
    "view_inv ks (w_redis w') = view_inv ks (w_redis w)" "b \<Longrightarrow> c' = c" "\<not> b \<Longrightarrow> Status c' \<in> {400, 503}"
    "same_sessions (ks (server (w_redis w))) (ks (server (w_redis w')))"
  using assms
  by (auto simp: consumeLoginCaptcha_def Let_def split: if_splits option.splits prod.splits sum.splits dest: Consume_view(1-4))

lemma consume_captcha_right:
  assumes "consumeLoginCaptcha X s c w cid cap = (True, c', w')" "Enabled (captchaConfig s)"
  shows "stored_answer (clock (w_redis w)) (ks (server (w_redis w))) (TrimSpace cid) = Some (NormalizeCaptcha (x_unicode X) (TrimSpace cap))"
    and "stored_answer (clock (w_redis w')) (ks (server (w_redis w'))) (TrimSpace cid) = None"
proof -
  obtain r where r: "CaptchaStore_Consume (x_unicode X) (x_redis X) (w_redis w) (TrimSpace cid) (TrimSpace cap) = (Inr True, r)"
    "w_redis w' = r" "TrimSpace cid \<noteq> []" "TrimSpace cap \<noteq> []"
    using assms by (auto simp: consumeLoginCaptcha_def Let_def split: if_splits option.splits prod.splits sum.splits)
  show "stored_answer (clock (w_redis w)) (ks (server (w_redis w))) (TrimSpace cid) = Some (NormalizeCaptcha (x_unicode X) (TrimSpace cap))"
    "stored_answer (clock (w_redis w')) (ks (server (w_redis w'))) (TrimSpace cid) = None"
    using Consume_view(5,6) [OF r(1) refl r(3,4)] r(2) by simp_all
qed

end

section \<open>Login\<close>

text \<open>
  C10 (safety). A login needs the credentials: status 200 is answered only to a bound request
  whose captcha (when captchas are on) was the stored one, whose email is that of an active
  account, and whose password that account's hash accepts. A request answered with 400, 401
  or 413 leaves the table of sessions as it was.
\<close>

theorem login_needs_credentials:
  assumes V: "services X ks rows uuid_in tm" and run: "Login X s body dr c w = (c', w')"
  shows "if Status c' = 200
    then \<exists>req u. body = BindOk req \<and> u \<in> set (rows (d_state (w_db w))) \<and> Active u
      \<and> Email u = normalizeEmail (x_unicode X) (normalizeEmail (x_unicode X) (l_Email req))
      \<and> Compare (x_bcrypt X) (PasswordHash u) (l_Password req)
      \<and> (\<not> Enabled (captchaConfig s) \<or> stored_answer (clock (w_redis w)) (ks (server (w_redis w))) (TrimSpace (l_CaptchaID req)) =
           Some (NormalizeCaptcha (x_unicode X) (TrimSpace (l_Captcha req))))
    else Status c' \<in> {500, 503} \<or>
      Status c' \<in> {400, 401, 413} \<and> sessions (clock (w_redis w')) (ks (server (w_redis w'))) = sessions (clock (w_redis w)) (ks (server (w_redis w)))"
  using run
proof (cases rule: Login_branches)
  case (captcha req)
  from services.consume_captcha(3,6) [OF V captcha(2)] show ?thesis by auto
next
  case (denied req c1 w1)
  from services.consume_captcha(3) [OF V denied(2)] denied(3,4) show ?thesis by auto
next
  case (verified req c1 w1 u d)
  have R: "user_db (x_db X) rows uuid_in tm" using V by (simp add: services_def)
  note u = user_db.FindUserByEmail_Inr [OF R verified(3)]
  have "w_db w1 = w_db w" by (rule services.consume_captcha(1) [OF V verified(2)])
  then show ?thesis
    using u verified(1,4,5) login_issue_status [OF verified(6)] services.consume_captcha_right(1) [OF V verified(2)] by auto
qed auto

section \<open>Sessions and tokens\<close>

abbreviation login_record :: "user \<Rightarrow> string \<Rightarrow> string \<Rightarrow> authSessionRecord" where
  "login_record u jti rt \<equiv> \<lparr>ar_AuthSession = (NewAuthSession u)\<lparr>s_AccessJTI := jti\<rparr>, ar_RefreshDigest = HashTokenHex rt\<rparr>"

context services
begin

lemma login_record_utf8:
  assumes "table_ok uuid_in us" "u \<in> set us" "valid_utf8 jti"
  shows "utf8_record (login_record u jti rt)" "ID u \<noteq> []" "valid_utf8 (ID u)"
proof -
  have u: "row_ok u" "is_ascii (ID u)" "ID u \<noteq> []" using assms(1,2) uuid_ascii by (auto simp: table_ok_def)
  moreover have "valid_utf8 (Role u)" using u(1) by (auto simp: row_ok_def Valid_def RoleAdmin_def RoleUser_def is_ascii_valid_utf8)
  ultimately show "utf8_record (login_record u jti rt)" "ID u \<noteq> []" "valid_utf8 (ID u)"
    using assms(3) by (auto simp: utf8_record_def NewAuthSession_def row_ok_def pg_text_def is_ascii_valid_utf8)
qed

text \<open>A created session is in the table, at once and until it expires.\<close>

lemma Create_table:
  assumes inv: "view_inv ks c" and t: "unix_milli now = clock c" "0 < n" and f: "fresh (clock c) (ks (server c)) sid d"
    and u: "utf8_record \<lparr>ar_AuthSession = a, ar_RefreshDigest = d\<rparr>"
    and run: "SessionStore_Create (x_redis X) c now sid a d (n * second) = (Inr (), c')"
  shows "clock c' = clock c" "view_inv ks c'"
    "table ks c' = (table ks c)(sid \<mapsto> (\<lparr>ar_AuthSession = a, ar_RefreshDigest = d\<rparr>, clock c + n * 1000))"
proof -
  let ?r = "\<lparr>ar_AuthSession = a, ar_RefreshDigest = d\<rparr>"
  have w: "clock c' = clock c" "sid \<noteq> []" "record_ok ?r"
    and cr: "created (clock c) (ks (server c)) (ks (server c')) sid (json_object (record_fields ?r)) d (s_UserID a) (clock c + n * 1000)"
    using writes_success [OF Create_writes [OF inv t run]] u by (auto simp: record_ok_def)
  show "clock c' = clock c" by (rule w(1))
  show "view_inv ks c'" unfolding w(1) by (rule inv_created [OF inv f w(3,2) _ _ cr]) simp_all
  show "table ks c' = (table ks c)(sid \<mapsto> (?r, clock c + n * 1000))"
    unfolding w(1) by (rule sessions_created [OF cr w(3)])
qed

lemma table_later:
  assumes "view_inv ks c" "table ks c sid = Some (r, e)" "server c2 = server c" "clock c \<le> clock c2" "clock c2 \<le> e"
  shows "view_inv ks c2" "table ks c2 sid = Some (r, e)"
  using assms inv_sessions_iff [OF assms(1)] session_inv_later [OF assms(1), of "clock c2"] holds_later holds_sessions by auto

text \<open>A token for a session in the table passes, for exactly the session's role, until it expires.\<close>

lemma issued_passes:
  assumes inv: "view_inv ks (w_redis w)" "faults (w_redis w) = []" and h: "Fields header = [''Bearer'', tok]"
    and i: "Manager_Issue (x_jwt X) (tokens s) issued u sid jti = Some tok" "u \<noteq> []" "sid \<noteq> []" "jti \<noteq> []"
      "valid_utf8 u" "valid_utf8 sid" "valid_utf8 jti" "valid_utf8 (issuer (tokens s))" "valid_utf8 (audience (tokens s))"
    and now: "issued \<le> now" "now < NewNumericDate (issued + m_ttl (tokens s))"
    and r: "table ks (w_redis w) sid = Some (r, e)" "s_Active (ar_AuthSession r)" "Valid (s_Role (ar_AuthSession r))"
      "owner r = u" "s_AccessJTI (ar_AuthSession r) = jti"
  shows "passes X s now roles header w p \<longleftrightarrow> s_Role (ar_AuthSession r) \<in> roles \<and> p = Principal (ar_AuthSession r) sid"
  using Issue_Parse [OF i now] r unfolding passes_table [OF inv h] by auto

text \<open>A token id that is not the session's current one does not pass.\<close>

lemma retired_blocked:
  assumes inv: "view_inv ks (w_redis w)" "faults (w_redis w) = []" and h: "Fields header = [''Bearer'', tok]"
    and i: "Manager_Parse (x_jwt X) (tokens s) now tok = Inr i"
    and r: "\<And>r e. table ks (w_redis w) (ai_SessionID i) = Some (r, e) \<Longrightarrow> s_AccessJTI (ar_AuthSession r) \<noteq> ai_AccessJTI i"
  shows "\<not> passes X s now roles header w p"
  using i r unfolding passes_table [OF inv h] by auto

end

text \<open>What the random draws of a handler owe: fresh, non-empty identifiers and a clock in step.\<close>

definition good_draws :: "('r \<Rightarrow> keyspace) \<Rightarrow> draws \<Rightarrow> 'r conn \<Rightarrow> bool" where
  "good_draws ks dr c \<longleftrightarrow>
     dr_sessionID dr \<noteq> [] \<and> dr_accessJTI dr \<noteq> [] \<and> valid_utf8 (dr_sessionID dr) \<and> valid_utf8 (dr_accessJTI dr)
     \<and> unix_milli (dr_now_create dr) = clock c
     \<and> (\<forall>rt. Random (dr_random dr) = Some rt \<longrightarrow> fresh (clock c) (ks (server c)) (dr_sessionID dr) (HashTokenHex rt))"

definition user_principal :: "user \<Rightarrow> string \<Rightarrow> principal" where
  "user_principal u sid = \<lparr>p_ID = ID u, p_Email = Email u, p_Remark = Remark u, p_Role = Role u, p_SessionID = sid\<rparr>"

lemma Principal_login [simp]: "Principal ((NewAuthSession u)\<lparr>s_AccessJTI := jti\<rparr>) sid = user_principal u sid"
  by (simp add: Principal_def NewAuthSession_def user_principal_def)

lemma NewAuthSession_simps [simp]:
  "s_UserID (NewAuthSession u) = ID u" "s_Role (NewAuthSession u) = Role u" "s_Active (NewAuthSession u) = Active u"
  by (simp_all add: NewAuthSession_def)

context services
begin

lemma Login_table:
  assumes inv: "view_inv ks (w_redis w)" "table_ok uuid_in (rows (d_state (w_db w)))" and dr: "good_draws ks dr (w_redis w)"
    and n: "refreshTTL s = n * second" "0 < n" and run: "Login X s body dr c w = (c', w')" "Status c' = 200"
  obtains u rt tok where "u \<in> set (rows (d_state (w_db w)))" "Active u" "Random (dr_random dr) = Some rt"
    "clock (w_redis w') = clock (w_redis w)" "view_inv ks (w_redis w')"
    "table ks (w_redis w') = (table ks (w_redis w))(dr_sessionID dr \<mapsto> (login_record u (dr_accessJTI dr) rt, clock (w_redis w) + n * 1000))"
    "Manager_Issue (x_jwt X) (tokens s) (dr_now_issue dr) (ID u) (dr_sessionID dr) (dr_accessJTI dr) = Some tok"
    "c' = ctx_JSON 200 (OKWithData (Token_data \<lparr>t_AccessToken = tok, t_TokenType = ''Bearer'',
        t_ExpiresIn = whole_seconds (accessTTL s), t_User = ToAuthUser u\<rparr>))
        (setRefreshCookie s (dr_now_cookie dr) c rt (dr_now_expires dr + refreshTTL s))"
  using run(1)
proof (cases rule: Login_branches)
  case (captcha req)
  from consume_captcha(6) [OF captcha(2)] run(2) show ?thesis by auto
next
  case (verified req c1 w1 u d)
  note k = consume_captcha [OF verified(2)]
  have u: "u \<in> set (rows (d_state (w_db w)))" using FindUserByEmail_Inr [OF verified(3)] k(1) by simp
  obtain rt tok where i: "Random (dr_random dr) = Some rt"
    "SessionStore_Create (x_redis X) (w_redis w1) (dr_now_create dr) (dr_sessionID dr)
       ((NewAuthSession u)\<lparr>s_AccessJTI := dr_accessJTI dr\<rparr>) (HashTokenHex rt) (n * second) = (Inr (), w_redis w')"
    "Manager_Issue (x_jwt X) (tokens s) (dr_now_issue dr) (ID u) (dr_sessionID dr) (dr_accessJTI dr) = Some tok"
    "c' = ctx_JSON 200 (OKWithData (Token_data \<lparr>t_AccessToken = tok, t_TokenType = ''Bearer'',
        t_ExpiresIn = whole_seconds (accessTTL s), t_User = ToAuthUser u\<rparr>))
        (setRefreshCookie s (dr_now_cookie dr) c1 rt (dr_now_expires dr + refreshTTL s))"
    using login_issue_200 [OF verified(6) run(2)] n(1) by auto
  have d: "unix_milli (dr_now_create dr) = clock (w_redis w1)" "valid_utf8 (dr_accessJTI dr)"
    "fresh (clock (w_redis w1)) (ks (server (w_redis w1))) (dr_sessionID dr) (HashTokenHex rt)"
    using dr i(1) k(2) same_sessions_fresh [OF k(7)] by (auto simp: good_draws_def)
  note t = Create_table [OF _ d(1) n(2) d(3) login_record_utf8(1) [OF inv(2) u d(2)] i(2)]
  show ?thesis using that [OF u verified(4) i(1) _ _ _ i(3)] t i(4) k inv(1) by simp
qed (use run(2) in auto)

end

text \<open>
  C11 (functional). A login opens the door: the token in the answer passes the authorisation
  middleware, as the account that logged in and for exactly the roles of that account, at
  every moment until the token or the session expires, as long as nothing else writes to the
  store.
\<close>

theorem login_grants_access:
  assumes V: "services X ks rows uuid_in tm" and inv: "session_inv (clock (w_redis w)) (ks (server (w_redis w)))"
    "table_ok uuid_in (rows (d_state (w_db w)))" and dr: "good_draws ks dr (w_redis w)"
    and n: "refreshTTL s = n * second" "0 < n" "valid_utf8 (issuer (tokens s))" "valid_utf8 (audience (tokens s))"
    and run: "Login X s body dr c w = (c', w')" "Status c' = 200" "Body c' = Some (OKWithData (Token_data t))"
    and later: "server (w_redis w2) = server (w_redis w')" "clock (w_redis w) \<le> clock (w_redis w2)"
      "clock (w_redis w2) \<le> clock (w_redis w) + n * 1000" "faults (w_redis w2) = []"
    and tok: "Fields header = [''Bearer'', t_AccessToken t]" "dr_now_issue dr \<le> now"
      "now < NewNumericDate (dr_now_issue dr + m_ttl (tokens s))"
  shows "\<exists>u \<in> set (rows (d_state (w_db w))). t_User t = ToAuthUser u \<and> Active u
    \<and> (\<forall>roles p. passes X s now roles header w2 p \<longleftrightarrow> Role u \<in> roles \<and> p = user_principal u (dr_sessionID dr))"
proof -
  obtain u rt tk where u: "u \<in> set (rows (d_state (w_db w)))" "Active u" and c: "clock (w_redis w') = clock (w_redis w)"
      "session_inv (clock (w_redis w')) (ks (server (w_redis w')))"
    and t: "sessions (clock (w_redis w')) (ks (server (w_redis w'))) = (sessions (clock (w_redis w)) (ks (server (w_redis w))))
        (dr_sessionID dr \<mapsto> (login_record u (dr_accessJTI dr) rt, clock (w_redis w) + n * 1000))"
    and i: "Manager_Issue (x_jwt X) (tokens s) (dr_now_issue dr) (ID u) (dr_sessionID dr) (dr_accessJTI dr) = Some tk"
    and c': "c' = ctx_JSON 200 (OKWithData (Token_data \<lparr>t_AccessToken = tk, t_TokenType = ''Bearer'',
        t_ExpiresIn = whole_seconds (accessTTL s), t_User = ToAuthUser u\<rparr>))
        (setRefreshCookie s (dr_now_cookie dr) c rt (dr_now_expires dr + refreshTTL s))"
    by (rule services.Login_table [OF V inv dr n(1,2) run(1,2)])
  have tk: "t_AccessToken t = tk" "t_User t = ToAuthUser u" using c' run(3) by (auto simp: OKWithData_def)
  have d: "dr_sessionID dr \<noteq> []" "dr_accessJTI dr \<noteq> []" "valid_utf8 (dr_sessionID dr)" "valid_utf8 (dr_accessJTI dr)"
    using dr by (auto simp: good_draws_def)
  note id = services.login_record_utf8(2,3) [OF V inv(2) u(1) d(4)]
  have "sessions (clock (w_redis w')) (ks (server (w_redis w'))) (dr_sessionID dr) =
      Some (login_record u (dr_accessJTI dr) rt, clock (w_redis w) + n * 1000)" using t by simp
  note s2 = services.table_later [OF V c(2) this later(1) _ later(3)]
  have "Valid (Role u)" using u(1) inv(2) by (auto simp: table_ok_def row_ok_def)
  then have "passes X s now roles header w2 p \<longleftrightarrow> Role u \<in> roles \<and> p = user_principal u (dr_sessionID dr)" for roles p
    using services.issued_passes [OF V s2(1) later(4) tok(1) [unfolded tk] i id(1) d(1,2) id(2) d(3,4) n(3,4) tok(2,3) s2(2)] u(2) later(2) c(1)
    by simp
  then show ?thesis using u tk(2) by blast
qed

section \<open>Refresh and logout\<close>

lemma inv_session_id: "session_inv t ks \<Longrightarrow> holds t ks sid r e \<Longrightarrow> sid \<noteq> []"
  using inv_session [of t ks sid] by (auto simp: holds_def)

context services
begin

lemma Refresh_table:
  assumes inv: "view_inv ks (w_redis w)" and jti: "dr_accessJTI dr \<noteq> []" "valid_utf8 (dr_accessJTI dr)"
    and new: "\<And>rt. Random (dr_random dr) = Some rt \<Longrightarrow> digest_session (clock (w_redis w)) (ks (server (w_redis w))) (HashTokenHex rt) = None"
    and run: "Refresh X s dr c w = (c', w')" "Status c' = 200"
  obtains raw rt sid r e tok where "rq_Cookie (Request c) (refreshCookieName s) = Some raw" "Random (dr_random dr) = Some rt"
    "table ks (w_redis w) sid = Some (r, e)" "ar_RefreshDigest r = HashTokenHex raw" "clock (w_redis w) < e"
    "s_Active (ar_AuthSession r)" "clock (w_redis w') = clock (w_redis w)" "view_inv ks (w_redis w')" "record_ok r" "sid \<noteq> []"
    "table ks (w_redis w') = (table ks (w_redis w))(sid \<mapsto> (rotated r (HashTokenHex rt) (dr_accessJTI dr), e))"
    "Manager_Issue (x_jwt X) (tokens s) (dr_now_issue dr) (owner r) sid (dr_accessJTI dr) = Some tok"
    "c' = ctx_JSON 200 (OKWithData (Token_data \<lparr>t_AccessToken = tok, t_TokenType = ''Bearer'', t_ExpiresIn = whole_seconds (accessTTL s),
        t_User = \<lparr>au_ID = owner r, au_Email = s_Email (ar_AuthSession r), au_Remark = s_Remark (ar_AuthSession r), au_Role = s_Role (ar_AuthSession r)\<rparr>\<rparr>))
        (setRefreshCookie s (dr_now_cookie dr) c rt (dr_now_expires dr + (e - clock (w_redis w)) * millisecond))"
proof -
  obtain raw rt sid a left tok where f: "rq_Cookie (Request c) (refreshCookieName s) = Some raw" "Random (dr_random dr) = Some rt"
    "SessionStore_Rotate (x_redis X) (w_redis w) (HashTokenHex raw) (HashTokenHex rt) (dr_accessJTI dr) = (Inr (sid, a, left), w_redis w')"
    "s_Active a" "Valid (s_Role a)" "Manager_Issue (x_jwt X) (tokens s) (dr_now_issue dr) (s_UserID a) sid (dr_accessJTI dr) = Some tok"
    "c' = ctx_JSON 200 (OKWithData (Token_data \<lparr>t_AccessToken = tok, t_TokenType = ''Bearer'',
        t_ExpiresIn = whole_seconds (accessTTL s),
        t_User = \<lparr>au_ID = s_UserID a, au_Email = s_Email a, au_Remark = s_Remark a, au_Role = s_Role a\<rparr>\<rparr>))
        (setRefreshCookie s (dr_now_cookie dr) c rt (dr_now_expires dr + left))"
    by (rule Refresh_200 [OF run])
  note w = writes_success [OF Rotate_writes [OF inv _ jti(2) f(3)]]
  then obtain r e where r: "table ks (w_redis w) sid = Some (r, e)" "ar_RefreshDigest r = HashTokenHex raw" "clock (w_redis w) < e"
    and sw: "ks (server (w_redis w')) = swapped (clock (w_redis w)) (ks (server (w_redis w))) sid r (HashTokenHex rt) (dr_accessJTI dr) e"
    and v: "a = ar_AuthSession (rotated r (HashTokenHex rt) (dr_accessJTI dr))" "left = (e - clock (w_redis w)) * millisecond"
    unfolding rotation_def by auto
  have h: "holds (clock (w_redis w)) (ks (server (w_redis w))) sid r e" using r(1) inv_sessions_iff [OF inv] by blast
  then have ok: "record_ok r" "sid \<noteq> []" using inv_session_id [OF inv h] unfolding holds_def by auto
  have ok': "record_ok (rotated r (HashTokenHex rt) (dr_accessJTI dr))" by (rule rotated_ok [OF ok(1) _ jti(1) _ jti(2)]) simp_all
  show ?thesis
  proof (rule that [OF f(1,2) r])
    show "s_Active (ar_AuthSession r)" using f(4) v(1) by (simp add: rotated_def)
    show "view_inv ks (w_redis w')" using w inv_swapped [OF inv r(1) ok' new [OF f(2)]] sw by simp
    show "table ks (w_redis w') = (table ks (w_redis w))(sid \<mapsto> (rotated r (HashTokenHex rt) (dr_accessJTI dr), e))"
      using w sessions_rotate_effect [OF _ ok', of "clock (w_redis w)" e] r(3) unfolding sw swapped_def by simp
  qed (use w f ok v in \<open>simp_all add: rotated_def\<close>)
qed

end

context services
begin

text \<open>A refresh token that is no session's: refused with 401, and nothing is written.\<close>

lemma Refresh_spent:
  assumes inv: "view_inv ks (w_redis w)" "faults (w_redis w) = []" and k: "rq_Cookie (Request c) (refreshCookieName s) = Some raw"
    and d: "Random (dr_random dr) \<noteq> None" "dr_accessJTI dr \<noteq> []"
    and gone: "\<And>sid r e. table ks (w_redis w) sid = Some (r, e) \<Longrightarrow> ar_RefreshDigest r \<noteq> HashTokenHex raw"
  shows "Status (fst (Refresh X s dr c w)) = 401 \<and> ks (server (w_redis (snd (Refresh X s dr c w)))) = ks (server (w_redis w))"
proof -
  obtain rt where rt: "Random (dr_random dr) = Some rt" using d(1) by blast
  have "SessionStore_Rotate (ks_redis (rd_cjson (x_redis X))) (conn_view ks (w_redis w)) (HashTokenHex raw) (HashTokenHex rt) (dr_accessJTI dr) =
      (Inl ErrNotFound, conn_view ks (w_redis w))"
    by (rule Rotate_unknown) (use inv d gone in auto)
  then obtain r where "SessionStore_Rotate (x_redis X) (w_redis w) (HashTokenHex raw) (HashTokenHex rt) (dr_accessJTI dr) = (Inl ErrNotFound, r)"
    "ks (server r) = ks (server (w_redis w))"
    using Rotate_sim [of "w_redis w" "HashTokenHex raw" "HashTokenHex rt" "dr_accessJTI dr"]
    by (cases "SessionStore_Rotate (x_redis X) (w_redis w) (HashTokenHex raw) (HashTokenHex rt) (dr_accessJTI dr)") (auto simp: conn_view_def)
  then show ?thesis using k rt by (simp add: Refresh_def)
qed

text \<open>What is in the table later was in it before.\<close>

lemma table_before:
  assumes "view_inv ks c" "table ks c2 sid = Some x" "server c2 = server c" "clock c \<le> clock c2"
  shows "table ks c sid = Some x"
proof (cases x)
  case (Pair r e)
  have "view_inv ks c2" using session_inv_later [OF assms(1,4)] assms(3) by simp
  then have "holds (clock c2) (ks (server c)) sid r e" using assms(2,3) Pair inv_sessions_iff by simp
  then show ?thesis using Pair holds_sessions holds_earlier assms(4) by blast
qed

end

text \<open>
  C9 (safety). A refresh retires what came before it. On status 200 the presented cookie was
  that of an active, unexpired session; the record of that session now has the digest of the new refresh
  token, which is the one the answer's cookie carries, and the new access token id, and keeps its expiry; no other
  session is touched. From then on, as long as nothing else writes to the store, the old
  refresh token is answered with 401 and changes nothing, the new access token passes
  the authorisation middleware as that session's account until it or the session expires, and every other access
  token of the session (the one before included) is refused.
\<close>

theorem refresh_replaces_tokens:
  assumes V: "services X ks rows uuid_in tm" and inv: "session_inv (clock (w_redis w)) (ks (server (w_redis w)))"
    "\<forall>sid \<in> dom (sessions (clock (w_redis w)) (ks (server (w_redis w)))). valid_utf8 sid"
    and jti: "dr_accessJTI dr \<noteq> []" "valid_utf8 (dr_accessJTI dr)"
      "\<forall>rt. Random (dr_random dr) = Some rt \<longrightarrow> digest_session (clock (w_redis w)) (ks (server (w_redis w))) (HashTokenHex rt) = None"
    and n: "valid_utf8 (issuer (tokens s))" "valid_utf8 (audience (tokens s))"
    and run: "Refresh X s dr c w = (c', w')" "Status c' = 200" "Body c' = Some (OKWithData (Token_data t))"
    and w2: "server (w_redis w2) = server (w_redis w')" "clock (w_redis w') \<le> clock (w_redis w2)" "faults (w_redis w2) = []"
  shows "\<exists>raw rt sid r e. rq_Cookie (Request c) (refreshCookieName s) = Some raw \<and> Random (dr_random dr) = Some rt
    \<and> sessions (clock (w_redis w)) (ks (server (w_redis w))) sid = Some (r, e) \<and> ar_RefreshDigest r = HashTokenHex raw
    \<and> s_Active (ar_AuthSession r) \<and> clock (w_redis w) < e
    \<and> sessions (clock (w_redis w')) (ks (server (w_redis w'))) =
        (sessions (clock (w_redis w)) (ks (server (w_redis w))))(sid \<mapsto> (rotated r (HashTokenHex rt) (dr_accessJTI dr), e))
    \<and> HashTokenHex rt \<noteq> HashTokenHex raw
    \<and> ck_Name (last (SetCookies c')) = refreshCookieName s \<and> ck_Value (last (SetCookies c')) = rt
    \<and> (\<forall>dr2 c2. rq_Cookie (Request c2) (refreshCookieName s) = Some raw \<longrightarrow> Random (dr_random dr2) \<noteq> None \<longrightarrow> dr_accessJTI dr2 \<noteq> [] \<longrightarrow>
         Status (fst (Refresh X s dr2 c2 w2)) = 401 \<and> ks (server (w_redis (snd (Refresh X s dr2 c2 w2)))) = ks (server (w_redis w2)))
    \<and> (\<forall>now header. Fields header = [''Bearer'', t_AccessToken t] \<longrightarrow> dr_now_issue dr \<le> now \<longrightarrow> now < NewNumericDate (dr_now_issue dr + m_ttl (tokens s)) \<longrightarrow>
         clock (w_redis w2) \<le> e \<longrightarrow> passes X s now {s_Role (ar_AuthSession r)} header w2 (Principal (ar_AuthSession r) sid))
    \<and> (\<forall>now header tok i roles p. Fields header = [''Bearer'', tok] \<longrightarrow> Manager_Parse (x_jwt X) (tokens s) now tok = Inr i \<longrightarrow>
         ai_SessionID i = sid \<longrightarrow> ai_AccessJTI i \<noteq> dr_accessJTI dr \<longrightarrow> \<not> passes X s now roles header w2 p)"
proof -
  obtain raw rt sid r e tok where f: "rq_Cookie (Request c) (refreshCookieName s) = Some raw" "Random (dr_random dr) = Some rt"
    and r: "sessions (clock (w_redis w)) (ks (server (w_redis w))) sid = Some (r, e)" "ar_RefreshDigest r = HashTokenHex raw" "clock (w_redis w) < e"
      "s_Active (ar_AuthSession r)" "clock (w_redis w') = clock (w_redis w)" "session_inv (clock (w_redis w')) (ks (server (w_redis w')))" "record_ok r" "sid \<noteq> []"
    and t: "sessions (clock (w_redis w')) (ks (server (w_redis w'))) =
        (sessions (clock (w_redis w)) (ks (server (w_redis w))))(sid \<mapsto> (rotated r (HashTokenHex rt) (dr_accessJTI dr), e))"
    and i: "Manager_Issue (x_jwt X) (tokens s) (dr_now_issue dr) (owner r) sid (dr_accessJTI dr) = Some tok"
    and c': "c' = ctx_JSON 200 (OKWithData (Token_data \<lparr>t_AccessToken = tok, t_TokenType = ''Bearer'', t_ExpiresIn = whole_seconds (accessTTL s),
        t_User = \<lparr>au_ID = owner r, au_Email = s_Email (ar_AuthSession r), au_Remark = s_Remark (ar_AuthSession r), au_Role = s_Role (ar_AuthSession r)\<rparr>\<rparr>))
        (setRefreshCookie s (dr_now_cookie dr) c rt (dr_now_expires dr + (e - clock (w_redis w)) * millisecond))"
    by (rule services.Refresh_table [OF V inv(1) jti(1,2) jti(3) [rule_format] run(1,2)])
  let ?r = "rotated r (HashTokenHex rt) (dr_accessJTI dr)"
  have tok: "t_AccessToken t = tok" using c' run(3) by (auto simp: OKWithData_def)
  have new: "HashTokenHex rt \<noteq> HashTokenHex raw"
    using jti(3) [rule_format, OF f(2), unfolded digest_none_iff [OF inv(1)]] r(1,2) by metis
  have cookie: "ck_Name (last (SetCookies c')) = refreshCookieName s" "ck_Value (last (SetCookies c')) = rt"
    by (simp_all add: c' setRefreshCookie_def)
  have inv2: "session_inv (clock (w_redis w2)) (ks (server (w_redis w2)))"
    using session_inv_later [OF r(6) w2(2)] w2(1) by simp
  note before = services.table_before [OF V r(6) _ w2(1,2)]
  have gone: "ar_RefreshDigest q \<noteq> HashTokenHex raw" if "sessions (clock (w_redis w2)) (ks (server (w_redis w2))) sid' = Some (q, k)" for sid' q k
    using before [OF that] new r(1,2) inv_digest_unique [OF inv(1)] inv_sessions_iff [OF inv(1)] t
    by (cases "sid' = sid") (auto simp: rotated_def)
  have o: "owner r \<noteq> []" "valid_utf8 (owner r)" "valid_utf8 sid" "Valid (s_Role (ar_AuthSession r))"
    using r(1,7) inv(2) by (auto simp: record_ok_def validate_iff utf8_record_def Let_def dom_def)
  have "passes X s now {s_Role (ar_AuthSession r)} header w2 (Principal (ar_AuthSession r) sid)"
    if "Fields header = [''Bearer'', t_AccessToken t]" "dr_now_issue dr \<le> now" "now < NewNumericDate (dr_now_issue dr + m_ttl (tokens s))"
      "clock (w_redis w2) \<le> e" for now header
  proof -
    have "sessions (clock (w_redis w2)) (ks (server (w_redis w2))) sid = Some (?r, e)"
      by (rule services.table_later(2) [OF V r(6) _ w2(1,2) that(4)]) (simp add: t)
    then show ?thesis
      using services.issued_passes [OF V inv2 w2(3) that(1) [unfolded tok] i o(1) r(8) jti(1) o(2,3) jti(2) n that(2,3)] r(4) o(4)
      by (simp add: rotated_def Principal_def)
  qed
  moreover have "\<not> passes X s now roles header w2 p"
    if "Fields header = [''Bearer'', tk]" "Manager_Parse (x_jwt X) (tokens s) now tk = Inr ai" "ai_SessionID ai = sid" "ai_AccessJTI ai \<noteq> dr_accessJTI dr" for now header tk ai roles p
    by (rule services.retired_blocked [OF V inv2 w2(3) that(1,2)]) (use that t before in \<open>fastforce simp: rotated_def\<close>)
  moreover have "Status (fst (Refresh X s dr2 c2 w2)) = 401 \<and> ks (server (w_redis (snd (Refresh X s dr2 c2 w2)))) = ks (server (w_redis w2))"
    if "rq_Cookie (Request c2) (refreshCookieName s) = Some raw" "Random (dr_random dr2) \<noteq> None" "dr_accessJTI dr2 \<noteq> []" for dr2 c2
    by (rule services.Refresh_spent [OF V inv2 w2(3) that gone])
  ultimately show ?thesis using f r(1-4) t new cookie by blast
qed

text \<open>
  C12 (safety). A logout ends the session of the presented cookie and no other: on status 200
  no session has that refresh token any more, every other session is as before, the cookie
  is cleared, and no token of an ended session passes the authorisation middleware.
\<close>

theorem logout_ends_session:
  assumes V: "services X ks rows uuid_in tm" and inv: "session_inv (clock (w_redis w)) (ks (server (w_redis w)))"
    and run: "Logout X s c w = (c', w')" "Status c' = 200" and raw: "rq_Cookie (Request c) (refreshCookieName s) = Some raw"
    and w2: "server (w_redis w2) = server (w_redis w')" "clock (w_redis w2) = clock (w_redis w')" "faults (w_redis w2) = []"
  shows "(\<forall>sid. sessions (clock (w_redis w')) (ks (server (w_redis w'))) sid =
        (case sessions (clock (w_redis w)) (ks (server (w_redis w))) sid of
           Some (r, e) \<Rightarrow> if ar_RefreshDigest r = HashTokenHex raw then None else Some (r, e) | None \<Rightarrow> None))
    \<and> ck_MaxAge (last (SetCookies c')) = -1 \<and> ck_Name (last (SetCookies c')) = refreshCookieName s
    \<and> (\<forall>now header tok i r e roles p. Fields header = [''Bearer'', tok] \<longrightarrow> Manager_Parse (x_jwt X) (tokens s) now tok = Inr i \<longrightarrow>
         sessions (clock (w_redis w)) (ks (server (w_redis w))) (ai_SessionID i) = Some (r, e) \<longrightarrow> ar_RefreshDigest r = HashTokenHex raw \<longrightarrow>
         \<not> passes X s now roles header w2 p)"
proof -
  have R: "redis_server (x_redis X) ks" using V by (simp add: services_def)
  have run': "SessionStore_DeleteByRefreshDigest (x_redis X) (w_redis w) (HashTokenHex raw) = (Inr (), w_redis w')"
    "c' = ctx_JSON 200 (OKWithMessage ''logged out'') (clearRefreshCookie s c)"
    using run raw by (auto simp: Logout_def split: prod.splits sum.splits)
  have w: "clock (w_redis w') = clock (w_redis w)"
    and rm: "removed (digest_sessions (clock (w_redis w)) (ks (server (w_redis w))) (HashTokenHex raw)) (clock (w_redis w))
      (ks (server (w_redis w))) (ks (server (w_redis w')))"
    using writes_success [OF redis_server.DeleteByRefreshDigest_writes [OF R inv run'(1)]] by simp_all
  have t: "sessions (clock (w_redis w')) (ks (server (w_redis w'))) sid =
        (case sessions (clock (w_redis w)) (ks (server (w_redis w))) sid of
           Some (r, e) \<Rightarrow> if ar_RefreshDigest r = HashTokenHex raw then None else Some (r, e) | None \<Rightarrow> None)" for sid
    unfolding w sessions_removed [OF rm] by (auto simp: digest_sessions_def split: option.splits)
  have inv2: "session_inv (clock (w_redis w2)) (ks (server (w_redis w2)))" using inv_removed [OF inv rm] w w2 by simp
  have "\<not> passes X s now roles header w2 p"
    if "Fields header = [''Bearer'', tok]" "Manager_Parse (x_jwt X) (tokens s) now tok = Inr i"
      "sessions (clock (w_redis w)) (ks (server (w_redis w))) (ai_SessionID i) = Some (r, e)" "ar_RefreshDigest r = HashTokenHex raw" for now header tok i r e roles p
    by (rule services.retired_blocked [OF V inv2 w2(3) that(1,2)]) (use that t w2 in simp)
  moreover have "ck_MaxAge (last (SetCookies c')) = -1 \<and> ck_Name (last (SetCookies c')) = refreshCookieName s"
    unfolding run'(2) by (simp add: clearRefreshCookie_def)
  ultimately show ?thesis using t by blast
qed

section \<open>Outcomes on working connections\<close>

lemma call_faults: "call m c = (x, c') \<Longrightarrow> faults c = [] \<Longrightarrow> faults c' = []"
  by (auto simp: call_def split: prod.splits)

lemma Create_faults: "SessionStore_Create R c now sid a d ttl = (x, c') \<Longrightarrow> faults c = [] \<Longrightarrow> faults c' = []"
  by (auto simp: SessionStore_Create_def Let_def split: prod.splits sum.splits if_splits dest: call_faults)

context redis_server
begin

lemma Create_view_clean:
  assumes "view_inv ks c" "unix_milli now = clock c" "0 < n" "sid \<noteq> []"
    "validateAuthSessionRecord \<lparr>ar_AuthSession = a, ar_RefreshDigest = d\<rparr> = Inr ()" "faults c = []"
  obtains c' where "SessionStore_Create R c now sid a d (n * second) = (Inr (), c')"
  using Create_clean [of "conn_view ks c" now n sid a d "rd_cjson R"] assms Create_sim [of c now sid a d "n * second"] that
  by (cases "SessionStore_Create R c now sid a d (n * second)") auto

end

lemma no_captcha: "\<not> Enabled (captchaConfig s) \<Longrightarrow> consumeLoginCaptcha X s c w i a = (True, c, w)"
  by (simp add: consumeLoginCaptcha_def)

lemma consume_captcha_faults:
  "consumeLoginCaptcha X s c w i a = (b, c', w') \<Longrightarrow> faults (w_redis w) = [] \<Longrightarrow> faults (w_redis w') = []"
  by (auto simp: consumeLoginCaptcha_def CaptchaStore_Consume_def Let_def split: if_splits option.splits prod.splits sum.splits dest!: call_faults)

context services
begin

lemma FindUserByEmail_outcome:
  assumes "d_faults c = []" "table_ok uuid_in (tab c)" "pg_text (normalizeEmail U e)"
  obtains (found) u d where "FindUserByEmail U (x_db X) c e = (Inr u, d)" "u \<in> set (tab c)" "Email u = normalizeEmail U e"
  | (absent) d where "FindUserByEmail U (x_db X) c e = (Inl ErrNotFound, d)" "\<And>u. u \<in> set (tab c) \<Longrightarrow> Email u \<noteq> normalizeEmail U e"
proof -
  let ?cs = "[EmailEq (normalizeEmail U e)]"
  obtain d' where d: "dcall (db_Take (x_db X) ?cs) c = (fst (tb_Take uuid_in ?cs (tab c)), c\<lparr>d_state := d'\<rparr>)"
    by (rule Take_clean [OF assms(1)])
  show ?thesis
  proof (cases "find (matches uuid_in ?cs) (tab c)")
    case None
    then have "FindUserByEmail U (x_db X) c e = (Inl ErrNotFound, c\<lparr>d_state := d'\<rparr>)"
      using d assms(3) by (simp add: FindUserByEmail_def tb_Take_def)
    then show ?thesis by (rule absent) (use None in \<open>auto simp: find_None_iff\<close>)
  next
    case (Some u)
    then have "FindUserByEmail U (x_db X) c e = (Inr u, c\<lparr>d_state := d'\<rparr>)"
      using d assms(3) by (simp add: FindUserByEmail_def tb_Take_def)
    then show ?thesis by (rule found) (use Some in \<open>auto simp: find_Some_iff\<close>)
  qed
qed

lemma Login_clean:
  assumes inv: "view_inv ks (w_redis w)" "table_ok uuid_in (rows (d_state (w_db w)))" and dr: "good_draws ks dr (w_redis w)"
    and n: "refreshTTL s = n * second" "0 < n" and f: "faults (w_redis w) = []" "d_faults (w_db w) = []"
    and cap: "consumeLoginCaptcha X s c w (l_CaptchaID req) (l_Captcha req) = (True, c, w1)" and u: "u \<in> set (rows (d_state (w_db w)))" "Active u"
      "Email u = normalizeEmail (x_unicode X) (normalizeEmail (x_unicode X) (l_Email req))" "Compare (x_bcrypt X) (PasswordHash u) (l_Password req)"
    and req: "normalizeEmail (x_unicode X) (l_Email req) \<noteq> []" "l_Password req \<noteq> []" "length (l_Password req) \<le> 1024"
    and rt: "Random (dr_random dr) = Some rt"
    and tok: "Manager_Issue (x_jwt X) (tokens s) (dr_now_issue dr) (ID u) (dr_sessionID dr) (dr_accessJTI dr) = Some tok"
  obtains c' w' where "Login X s (BindOk req) dr c w = (c', w')" "Status c' = 200"
    "Body c' = Some (OKWithData (Token_data \<lparr>t_AccessToken = tok, t_TokenType = ''Bearer'', t_ExpiresIn = whole_seconds (accessTTL s), t_User = ToAuthUser u\<rparr>))"
    "faults (w_redis w') = []"
proof -
  note k = consume_captcha [OF cap]
  have f1: "faults (w_redis w1) = []" by (rule consume_captcha_faults [OF cap f(1)])
  obtain d' where d: "FindUserByEmail (x_unicode X) (x_db X) (w_db w) (normalizeEmail (x_unicode X) (l_Email req)) = (Inr u, (w_db w)\<lparr>d_state := d'\<rparr>)"
    by (rule FindUserByEmail_clean [OF f(2) inv(2) u(1,3)])
  have "validateAuthSessionRecord (login_record u (dr_accessJTI dr) rt) = Inr ()"
    using login_record_utf8(2) [OF inv(2) u(1)] dr u(1) inv(2) by (auto simp: validate_iff good_draws_def table_ok_def row_ok_def)
  then obtain r where r: "SessionStore_Create (x_redis X) (w_redis w1) (dr_now_create dr) (dr_sessionID dr)
       ((NewAuthSession u)\<lparr>s_AccessJTI := dr_accessJTI dr\<rparr>) (HashTokenHex rt) (n * second) = (Inr (), r)"
    using dr k(2) by (auto intro: Create_view_clean [OF inv(1) [folded k(4)] _ n(2) _ _ f1] simp: good_draws_def)
  have "faults r = []" using Create_faults [OF r f1] .
  then show ?thesis
    by (intro that) (use cap req d u r rt tok n(1) k(1) in \<open>auto simp: Login_def normalizeEmail_def login_issue_def setRefreshCookie_def\<close>)
qed

end

context services
begin

lemma Refresh_clean:
  assumes inv: "view_inv ks (w_redis w)" "faults (w_redis w) = []" and k: "rq_Cookie (Request c) (refreshCookieName s) = Some raw"
    and d: "Random (dr_random dr) = Some rt" "dr_accessJTI dr \<noteq> []" "valid_utf8 (dr_accessJTI dr)"
    and r: "table ks (w_redis w) sid = Some (r, e)" "ar_RefreshDigest r = HashTokenHex raw" "clock (w_redis w) < e" "s_Active (ar_AuthSession r)"
    and tok: "Manager_Issue (x_jwt X) (tokens s) (dr_now_issue dr) (owner r) sid (dr_accessJTI dr) = Some tok"
  obtains c' w' t where "Refresh X s dr c w = (c', w')" "Status c' = 200" "Body c' = Some (OKWithData (Token_data t))" "t_AccessToken t = tok"
    "faults (w_redis w') = []"
proof -
  have "SessionStore_Rotate K (conn_view ks (w_redis w)) (HashTokenHex raw) (HashTokenHex rt) (dr_accessJTI dr) =
      (Inr (sid, ar_AuthSession (rotated r (HashTokenHex rt) (dr_accessJTI dr)), (e - clock (w_redis w)) * millisecond),
       (conn_view ks (w_redis w))\<lparr>server := swapped (clock (w_redis w)) (ks (server (w_redis w))) sid r (HashTokenHex rt) (dr_accessJTI dr) e\<rparr>)"
    using Rotate_clean [of "conn_view ks (w_redis w)" "HashTokenHex rt" "dr_accessJTI dr" sid r e "HashTokenHex raw" "rd_cjson (x_redis X)"] inv d r by simp
  then obtain c1 where c1: "SessionStore_Rotate (x_redis X) (w_redis w) (HashTokenHex raw) (HashTokenHex rt) (dr_accessJTI dr) =
      (Inr (sid, ar_AuthSession (rotated r (HashTokenHex rt) (dr_accessJTI dr)), (e - clock (w_redis w)) * millisecond), c1)"
    and f: "conn_view ks c1 = (conn_view ks (w_redis w))\<lparr>server := swapped (clock (w_redis w)) (ks (server (w_redis w))) sid r (HashTokenHex rt) (dr_accessJTI dr) e\<rparr>"
    unfolding Rotate_sim by (cases "SessionStore_Rotate (x_redis X) (w_redis w) (HashTokenHex raw) (HashTokenHex rt) (dr_accessJTI dr)") auto
  have "faults c1 = []" using arg_cong [OF f, of faults] inv(2) by (simp add: conn_view_def)
  moreover have "Valid (s_Role (ar_AuthSession r))"
    using r(1) inv_sessions_iff [OF inv(1)] by (auto simp: holds_def record_ok_def validate_iff)
  ultimately show ?thesis
    by (intro that) (use k d c1 r tok in \<open>auto simp: Refresh_def rotated_def setRefreshCookie_def\<close>)
qed

end

text \<open>
  C27 (liveness). With working connections and captchas off, an active account whose email
  and password are right gets in: the answer is 200 with a token for that account.
\<close>

theorem login_succeeds:
  assumes "services X ks rows uuid_in tm" "session_inv (clock (w_redis w)) (ks (server (w_redis w)))"
    "table_ok uuid_in (rows (d_state (w_db w)))" "good_draws ks dr (w_redis w)" "refreshTTL s = n * second" "0 < n"
    "faults (w_redis w) = []" "d_faults (w_db w) = []" "\<not> Enabled (captchaConfig s)"
    and "u \<in> set (rows (d_state (w_db w)))" "Active u"
      "Email u = normalizeEmail (x_unicode X) (normalizeEmail (x_unicode X) (l_Email req))" "Compare (x_bcrypt X) (PasswordHash u) (l_Password req)"
    and "normalizeEmail (x_unicode X) (l_Email req) \<noteq> []" "l_Password req \<noteq> []" "length (l_Password req) \<le> 1024"
    and "Random (dr_random dr) = Some rt"
      "Manager_Issue (x_jwt X) (tokens s) (dr_now_issue dr) (ID u) (dr_sessionID dr) (dr_accessJTI dr) = Some tok"
  shows "Status (fst (Login X s (BindOk req) dr c w)) = 200
    \<and> Body (fst (Login X s (BindOk req) dr c w)) = Some (OKWithData (Token_data \<lparr>t_AccessToken = tok, t_TokenType = ''Bearer'',
         t_ExpiresIn = whole_seconds (accessTTL s), t_User = ToAuthUser u\<rparr>))"
  by (rule services.Login_clean [OF assms(1-8) no_captcha [OF assms(9)] assms(10-), of c]) simp

text \<open>
  C28 (error). A refused login does not say why: with the captcha passed and a working
  database, an unknown email, a disabled account and a wrong password all get the very same
  answer, 401 \<open>invalid credentials\<close>, and no session is touched.
\<close>

theorem login_uniform_denial:
  assumes V: "services X ks rows uuid_in tm" and cap: "consumeLoginCaptcha X s c w (l_CaptchaID req) (l_Captcha req) = (True, c1, w1)"
    and f: "d_faults (w_db w1) = []" "table_ok uuid_in (rows (d_state (w_db w1)))"
      "pg_text (normalizeEmail (x_unicode X) (normalizeEmail (x_unicode X) (l_Email req)))"
    and bad: "\<forall>u \<in> set (rows (d_state (w_db w1))). Email u = normalizeEmail (x_unicode X) (normalizeEmail (x_unicode X) (l_Email req)) \<longrightarrow>
       \<not> Active u \<or> \<not> Compare (x_bcrypt X) (PasswordHash u) (l_Password req)"
  shows "\<exists>d. Login X s (BindOk req) dr c w =
    (AbortWithStatusJSON 401 (FailWithCode ''invalid credentials'' ''INVALID_CREDENTIALS'') c, w1\<lparr>w_db := d\<rparr>)"
proof -
  have c1: "c1 = c" using services.consume_captcha(5) [OF V cap] by simp
  let ?e = "normalizeEmail (x_unicode X) (l_Email req)"
  show ?thesis
  proof (cases "?e = [] \<or> l_Password req = [] \<or> 1024 < length (l_Password req)")
    case True
    then show ?thesis using cap c1 by (intro exI [of _ "w_db w1"]) (auto simp: Login_def normalizeEmail_def)
  next
    case False
    show ?thesis
      by (rule services.FindUserByEmail_outcome [OF V f])
        (use False cap c1 bad in \<open>auto simp: Login_def normalizeEmail_def\<close>)
  qed
qed

section \<open>A worked example\<close>

definition demo_account :: user where
  "demo_account = (demo_user ''u1'' ''a@b.c'')\<lparr>PasswordHash := CHR ''$'' # HashTokenHex ''secret''\<rparr>"

definition demo_world :: "(keyspace, user list) world" where
  "demo_world = \<lparr>w_redis = demo_start, w_db = demo_db [demo_account]\<rparr>"

definition demo_auth :: AuthService where
  "demo_auth = \<lparr>images = None, tokens = demo_manager, refreshTTL = 60 * second, secureCookie = True, refreshCookieName = ''rt'',
     accessTTL = 15 * minute, captchaConfig = (Captcha defaults)\<lparr>Enabled := False\<rparr>\<rparr>"

definition demo_draws :: draws where
  "demo_draws = \<lparr>dr_random = Some (replicate 32 7), dr_sessionID = ''s1'', dr_accessJTI = ''j1'', dr_now_create = 1000 * millisecond,
     dr_now_issue = 1000 * millisecond, dr_now_expires = 1000 * millisecond, dr_now_cookie = 1000 * millisecond\<rparr>"

definition demo_login :: login_command where
  "demo_login = \<lparr>l_Email = ''a@b.c'', l_Password = ''secret'', l_CaptchaID = [], l_Captcha = []\<rparr>"

definition demo_token :: string where
  "demo_token = the (Manager_Issue plain_jwt demo_manager (1000 * millisecond) ''u1'' ''s1'' ''j1'')"

lemma demo_issue: "Manager_Issue plain_jwt demo_manager (1000 * millisecond) ''u1'' ''s1'' ''j1'' = Some demo_token"
  by (simp add: demo_token_def Manager_Issue_def plain_jwt_def)

lemma demo_account_simps [simp]: "ID demo_account = ''u1''" "Email demo_account = ''a@b.c''" "Active demo_account" "Role demo_account = ''user''"
  "Remark demo_account = ''r''" "PasswordHash demo_account = CHR ''$'' # HashTokenHex ''secret''"
  by (simp_all add: demo_account_def demo_user_def)

lemma demo_accounts_ok: "table_ok fold_id [demo_account]"
proof -
  have "map ascii_lower ''u1'' = ''u1''" by code_simp
  then show ?thesis
    by (simp add: table_ok_def row_ok_def pg_text_ascii HashTokenHex_shape HashTokenHex_not_zero fold_id_def Valid_def RoleAdmin_def RoleUser_def)
qed

lemma demo_world_simps [simp]: "w_redis demo_world = demo_start" "w_db demo_world = demo_db [demo_account]"
  "d_state (demo_db us) = us" "d_faults (demo_db us) = []"
  by (simp_all add: demo_world_def demo_db_def)

lemma demo_auth_simps [simp]: "tokens demo_auth = demo_manager" "refreshTTL demo_auth = 60 * second" "\<not> Enabled (captchaConfig demo_auth)"
  "refreshCookieName demo_auth = ''rt''"
  by (simp_all add: demo_auth_def)

lemma demo_manager_simps [simp]: "issuer demo_manager = ''iss''" "audience demo_manager = ''aud''" "m_ttl demo_manager = 15 * minute"
  by (simp_all add: demo_manager_def)

lemma demo_draws_simps [simp]: "dr_sessionID demo_draws = ''s1''" "dr_accessJTI demo_draws = ''j1''" "dr_now_issue demo_draws = 1000 * millisecond"
  "dr_now_create demo_draws = 1000 * millisecond"
  "Random (dr_random demo_draws) = Some (base64_RawURL (replicate 32 7))"
  by (simp_all add: demo_draws_def Random_def)

lemma demo_good_draws: "good_draws (\<lambda>k. k) demo_draws demo_start"
  by (simp add: good_draws_def demo_fresh unix_milli_def is_ascii_valid_utf8)

lemma demo_email: "normalizeEmail demo_unicode ''a@b.c'' = ''a@b.c''"
  by (simp add: normalizeEmail_def TrimSpace_ascii ToLower_def IsSpace_def) code_simp

theorem login_succeeds_witness:
  "Status (fst (Login demo_deps demo_auth (BindOk demo_login) demo_draws (new_ctx (demo_request [])) demo_world)) = 200"
  using login_succeeds [OF demo_services.services_axioms, of demo_world demo_draws demo_auth 60 demo_account demo_login
      "base64_RawURL (replicate 32 7)" demo_token "new_ctx (demo_request [])"]
    session_inv_empty [of 1000] demo_accounts_ok demo_good_draws demo_email demo_issue
  by (simp add: demo_login_def Compare_def plain_bcrypt_def)

lemma demo_run:
  obtains c' w' where "Login demo_deps demo_auth (BindOk demo_login) demo_draws c demo_world = (c', w')" "Status c' = 200"
    "Body c' = Some (OKWithData (Token_data \<lparr>t_AccessToken = demo_token, t_TokenType = ''Bearer'',
        t_ExpiresIn = whole_seconds (accessTTL demo_auth), t_User = ToAuthUser demo_account\<rparr>))" "faults (w_redis w') = []"
  by (rule demo_services.Login_clean [of demo_world demo_draws demo_auth 60 c demo_login demo_world demo_account
      "base64_RawURL (replicate 32 7)" demo_token])
    (use session_inv_empty [of 1000] demo_accounts_ok demo_good_draws demo_email demo_issue in
      \<open>simp_all add: demo_login_def Compare_def plain_bcrypt_def no_captcha\<close>)

theorem login_needs_credentials_witness:
  "\<exists>c' w' u. Login demo_deps demo_auth (BindOk demo_login) demo_draws (new_ctx (demo_request [])) demo_world = (c', w')
     \<and> Status c' = 200 \<and> u \<in> set [demo_account] \<and> Compare plain_bcrypt (PasswordHash u) ''secret''"
proof -
  obtain c' w' where run: "Login demo_deps demo_auth (BindOk demo_login) demo_draws (new_ctx (demo_request [])) demo_world = (c', w')" "Status c' = 200"
    by (rule demo_run)
  then show ?thesis using login_needs_credentials [OF demo_services.services_axioms run(1)] by (auto simp: demo_login_def)
qed

theorem login_uniform_denial_witness:
  "\<exists>d. Login demo_deps demo_auth (BindOk (demo_login\<lparr>l_Password := ''guess''\<rparr>)) demo_draws (new_ctx (demo_request [])) (demo_world\<lparr>w_db := demo_db []\<rparr>) =
     (AbortWithStatusJSON 401 (FailWithCode ''invalid credentials'' ''INVALID_CREDENTIALS'') (new_ctx (demo_request [])), demo_world\<lparr>w_db := d\<rparr>)"
  using login_uniform_denial [OF demo_services.services_axioms, of demo_auth "new_ctx (demo_request [])" "demo_world\<lparr>w_db := demo_db []\<rparr>"
      "demo_login\<lparr>l_Password := ''guess''\<rparr>" "new_ctx (demo_request [])" "demo_world\<lparr>w_db := demo_db []\<rparr>"] demo_email
  by (simp add: consumeLoginCaptcha_def demo_login_def table_ok_def pg_text_ascii)

text \<open>A sealed token of plain identifiers is a single word.\<close>

definition plain_char :: "char \<Rightarrow> bool" where
  "plain_char c \<longleftrightarrow> of_char c < (128 :: nat) \<and> \<not> ascii_space c"

lemma put_plain: "list_all plain_char s \<Longrightarrow> list_all plain_char (put_str s)"
  by (induction s) (simp_all add: put_str_def plain_char_def IsSpace_def)

lemma put_date_plain: "list_all plain_char (put_date d)"
proof -
  have "list_all plain_char (replicate n CHR ''1'')" for n by (induction n) (simp_all add: plain_char_def IsSpace_def)
  then show ?thesis by (auto simp: put_date_def plain_char_def IsSpace_def intro!: put_plain split: option.splits)
qed

lemma Issue_Bearer:
  assumes "Manager_Issue plain_jwt demo_manager t u sid jti = Some tok" "list_all plain_char u" "list_all plain_char sid" "list_all plain_char jti"
  shows "Fields (''Bearer '' @ tok) = [''Bearer'', tok]"
proof -
  have k: "list_all plain_char (secret demo_manager)" by (simp add: demo_manager_def plain_char_def IsSpace_def list_all_iff)
  have "list_all plain_char ''iss''" "list_all plain_char ''aud''" by (simp_all add: plain_char_def IsSpace_def)
  then have p: "list_all plain_char tok"
    using assms put_plain [OF k]
    by (auto simp: Manager_Issue_def plain_jwt_def seal_def put_plain put_date_plain plain_char_def IsSpace_def)
  have "tok \<noteq> []" using assms(1) by (auto simp: Manager_Issue_def plain_jwt_def seal_def put_str_def)
  then show ?thesis using p by (intro Fields_Bearer) (auto simp: list_all_iff plain_char_def is_ascii_set)
qed

lemma demo_bearer: "Fields (''Bearer '' @ demo_token) = [''Bearer'', demo_token]"
  by (rule Issue_Bearer [OF demo_issue]) (simp_all add: plain_char_def IsSpace_def)

theorem login_grants_access_witness:
  "\<exists>c' w'. Login demo_deps demo_auth (BindOk demo_login) demo_draws (new_ctx (demo_request [])) demo_world = (c', w')
     \<and> passes demo_deps demo_auth (14 * minute) {''user''} (''Bearer '' @ demo_token) w' (user_principal demo_account ''s1'')"
proof -
  obtain c' w' where run: "Login demo_deps demo_auth (BindOk demo_login) demo_draws (new_ctx (demo_request [])) demo_world = (c', w')" "Status c' = 200"
    "Body c' = Some (OKWithData (Token_data \<lparr>t_AccessToken = demo_token, t_TokenType = ''Bearer'',
        t_ExpiresIn = whole_seconds (accessTTL demo_auth), t_User = ToAuthUser demo_account\<rparr>))" "faults (w_redis w') = []"
    by (rule demo_run)
  have "clock (w_redis w') = 1000"
    by (rule demo_services.Login_table [of demo_world demo_draws demo_auth 60, OF _ _ _ _ _ run(1,2)])
      (use session_inv_empty [of 1000] demo_accounts_ok demo_good_draws in simp_all)
  then show ?thesis
    using login_grants_access [OF demo_services.services_axioms _ _ _ _ _ _ _ run(1-3), of 60 w' "''Bearer '' @ demo_token" "14 * minute"]
      session_inv_empty [of 1000] demo_accounts_ok demo_good_draws demo_bearer run(1,4)
    by (simp add: NewNumericDate_def is_ascii_valid_utf8)
qed

text \<open>The account logged in earlier, with the refresh token \<open>abc\<close>.\<close>

lemma logged_in:
  assumes ok: "table_ok fold_id [a]"
  obtains w :: "(keyspace, user list) world" where "w_db w = demo_db [a]" "clock (w_redis w) = 1000" "faults (w_redis w) = []"
    "session_inv 1000 (server (w_redis w))"
    "sessions 1000 (server (w_redis w)) = [''s1'' \<mapsto> (login_record a ''j1'' ''abc'', 61000)]"
proof -
  let ?a = "(NewAuthSession a)\<lparr>s_AccessJTI := ''j1''\<rparr>"
  have inv: "session_inv (clock demo_start) (server demo_start)" using session_inv_empty [of 1000] by simp
  have u: "utf8_record (login_record a ''j1'' ''abc'')" "ID a \<noteq> []"
    using demo_services.login_record_utf8(1,2) [OF ok, of a "''j1''"] by (simp_all add: is_ascii_valid_utf8)
  have t: "unix_milli (1000 * millisecond) = clock demo_start" by (simp add: unix_milli_def)
  obtain c1 where c1: "SessionStore_Create (ks_redis ks_cjson) demo_start (1000 * millisecond) ''s1'' ?a (HashTokenHex ''abc'') (60 * second) = (Inr (), c1)"
    using demo_services.Create_view_clean [OF inv t, of 60 "''s1''" ?a "HashTokenHex ''abc''"] u(2) ok
    by (auto simp: validate_iff table_ok_def row_ok_def)
  note t1 = demo_services.Create_table [OF inv t _ _ u(1), of 60 "''s1''" c1, simplified, OF demo_fresh c1 [simplified]]
  have "sessions 1000 Map.empty = Map.empty" by (simp add: sessions_def live_def fun_eq_iff)
  then show ?thesis
    using t1 Create_faults [OF c1] by (intro that [of "\<lparr>w_redis = c1, w_db = demo_db [a]\<rparr>"]) simp_all
qed

lemmas demo_logged_in = logged_in [OF demo_accounts_ok]

definition demo_cookie_ctx :: ctx where
  "demo_cookie_ctx = new_ctx ((demo_request [])\<lparr>rq_Cookie := (\<lambda>_. Some ''abc'')\<rparr>)"

lemma demo_cookie [simp]: "rq_Cookie (Request demo_cookie_ctx) k = Some ''abc''"
  by (simp add: demo_cookie_ctx_def new_ctx_def)

definition next_draws :: draws where
  "next_draws = demo_draws\<lparr>dr_random := Some (replicate 32 0), dr_accessJTI := ''j2''\<rparr>"

lemma next_draws_simps [simp]: "dr_accessJTI next_draws = ''j2''" "dr_now_issue next_draws = 1000 * millisecond"
  "Random (dr_random next_draws) = Some (replicate 43 CHR ''A'')"
  by (simp_all add: next_draws_def demo_draws_def Random_def zero_token)

definition next_token :: string where
  "next_token = the (Manager_Issue plain_jwt demo_manager (1000 * millisecond) ''u1'' ''s1'' ''j2'')"

lemma next_issue: "Manager_Issue plain_jwt demo_manager (1000 * millisecond) ''u1'' ''s1'' ''j2'' = Some next_token"
  by (simp add: next_token_def Manager_Issue_def plain_jwt_def)

lemma next_bearer: "Fields (''Bearer '' @ next_token) = [''Bearer'', next_token]"
  by (rule Issue_Bearer [OF next_issue]) (simp_all add: plain_char_def IsSpace_def)

lemma demo_parse: "Manager_Parse plain_jwt demo_manager (2 * second) demo_token = Inr \<lparr>ai_UserID = ''u1'', ai_SessionID = ''s1'', ai_AccessJTI = ''j1''\<rparr>"
  by (rule plain_jwt.Issue_Parse [OF demo_issue]) (simp_all add: is_ascii_valid_utf8 NewNumericDate_def)

theorem refresh_replaces_tokens_witness:
  "\<exists>w c' w'. Refresh demo_deps demo_auth next_draws demo_cookie_ctx w = (c', w') \<and> Status c' = 200
     \<and> passes demo_deps demo_auth (2 * second) {''user''} (''Bearer '' @ next_token) w' (user_principal demo_account ''s1'')
     \<and> \<not> passes demo_deps demo_auth (2 * second) {''user''} (''Bearer '' @ demo_token) w' (user_principal demo_account ''s1'')
     \<and> Status (fst (Refresh demo_deps demo_auth next_draws demo_cookie_ctx w')) = 401"
proof -
  obtain w :: "(keyspace, user list) world" where w: "w_db w = demo_db [demo_account]" "clock (w_redis w) = 1000" "faults (w_redis w) = []" "session_inv 1000 (server (w_redis w))"
    and t: "sessions 1000 (server (w_redis w)) = [''s1'' \<mapsto> (login_record demo_account ''j1'' ''abc'', 61000)]"
    by (rule demo_logged_in)
  obtain c' w' tk where run: "Refresh demo_deps demo_auth next_draws demo_cookie_ctx w = (c', w')" "Status c' = 200"
    "Body c' = Some (OKWithData (Token_data tk))" and tok: "t_AccessToken tk = next_token" "faults (w_redis w') = []"
    by (rule demo_services.Refresh_clean [of w demo_cookie_ctx demo_auth "''abc''" next_draws "replicate 43 CHR ''A''" "''s1''" "login_record demo_account ''j1'' ''abc''" 61000 next_token])
      (use w t next_issue in \<open>simp_all add: is_ascii_valid_utf8\<close>)
  have new: "digest_session 1000 (server (w_redis w)) (HashTokenHex (replicate 43 CHR ''A'')) = None"
  proof (rule ccontr)
    assume "\<not> ?thesis"
    then obtain sid r e where "sessions 1000 (server (w_redis w)) sid = Some (r, e)" "ar_RefreshDigest r = HashTokenHex (replicate 43 CHR ''A'')"
      using digest_session_iff [OF w(4)] by blast
    then show False unfolding t HashTokenHex_zero_token using HashTokenHex_abc by (auto split: if_splits)
  qed
  have hyps: "session_inv (clock (w_redis w)) (server (w_redis w))" "\<forall>sid \<in> dom (sessions (clock (w_redis w)) (server (w_redis w))). valid_utf8 sid"
    "\<forall>rt. Random (dr_random next_draws) = Some rt \<longrightarrow> digest_session (clock (w_redis w)) (server (w_redis w)) (HashTokenHex rt) = None"
    using w t new by (simp_all add: is_ascii_valid_utf8)
  have m: "dr_accessJTI next_draws \<noteq> []" "valid_utf8 (dr_accessJTI next_draws)" "valid_utf8 (issuer (tokens demo_auth))" "valid_utf8 (audience (tokens demo_auth))"
    "Random (dr_random next_draws) \<noteq> None" by (simp_all add: is_ascii_valid_utf8)
  obtain raw sid r e where k: "rq_Cookie (Request demo_cookie_ctx) (refreshCookieName demo_auth) = Some raw"
    and a: "sessions (clock (w_redis w)) (server (w_redis w)) sid = Some (r, e)"
    and z: "\<forall>dr2 c2. rq_Cookie (Request c2) (refreshCookieName demo_auth) = Some raw \<longrightarrow> Random (dr_random dr2) \<noteq> None \<longrightarrow> dr_accessJTI dr2 \<noteq> [] \<longrightarrow>
      Status (fst (Refresh demo_deps demo_auth dr2 c2 w')) = 401 \<and> server (w_redis (snd (Refresh demo_deps demo_auth dr2 c2 w'))) = server (w_redis w')"
    and p: "\<forall>now header. Fields header = [''Bearer'', t_AccessToken tk] \<longrightarrow> dr_now_issue next_draws \<le> now \<longrightarrow>
      now < NewNumericDate (dr_now_issue next_draws + m_ttl (tokens demo_auth)) \<longrightarrow> clock (w_redis w') \<le> e \<longrightarrow>
      passes demo_deps demo_auth now {s_Role (ar_AuthSession r)} header w' (Principal (ar_AuthSession r) sid)"
    and q: "\<forall>now header tok i roles p. Fields header = [''Bearer'', tok] \<longrightarrow> Manager_Parse (x_jwt demo_deps) (tokens demo_auth) now tok = Inr i \<longrightarrow>
      ai_SessionID i = sid \<longrightarrow> ai_AccessJTI i \<noteq> dr_accessJTI next_draws \<longrightarrow> \<not> passes demo_deps demo_auth now roles header w' p"
    using refresh_replaces_tokens [OF demo_services.services_axioms hyps(1,2) m(1,2) hyps(3) m(3,4) run refl order_refl tok(2)]
    by (elim exE conjE) (rule that)
  have r: "sid = ''s1''" "r = login_record demo_account ''j1'' ''abc''" using a w t by (auto split: if_splits)
  have "clock (w_redis w') = 1000"
    by (rule demo_services.Refresh_table [of w next_draws demo_auth demo_cookie_ctx, OF _ _ _ _ run(1,2)])
      (use w new in \<open>simp_all add: is_ascii_valid_utf8\<close>)
  then have e: "clock (w_redis w') \<le> e" using a w t r by simp
  have "passes demo_deps demo_auth (2 * second) {''user''} (''Bearer '' @ next_token) w' (user_principal demo_account ''s1'')"
    using p [rule_format, of "''Bearer '' @ next_token" "2 * second"] next_bearer r tok(1) e by (simp add: NewNumericDate_def)
  moreover have "\<not> passes demo_deps demo_auth (2 * second) {''user''} (''Bearer '' @ demo_token) w' (user_principal demo_account ''s1'')"
    by (rule q [rule_format, OF demo_bearer, of _ "\<lparr>ai_UserID = ''u1'', ai_SessionID = ''s1'', ai_AccessJTI = ''j1''\<rparr>"])
      (use demo_parse r in simp_all)
  moreover have "Status (fst (Refresh demo_deps demo_auth next_draws demo_cookie_ctx w')) = 401" using z k m(1,5) by blast
  ultimately show ?thesis using run by blast
qed

theorem logout_ends_session_witness:
  "\<exists>w c' w'. sessions 1000 (server (w_redis w)) ''s1'' \<noteq> None \<and> Logout demo_deps demo_auth demo_cookie_ctx w = (c', w')
     \<and> sessions (clock (w_redis w')) (server (w_redis w')) ''s1'' = None"
proof -
  obtain w :: "(keyspace, user list) world" where w: "w_db w = demo_db [demo_account]" "clock (w_redis w) = 1000" "faults (w_redis w) = []" "session_inv 1000 (server (w_redis w))"
    and t: "sessions 1000 (server (w_redis w)) = [''s1'' \<mapsto> (login_record demo_account ''j1'' ''abc'', 61000)]"
    by (rule demo_logged_in)
  obtain r where r: "SessionStore_DeleteByRefreshDigest (ks_redis ks_cjson) (w_redis w) (HashTokenHex ''abc'') = (Inr (), r)"
    using reference_server.DeleteByRefreshDigest_succeeds [of "w_redis w" "HashTokenHex ''abc''"] w by auto
  then have run: "Logout demo_deps demo_auth demo_cookie_ctx w =
      (ctx_JSON 200 (OKWithMessage ''logged out'') (clearRefreshCookie demo_auth demo_cookie_ctx), w\<lparr>w_redis := r\<rparr>)"
    by (simp add: Logout_def)
  have f: "faults r = []" using r w(3) by (auto simp: SessionStore_DeleteByRefreshDigest_def SessionStore_Delete_def
        split: prod.splits sum.splits option.splits if_splits dest!: call_faults)
  have "sessions (clock r) (server r) ''s1'' = None"
    using logout_ends_session [OF demo_services.services_axioms _ run _ _ refl refl, of "''abc''", THEN conjunct1, rule_format, of "''s1''"] w t f by simp
  then show ?thesis using run t by (intro exI [of _ w] exI conjI) auto
qed

end
