(* ===== verification/UserService.thy ===== *)
theory UserService
  imports AuthService
begin

text \<open>
  \<open>internal/service/user.go\<close>: the handlers of the user management routes. As for the
  authentication handlers, the outcome of binding, fresh UUIDs, bcrypt salts and readings of
  the clock are arguments. \<open>rq_ID\<close> is the path parameter \<open>id\<close>.
\<close>

abbreviation not_found :: "ctx \<Rightarrow> ctx" where
  "not_found c \<equiv> AbortWithStatusJSON 404 (FailWithCode ''resource not found'' ''NOT_FOUND'') c"

abbreviation conflict :: "ctx \<Rightarrow> ctx" where
  "conflict c \<equiv> AbortWithStatusJSON 409 (FailWithCode ''resource already exists'' ''CONFLICT'') c"

section \<open>Helpers\<close>

text \<open>A helper that may answer the request itself returns that answer as \<open>Inl\<close>.\<close>

definition userIDParam :: "ctx \<Rightarrow> ctx + string" where
  "userIDParam c =
     (let userID = TrimSpace (rq_ID (Request c)) in
      if userID = [] then Inl (bad_request c) else Inr userID)"

definition rejectSelfTarget :: "ctx \<Rightarrow> string \<Rightarrow> ctx option" where
  "rejectSelfTarget c userID =
     (case CurrentPrincipal c of
        None \<Rightarrow> Some (unauthorized c)
      | Some p \<Rightarrow> if p_ID p = userID then Some (bad_request c) else None)"

definition invalidateSessions ::
    "('r, 'd) deps \<Rightarrow> ctx \<Rightarrow> ('r, 'd) world \<Rightarrow> string \<Rightarrow> ctx option \<times> ('r, 'd) world" where
  "invalidateSessions X c w userID =
     (case InvalidateUserSessions X w userID of
        (Inl _, w') \<Rightarrow> (Some (unavailable c), w')
      | (Inr _, w') \<Rightarrow> (None, w'))"

definition withOnline ::
    "('r, 'd) deps \<Rightarrow> instant \<Rightarrow> ctx \<Rightarrow> ('r, 'd) world \<Rightarrow> user_dto list \<Rightarrow> (ctx + user_dto list) \<times> ('r, 'd) world" where
  "withOnline X now c w items =
     (if items = [] then (Inr items, w)
      else
        (case UsersOnline X w now (map d_ID items) of
           (Inl _, w') \<Rightarrow> (Inl (unavailable c), w')
         | (Inr online, w') \<Rightarrow>
             (Inr (map (\<lambda>i. i\<lparr>d_Online := (case online (d_ID i) of Some b \<Rightarrow> b | None \<Rightarrow> False)\<rparr>) items), w')))"

section \<open>Reading\<close>

definition List ::
    "('r, 'd) deps \<Rightarrow> user_list_query bind \<Rightarrow> instant \<Rightarrow> ctx \<Rightarrow> ('r, 'd) world \<Rightarrow> ctx \<times> ('r, 'd) world" where
  "List X query now c w =
     (case query of
        BindOk params \<Rightarrow>
          if q_Role params \<noteq> [] \<and> \<not> Valid (q_Role params) then (bad_request c, w)
          else
            (case ListUsers (x_unicode X) (x_db X) (w_db w) (go_int (go_int (q_Page params - 1) * q_PageSize params))
                    (q_PageSize params) (TrimSpace (q_Email params)) (q_Role params) (q_Active params) of
               (Inl _, d) \<Rightarrow> (internal_error c, w\<lparr>w_db := d\<rparr>)
             | (Inr (users, cnt), d) \<Rightarrow>
                 (case withOnline X now c (w\<lparr>w_db := d\<rparr>) (ToUsers users) of
                    (Inl c', w') \<Rightarrow> (c', w')
                  | (Inr items, w') \<Rightarrow>
                      (ctx_JSON 200 (OKWithPageData items cnt (q_Page params) (q_PageSize params)) c, w')))
      | _ \<Rightarrow> (bad_request c, w))"

definition Get :: "('r, 'd) deps \<Rightarrow> instant \<Rightarrow> ctx \<Rightarrow> ('r, 'd) world \<Rightarrow> ctx \<times> ('r, 'd) world" where
  "Get X now c w =
     (case userIDParam c of
        Inl c' \<Rightarrow> (c', w)
      | Inr userID \<Rightarrow>
          (case FindUserByID (x_db X) (w_db w) userID of
             (Inl ErrNotFound, d) \<Rightarrow> (not_found c, w\<lparr>w_db := d\<rparr>)
           | (Inl _, d) \<Rightarrow> (internal_error c, w\<lparr>w_db := d\<rparr>)
           | (Inr u, d) \<Rightarrow>
               (case withOnline X now c (w\<lparr>w_db := d\<rparr>) [ToUser u] of
                  (Inl c', w') \<Rightarrow> (c', w')
                | (Inr item, w') \<Rightarrow> (ctx_JSON 200 (OKWithData (User_data (item ! 0))) c, w'))))"

section \<open>Creating\<close>

definition Create ::
    "('r, 'd) deps \<Rightarrow> create_user_command bind \<Rightarrow> string \<Rightarrow> string \<Rightarrow> instant \<Rightarrow> ctx \<Rightarrow> ('r, 'd) world \<Rightarrow> ctx \<times> ('r, 'd) world" where
  "Create X body salt uuid now c w =
     (case body of
        BindTooLarge \<Rightarrow> (too_large c, w)
      | BindErr \<Rightarrow> (bad_request c, w)
      | BindOk command \<Rightarrow>
          if \<not> Valid (cu_Role command) then (bad_request c, w)
          else
            (let email = ToLower (x_unicode X) (TrimSpace (cu_Email command)); remark = TrimSpace (cu_Remark command) in
             if email = [] \<or> remark = [] \<or> length (cu_Password command) < 8 \<or> length (cu_Password command) > 72
             then (bad_request c, w)
             else
               (case HashPassword (x_bcrypt X) salt (cu_Password command) of
                  None \<Rightarrow> (internal_error c, w)
                | Some passwordHash \<Rightarrow>
                    (let active = (case cu_Active command of None \<Rightarrow> True | Some b \<Rightarrow> b) in
                     case CreateUser (x_db X) (w_db w) \<lparr>ID = uuid, Email = email, Remark = remark, PasswordHash = passwordHash,
                            Active = active, Role = cu_Role command, CreatedAt = now, UpdatedAt = now\<rparr> of
                       (Inl ErrConflict, d) \<Rightarrow> (conflict c, w\<lparr>w_db := d\<rparr>)
                     | (Inl _, d) \<Rightarrow> (internal_error c, w\<lparr>w_db := d\<rparr>)
                     | (Inr u, d) \<Rightarrow> (ctx_JSON 201 (OKWithData (User_data (ToUser u))) c, w\<lparr>w_db := d\<rparr>)))))"

section \<open>Changing\<close>

text \<open>The fields an update command sets, in the order the handler checks them; the role comes after.\<close>

definition update_fields ::
    "('r, 'd) deps \<Rightarrow> string \<Rightarrow> update_user_command \<Rightarrow> ctx \<Rightarrow> user \<Rightarrow> ctx + user" where
  "update_fields X salt command c u =
     rbind (case uu_Email command of
              None \<Rightarrow> Inr u
            | Some e \<Rightarrow> (let email = ToLower (x_unicode X) (TrimSpace e) in
                if email = [] then Inl (bad_request c) else Inr (u\<lparr>Email := email\<rparr>))) (\<lambda>u.
     rbind (case uu_Remark command of
              None \<Rightarrow> Inr u
            | Some r \<Rightarrow> (let remark = TrimSpace r in
                if remark = [] then Inl (bad_request c) else Inr (u\<lparr>Remark := remark\<rparr>))) (\<lambda>u.
     (case uu_Password command of
        None \<Rightarrow> Inr u
      | Some p \<Rightarrow>
          if length p < 8 \<or> length p > 72 then Inl (bad_request c)
          else (case HashPassword (x_bcrypt X) salt p of
                  None \<Rightarrow> Inl (internal_error c)
                | Some h \<Rightarrow> Inr (u\<lparr>PasswordHash := h\<rparr>)))))"

definition update_role :: "update_user_command \<Rightarrow> ctx \<Rightarrow> string \<Rightarrow> user \<Rightarrow> ctx + user" where
  "update_role command c userID u =
     (case uu_Role command of
        None \<Rightarrow> Inr u
      | Some r \<Rightarrow>
          if r \<noteq> Role u
          then (case rejectSelfTarget c userID of Some c' \<Rightarrow> Inl c' | None \<Rightarrow> Inr (u\<lparr>Role := r\<rparr>))
          else Inr u)"

definition Update ::
    "('r, 'd) deps \<Rightarrow> update_user_command bind \<Rightarrow> string \<Rightarrow> instant \<Rightarrow> ctx \<Rightarrow> ('r, 'd) world \<Rightarrow> ctx \<times> ('r, 'd) world" where
  "Update X body salt now c w =
     (case userIDParam c of
        Inl c' \<Rightarrow> (c', w)
      | Inr userID \<Rightarrow>
          (case body of
             BindTooLarge \<Rightarrow> (too_large c, w)
           | BindErr \<Rightarrow> (bad_request c, w)
           | BindOk command \<Rightarrow>
               if UpdateUserCommand_Empty command \<or> (case uu_Role command of None \<Rightarrow> False | Some r \<Rightarrow> \<not> Valid r)
               then (bad_request c, w)
               else
                 (case FindUserByID (x_db X) (w_db w) userID of
                    (Inl ErrNotFound, d) \<Rightarrow> (not_found c, w\<lparr>w_db := d\<rparr>)
                  | (Inl _, d) \<Rightarrow> (internal_error c, w\<lparr>w_db := d\<rparr>)
                  | (Inr u, d) \<Rightarrow>
                      (let w = w\<lparr>w_db := d\<rparr> in
                       case rbind (update_fields X salt command c u) (update_role command c userID) of
                         Inl c' \<Rightarrow> (c', w)
                       | Inr u \<Rightarrow>
                           (case invalidateSessions X c w userID of
                              (Some c', w') \<Rightarrow> (c', w')
                            | (None, w') \<Rightarrow>
                                (case UpdateUser (x_db X) (w_db w') (u\<lparr>UpdatedAt := now\<rparr>) of
                                   (Inl ErrNotFound, d) \<Rightarrow> (not_found c, w'\<lparr>w_db := d\<rparr>)
                                 | (Inl ErrConflict, d) \<Rightarrow> (conflict c, w'\<lparr>w_db := d\<rparr>)
                                 | (Inl _, d) \<Rightarrow> (internal_error c, w'\<lparr>w_db := d\<rparr>)
                                 | (Inr u, d) \<Rightarrow> (ctx_JSON 200 (OKWithData (User_data (ToUser u))) c, w'\<lparr>w_db := d\<rparr>)))))))"

definition Delete :: "('r, 'd) deps \<Rightarrow> ctx \<Rightarrow> ('r, 'd) world \<Rightarrow> ctx \<times> ('r, 'd) world" where
  "Delete X c w =
     (case userIDParam c of
        Inl c' \<Rightarrow> (c', w)
      | Inr userID \<Rightarrow>
          (case FindUserByID (x_db X) (w_db w) userID of
             (Inl ErrNotFound, d) \<Rightarrow> (not_found c, w\<lparr>w_db := d\<rparr>)
           | (Inl _, d) \<Rightarrow> (internal_error c, w\<lparr>w_db := d\<rparr>)
           | (Inr _, d) \<Rightarrow>
               (let w = w\<lparr>w_db := d\<rparr> in
                case rejectSelfTarget c userID of
                  Some c' \<Rightarrow> (c', w)
                | None \<Rightarrow>
                    (case invalidateSessions X c w userID of
                       (Some c', w') \<Rightarrow> (c', w')
                     | (None, w') \<Rightarrow>
                         (case DeleteUser (x_db X) (w_db w') userID of
                            (Inl ErrNotFound, d) \<Rightarrow> (not_found c, w'\<lparr>w_db := d\<rparr>)
                          | (Inl _, d) \<Rightarrow> (internal_error c, w'\<lparr>w_db := d\<rparr>)
                          | (Inr _, d) \<Rightarrow> (ctx_JSON 200 (OKWithMessage ''user deleted'') c, w'\<lparr>w_db := d\<rparr>))))))"

definition SetActive_handler ::
    "('r, 'd) deps \<Rightarrow> set_user_active_command bind \<Rightarrow> ctx \<Rightarrow> ('r, 'd) world \<Rightarrow> ctx \<times> ('r, 'd) world" where
  "SetActive_handler X body c w =
     (case userIDParam c of
        Inl c' \<Rightarrow> (c', w)
      | Inr userID \<Rightarrow>
          (case body of
             BindTooLarge \<Rightarrow> (too_large c, w)
           | BindErr \<Rightarrow> (bad_request c, w)
           | BindOk command \<Rightarrow>
               (case sa_Active command of
                  None \<Rightarrow> (bad_request c, w)
                | Some active \<Rightarrow>
                    (case FindUserByID (x_db X) (w_db w) userID of
                       (Inl ErrNotFound, d) \<Rightarrow> (not_found c, w\<lparr>w_db := d\<rparr>)
                     | (Inl _, d) \<Rightarrow> (internal_error c, w\<lparr>w_db := d\<rparr>)
                     | (Inr _, d) \<Rightarrow>
                         (let w = w\<lparr>w_db := d\<rparr> in
                          case rejectSelfTarget c userID of
                            Some c' \<Rightarrow> (c', w)
                          | None \<Rightarrow>
                              (case invalidateSessions X c w userID of
                                 (Some c', w') \<Rightarrow> (c', w')
                               | (None, w') \<Rightarrow>
                                   (case SetUserActive (x_db X) (w_db w') userID active of
                                      (Inl ErrNotFound, d) \<Rightarrow> (not_found c, w'\<lparr>w_db := d\<rparr>)
                                    | (Inl _, d) \<Rightarrow> (internal_error c, w'\<lparr>w_db := d\<rparr>)
                                    | (Inr u, d) \<Rightarrow> (ctx_JSON 200 (OKWithData (User_data (ToUser u))) c, w'\<lparr>w_db := d\<rparr>))))))))"

definition Kick :: "('r, 'd) deps \<Rightarrow> ctx \<Rightarrow> ('r, 'd) world \<Rightarrow> ctx \<times> ('r, 'd) world" where
  "Kick X c w =
     (case userIDParam c of
        Inl c' \<Rightarrow> (c', w)
      | Inr userID \<Rightarrow>
          (case FindUserByID (x_db X) (w_db w) userID of
             (Inl ErrNotFound, d) \<Rightarrow> (not_found c, w\<lparr>w_db := d\<rparr>)
           | (Inl _, d) \<Rightarrow> (internal_error c, w\<lparr>w_db := d\<rparr>)
           | (Inr _, d) \<Rightarrow>
               (case invalidateSessions X c (w\<lparr>w_db := d\<rparr>) userID of
                  (Some c', w') \<Rightarrow> (c', w')
                | (None, w') \<Rightarrow> (ctx_JSON 200 (OKWithMessage ''user sessions invalidated'') c, w'))))"

end
