(* ===== verification/UserProps.thy ===== *)
theory UserProps
  imports UserService AuthProps
begin

text \<open>
  What the user management handlers promise: an administrator cannot delete, disable or
  demote the own account (by its canonical id), changes revoke the sessions of the account,
  and a created account can log in.
\<close>

section \<open>Revoking sessions\<close>

lemma invalidate_None:
  assumes "invalidateSessions X c w uid = (None, w')"
  shows "SessionStore_DeleteUserSessions (x_redis X) (w_redis w) uid = (Inr (), w_redis w')" "w_db w' = w_db w"
  using assms by (auto simp: invalidateSessions_def InvalidateUserSessions_def split: prod.splits sum.splits)

lemma invalidate_db: "invalidateSessions X c w uid = (x, w') \<Longrightarrow> w_db w' = w_db w"
  by (auto simp: invalidateSessions_def InvalidateUserSessions_def split: prod.splits sum.splits)

lemma invalidate_Some: "invalidateSessions X c w uid = (Some c', w') \<Longrightarrow> Status c' = 503"
  by (auto simp: invalidateSessions_def InvalidateUserSessions_def split: prod.splits sum.splits)

text \<open>An id that is spelled as the database spells it, or is none.\<close>

definition canonical :: "(string \<Rightarrow> string option) \<Rightarrow> string \<Rightarrow> bool" where
  "canonical uuid_in s \<longleftrightarrow> (\<forall>i. uuid_in s = Some i \<longrightarrow> s \<noteq> [] \<longrightarrow> i = s)"

text \<open>The table after a revocation: the user's sessions that had time left are gone, all others are there.\<close>

definition revoked :: "int \<Rightarrow> string \<Rightarrow> (string \<rightharpoonup> authSessionRecord \<times> int) \<Rightarrow> (string \<rightharpoonup> authSessionRecord \<times> int) \<Rightarrow> bool" where
  "revoked t uid tb tb' \<longleftrightarrow>
     (\<forall>sid r e. tb' sid = Some (r, e) \<longrightarrow> tb sid = Some (r, e) \<and> (owner r = uid \<longrightarrow> e = t))
     \<and> (\<forall>sid r e. tb sid = Some (r, e) \<longrightarrow> owner r \<noteq> uid \<longrightarrow> tb' sid = Some (r, e))"

context services
begin

lemma revokes:
  assumes inv: "view_inv ks c" and run: "SessionStore_DeleteUserSessions (x_redis X) c uid = (Inr (), c')" "uid \<noteq> []"
  shows "clock c' = clock c" "view_inv ks c'" "revoked (clock c) uid (table ks c) (table ks c')"
proof -
  have w: "clock c' = clock c" and rm: "removed (indexed (clock c) (ks (server c)) uid) (clock c) (ks (server c)) (ks (server c'))"
    using writes_success [OF DeleteUserSessions_writes [OF inv run]] by simp_all
  show "clock c' = clock c" by (rule w)
  show "view_inv ks c'" unfolding w by (rule inv_removed [OF inv rm])
  have keep: "table ks c' sid = (if sid \<in> indexed (clock c) (ks (server c)) uid then None else table ks c sid)" for sid
    unfolding w by (rule sessions_removed [OF rm])
  have "e = clock c" if "table ks c sid = Some (r, e)" "sid \<notin> indexed (clock c) (ks (server c)) uid" "owner r = uid" for sid r e
  proof -
    have "clock c \<le> e" using that(1) inv_sessions_iff [OF inv] by (auto simp: holds_def live_def split: option.splits if_splits)
    then show ?thesis using indexed_live [OF inv that(1,3)] that(2) by force
  qed
  moreover have "owner r = uid" if "table ks c sid = Some (r, e)" "sid \<in> indexed (clock c) (ks (server c)) uid" for sid r e
    by (rule indexed_owner [OF inv that(2,1)])
  ultimately show "revoked (clock c) uid (table ks c) (table ks c')" unfolding revoked_def keep by (auto split: if_splits)
qed

lemma revoked_blocked:
  assumes inv: "view_inv ks (w_redis w')" and rv: "revoked t uid tb (table ks (w_redis w'))" and t: "t < clock (w_redis w2)"
    and w2: "server (w_redis w2) = server (w_redis w')" "clock (w_redis w') \<le> clock (w_redis w2)" "faults (w_redis w2) = []"
    and h: "Fields header = [''Bearer'', tok]" "passes X s now roles header w2 p"
  shows "p_ID p \<noteq> uid"
proof
  assume p: "p_ID p = uid"
  have inv2: "view_inv ks (w_redis w2)" using session_inv_later [OF inv w2(2)] w2(1) by simp
  obtain sid r e where r: "table ks (w_redis w2) sid = Some (r, e)" "owner r = uid"
    using h(2) p unfolding passes_table [OF inv2 w2(3) h(1)] by (auto simp: Principal_def)
  then have h2: "holds (clock (w_redis w2)) (ks (server (w_redis w'))) sid r e" using inv_sessions_iff [OF inv2] w2(1) by simp
  then have "table ks (w_redis w') sid = Some (r, e)" using holds_sessions [OF holds_earlier [OF h2 w2(2)]] by simp
  then have "e = t" using rv r(2) unfolding revoked_def by blast
  moreover have "clock (w_redis w2) \<le> e" using h2 by (auto simp: holds_def live_def split: option.splits if_splits)
  ultimately show False using t by simp
qed

end

section \<open>Kick\<close>

lemma Kick_200:
  assumes "Kick X c w = (c', w')" "Status c' = 200"
  obtains u d where "FindUserByID (x_db X) (w_db w) (TrimSpace (rq_ID (Request c))) = (Inr u, d)" "TrimSpace (rq_ID (Request c)) \<noteq> []"
    "SessionStore_DeleteUserSessions (x_redis X) (w_redis w) (TrimSpace (rq_ID (Request c))) = (Inr (), w_redis w')" "w_db w' = d"
proof -
  obtain u d where f: "FindUserByID (x_db X) (w_db w) (TrimSpace (rq_ID (Request c))) = (Inr u, d)" "TrimSpace (rq_ID (Request c)) \<noteq> []"
    and i: "invalidateSessions X c (w\<lparr>w_db := d\<rparr>) (TrimSpace (rq_ID (Request c))) = (None, w')"
    using assms by (auto simp: Kick_def userIDParam_def Let_def split: if_splits prod.splits sum.splits data_error.splits option.splits dest: invalidate_Some)
  from invalidate_None [OF i] show ?thesis by (intro that [OF f]) simp_all
qed

text \<open>
  C13 (safety). Kicking an account ends its sessions. After status 200 for an id spelled as the database spells it,
  the account with that id exists, each of its sessions that had time left is gone and every other
  session is untouched, the users table is as before, and from the next millisecond on no token
  whatsoever passes the authorisation middleware as that account (until somebody logs in
  again). For another spelling of the id this fails: see \<open>kick_by_alias\<close>.
\<close>

theorem kick_revokes:
  assumes V: "services X ks rows uuid_in tm" and inv: "session_inv (clock (w_redis w)) (ks (server (w_redis w)))"
    and run: "Kick X c w = (c', w')" "Status c' = 200"
    and uid: "uid = TrimSpace (rq_ID (Request c))" "canonical uuid_in uid"
  shows "\<exists>u \<in> set (rows (d_state (w_db w))). ID u = uid
    \<and> revoked (clock (w_redis w)) (ID u) (sessions (clock (w_redis w)) (ks (server (w_redis w)))) (sessions (clock (w_redis w')) (ks (server (w_redis w'))))
    \<and> rows (d_state (w_db w')) = rows (d_state (w_db w))
    \<and> (\<forall>w2 s now roles header tok p. server (w_redis w2) = server (w_redis w') \<longrightarrow> clock (w_redis w) < clock (w_redis w2) \<longrightarrow> faults (w_redis w2) = [] \<longrightarrow>
         Fields header = [''Bearer'', tok] \<longrightarrow> passes X s now roles header w2 p \<longrightarrow> p_ID p \<noteq> ID u)"
proof -
  have D: "user_db (x_db X) rows uuid_in tm" using V by (simp add: services_def)
  obtain u d where k: "FindUserByID (x_db X) (w_db w) uid = (Inr u, d)" "uid \<noteq> []"
    "SessionStore_DeleteUserSessions (x_redis X) (w_redis w) uid = (Inr (), w_redis w')" "w_db w' = d"
    using Kick_200 [OF run] uid(1) by metis
  note u = user_db.FindUserByID_Inr [OF D k(1)]
  have i: "ID u = uid" using u uid(2) k(2) by (simp add: canonical_def)
  note r = services.revokes [OF V inv k(3,2)]
  have "p_ID p \<noteq> uid" if "server (w_redis w2) = server (w_redis w')" "clock (w_redis w) < clock (w_redis w2)" "faults (w_redis w2) = []"
    "Fields header = [''Bearer'', tok]" "passes X s now roles header w2 p" for w2 s now roles header tok p
    by (rule services.revoked_blocked [OF V r(2,3) that(2,1) _ that(3-5)]) (use that r(1) in simp)
  then show ?thesis using r(3) u k(4) i by (intro bexI [of _ u]) auto
qed

section \<open>Deleting, disabling, changing\<close>

lemma Delete_200:
  assumes "Delete X c w = (c', w')" "Status c' = 200" "uid = TrimSpace (rq_ID (Request c))"
  obtains u d p where "FindUserByID (x_db X) (w_db w) uid = (Inr u, d)" "uid \<noteq> []" "principal_key c = Some p" "p_ID p \<noteq> uid"
    "SessionStore_DeleteUserSessions (x_redis X) (w_redis w) uid = (Inr (), w_redis w')" "DeleteUser (x_db X) d uid = (Inr (), w_db w')"
proof -
  obtain u d p w1 where f: "FindUserByID (x_db X) (w_db w) uid = (Inr u, d)" "uid \<noteq> []" "principal_key c = Some p" "p_ID p \<noteq> uid"
    and i: "invalidateSessions X c (w\<lparr>w_db := d\<rparr>) uid = (None, w1)" and dl: "DeleteUser (x_db X) (w_db w1) uid = (Inr (), w_db w')"
    and w': "w_redis w' = w_redis w1"
    using assms
    by (auto simp: Delete_def userIDParam_def rejectSelfTarget_def CurrentPrincipal_def Let_def
        split: if_splits prod.splits sum.splits data_error.splits option.splits dest: invalidate_Some)
  from invalidate_None [OF i] dl w' show ?thesis by (intro that [OF f]) simp_all
qed

lemma SetActive_200:
  assumes "SetActive_handler X body c w = (c', w')" "Status c' = 200" "uid = TrimSpace (rq_ID (Request c))"
  obtains u d p a v where "FindUserByID (x_db X) (w_db w) uid = (Inr u, d)" "uid \<noteq> []" "principal_key c = Some p" "p_ID p \<noteq> uid"
    "body = BindOk \<lparr>sa_Active = Some a\<rparr>" "SessionStore_DeleteUserSessions (x_redis X) (w_redis w) uid = (Inr (), w_redis w')"
    "SetUserActive (x_db X) d uid a = (Inr v, w_db w')" "Body c' = Some (OKWithData (User_data (ToUser v)))"
proof -
  obtain u d p a v w1 cmd where f: "FindUserByID (x_db X) (w_db w) uid = (Inr u, d)" "uid \<noteq> []" "principal_key c = Some p" "p_ID p \<noteq> uid"
    and b: "body = BindOk cmd" "sa_Active cmd = Some a"
    and i: "invalidateSessions X c (w\<lparr>w_db := d\<rparr>) uid = (None, w1)" and st: "SetUserActive (x_db X) (w_db w1) uid a = (Inr v, w_db w')"
      "Body c' = Some (OKWithData (User_data (ToUser v)))" "w_redis w' = w_redis w1"
    using assms
    by (auto simp: SetActive_handler_def userIDParam_def rejectSelfTarget_def CurrentPrincipal_def Let_def
        split: if_splits prod.splits sum.splits data_error.splits option.splits bind.splits dest: invalidate_Some)
  have "body = BindOk \<lparr>sa_Active = Some a\<rparr>" using b by (cases cmd) simp
  with invalidate_None [OF i] st show ?thesis by (intro that [OF f]) simp_all
qed

lemma update_fields_refused:
  assumes "update_fields X salt cmd c u = Inl c'" shows "Status c' \<in> {400, 401, 500}"
  using assms unfolding update_fields_def
  by (rule rbind_Inl, goal_cases) (auto simp: Let_def split: option.splits if_splits elim!: rbind_Inl)

lemma update_refused:
  assumes "rbind (update_fields X salt cmd c u) (update_role cmd c uid) = Inl c'"
  shows "Status c' \<in> {400, 401, 500}"
  using assms
  by (rule rbind_Inl)
    (auto simp: update_role_def rejectSelfTarget_def split: option.splits if_splits dest: update_fields_refused)

lemma Update_200:
  assumes "Update X body salt now c w = (c', w')" "Status c' = 200" "uid = TrimSpace (rq_ID (Request c))"
  obtains u d cmd u1 u2 v where "FindUserByID (x_db X) (w_db w) uid = (Inr u, d)" "uid \<noteq> []" "body = BindOk cmd"
    "update_fields X salt cmd c u = Inr u1" "update_role cmd c uid u1 = Inr u2"
    "SessionStore_DeleteUserSessions (x_redis X) (w_redis w) uid = (Inr (), w_redis w')"
    "UpdateUser (x_db X) d (u2\<lparr>UpdatedAt := now\<rparr>) = (Inr v, w_db w')" "Body c' = Some (OKWithData (User_data (ToUser v)))"
proof -
  obtain u d cmd w1 u2 v where f: "FindUserByID (x_db X) (w_db w) uid = (Inr u, d)" "uid \<noteq> []" "body = BindOk cmd"
    and r: "rbind (update_fields X salt cmd c u) (update_role cmd c uid) = Inr u2"
    and i: "invalidateSessions X c (w\<lparr>w_db := d\<rparr>) uid = (None, w1)"
    and st: "UpdateUser (x_db X) (w_db w1) (u2\<lparr>UpdatedAt := now\<rparr>) = (Inr v, w_db w')"
      "Body c' = Some (OKWithData (User_data (ToUser v)))" "w_redis w' = w_redis w1"
    using assms
    by (auto simp: Update_def userIDParam_def Let_def
        split: if_splits prod.splits sum.splits data_error.splits option.splits bind.splits dest: invalidate_Some update_refused)
  from r obtain u1 where "update_fields X salt cmd c u = Inr u1" "update_role cmd c uid u1 = Inr u2" by (auto simp: rbind_Inr_iff)
  with invalidate_None [OF i] st show ?thesis by (intro that [OF f]) simp_all
qed

lemma update_fields_Inr:
  assumes B: "bcrypt_library (x_bcrypt X)" and run: "update_fields X salt cmd c u = Inr v"
  shows "ID v = ID u \<and> Active v = Active u \<and> CreatedAt v = CreatedAt u \<and> Role v = Role u
      \<and> Email v = (case uu_Email cmd of None \<Rightarrow> Email u | Some e \<Rightarrow> normalizeEmail (x_unicode X) e)
      \<and> Remark v = (case uu_Remark cmd of None \<Rightarrow> Remark u | Some r \<Rightarrow> TrimSpace r)
      \<and> (case uu_Password cmd of None \<Rightarrow> PasswordHash v = PasswordHash u | Some p \<Rightarrow> 8 \<le> length p \<and> length p \<le> 72 \<and> Compare (x_bcrypt X) (PasswordHash v) p)"
proof -
  let ?e = "case uu_Email cmd of None \<Rightarrow> Email u | Some e \<Rightarrow> normalizeEmail (x_unicode X) e"
  let ?r = "case uu_Remark cmd of None \<Rightarrow> Remark u | Some r \<Rightarrow> TrimSpace r"
  have "\<exists>h. v = u\<lparr>Email := ?e, Remark := ?r, PasswordHash := h\<rparr> \<and>
      (case uu_Password cmd of None \<Rightarrow> h = PasswordHash u
       | Some p \<Rightarrow> 8 \<le> length p \<and> length p \<le> 72 \<and> HashPassword (x_bcrypt X) salt p = Some h)"
    using run
    by (cases "uu_Email cmd"; cases "uu_Remark cmd"; cases "uu_Password cmd")
      (auto simp: update_fields_def normalizeEmail_def Let_def split: if_splits option.splits)
  then show ?thesis
    using bcrypt_library.compare_generated [OF B] by (auto simp: HashPassword_def Compare_def split: option.splits)
qed

text \<open>
  C15 (safety). Deleting an account: after status 200 for an id spelled as the database spells it, the account with that id
  existed and is not the one the administrator is logged in as, its row is gone and every other row is as it was, and
  each of its sessions that had time left is gone and every other session is untouched. For another spelling of the
  id this fails: see \<open>self_delete_by_alias\<close>.
\<close>

theorem delete_account:
  assumes V: "services X ks rows uuid_in tm" and inv: "session_inv (clock (w_redis w)) (ks (server (w_redis w)))"
    and run: "Delete X c w = (c', w')" "Status c' = 200"
    and uid: "uid = TrimSpace (rq_ID (Request c))" "canonical uuid_in uid"
  shows "\<exists>u \<in> set (rows (d_state (w_db w))). ID u = uid \<and> (\<exists>p. principal_key c = Some p \<and> p_ID p \<noteq> ID u)
    \<and> rows (d_state (w_db w')) = filter (\<lambda>v. ID v \<noteq> ID u) (rows (d_state (w_db w)))
    \<and> revoked (clock (w_redis w)) (ID u) (sessions (clock (w_redis w)) (ks (server (w_redis w)))) (sessions (clock (w_redis w')) (ks (server (w_redis w'))))"
proof -
  have D: "user_db (x_db X) rows uuid_in tm" using V by (simp add: services_def)
  obtain u d p where f: "FindUserByID (x_db X) (w_db w) uid = (Inr u, d)" "uid \<noteq> []" "principal_key c = Some p" "p_ID p \<noteq> uid"
    "SessionStore_DeleteUserSessions (x_redis X) (w_redis w) uid = (Inr (), w_redis w')" "DeleteUser (x_db X) d uid = (Inr (), w_db w')"
    by (rule Delete_200 [OF run uid(1)])
  note u = user_db.FindUserByID_Inr [OF D f(1)]
  have i: "ID u = uid" using u uid(2) f(2) by (simp add: canonical_def)
  have "rows (d_state (w_db w')) = filter (\<lambda>v. ID v \<noteq> ID u) (rows (d_state (w_db w)))"
    by (rule user_db.DeleteUser_Inr [OF D f(6)]) (use u in simp)
  then show ?thesis using u f(3,4) services.revokes(3) [OF V inv f(5,2)] i by (intro bexI [of _ u]) auto
qed

text \<open>
  C14 (functional). A changed account is the old row with the command's fields: on status 200
  exactly the row with the given id is changed, its id, its activity and its creation time
  stay, a field the command leaves out stays, and the answer is that row. The sessions of
  the id in the path, which carry the old data, are revoked.
\<close>

theorem update_account:
  assumes V: "services X ks rows uuid_in tm" and inv: "session_inv (clock (w_redis w)) (ks (server (w_redis w)))" "table_ok uuid_in (rows (d_state (w_db w)))"
    and run: "Update X (BindOk cmd) salt now c w = (c', w')" "Status c' = 200" and uid: "uid = TrimSpace (rq_ID (Request c))"
  shows "\<exists>u v. u \<in> set (rows (d_state (w_db w))) \<and> uuid_in uid = Some (ID u)
    \<and> rows (d_state (w_db w')) = map (\<lambda>r. if ID r = ID u then v else r) (rows (d_state (w_db w)))
    \<and> ID v = ID u \<and> Active v = Active u \<and> CreatedAt v = CreatedAt u
    \<and> Email v = (case uu_Email cmd of None \<Rightarrow> Email u | Some e \<Rightarrow> normalizeEmail (x_unicode X) e)
    \<and> Remark v = (case uu_Remark cmd of None \<Rightarrow> Remark u | Some r \<Rightarrow> TrimSpace r)
    \<and> (case uu_Password cmd of None \<Rightarrow> PasswordHash v = PasswordHash u | Some p \<Rightarrow> 8 \<le> length p \<and> length p \<le> 72 \<and> Compare (x_bcrypt X) (PasswordHash v) p)
    \<and> Role v = (case uu_Role cmd of None \<Rightarrow> Role u | Some r \<Rightarrow> r)
    \<and> Body c' = Some (OKWithData (User_data (ToUser v)))
    \<and> revoked (clock (w_redis w)) uid (sessions (clock (w_redis w)) (ks (server (w_redis w)))) (sessions (clock (w_redis w')) (ks (server (w_redis w'))))"
proof -
  have D: "user_db (x_db X) rows uuid_in tm" and B: "bcrypt_library (x_bcrypt X)" using V by (simp_all add: services_def)
  obtain u d cm u1 u2 v where f: "FindUserByID (x_db X) (w_db w) uid = (Inr u, d)" "uid \<noteq> []" "BindOk cmd = BindOk cm"
    "update_fields X salt cm c u = Inr u1" "update_role cm c uid u1 = Inr u2"
    "SessionStore_DeleteUserSessions (x_redis X) (w_redis w) uid = (Inr (), w_redis w')"
    "UpdateUser (x_db X) d (u2\<lparr>UpdatedAt := now\<rparr>) = (Inr v, w_db w')" "Body c' = Some (OKWithData (User_data (ToUser v)))"
    by (rule Update_200 [OF run uid])
  note u = user_db.FindUserByID_Inr [OF D f(1)]
  have u1: "ID u1 = ID u \<and> Active u1 = Active u \<and> CreatedAt u1 = CreatedAt u \<and> Role u1 = Role u
      \<and> Email u1 = (case uu_Email cmd of None \<Rightarrow> Email u | Some e \<Rightarrow> normalizeEmail (x_unicode X) e)
      \<and> Remark u1 = (case uu_Remark cmd of None \<Rightarrow> Remark u | Some r \<Rightarrow> TrimSpace r)
      \<and> (case uu_Password cmd of None \<Rightarrow> PasswordHash u1 = PasswordHash u | Some p \<Rightarrow> 8 \<le> length p \<and> length p \<le> 72 \<and> Compare (x_bcrypt X) (PasswordHash u1) p)"
    using f(4) unfolding bind.inject(1) [THEN iffD1, OF f(3)] by (rule update_fields_Inr [OF B])
  have u2: "u2 = u1\<lparr>Role := (case uu_Role cmd of None \<Rightarrow> Role u1 | Some r \<Rightarrow> r)\<rparr>"
    using f(3,5) by (auto simp: update_role_def split: option.splits if_splits)
  obtain i now' r where t: "uuid_in (ID (u2\<lparr>UpdatedAt := now\<rparr>)) = Some i" "rows (d_state (w_db w')) = map (\<lambda>r. if ID r = i then patched now' (u2\<lparr>UpdatedAt := now\<rparr>) r else r) (rows (d_state d))"
    "v \<in> set (rows (d_state (w_db w')))" "r \<in> set (rows (d_state d))" "ID r = i" "v = patched now' (u2\<lparr>UpdatedAt := now\<rparr>) r"
    by (rule user_db.UpdateUser_Inr [OF D f(7)])
  have i: "i = ID u" using t(1) u1 u2 u inv(2) by (auto simp: table_ok_def)
  have same: "x = u" if "x \<in> set (rows (d_state (w_db w)))" "ID x = ID u" for x
    using user_db.table_row_unique [OF D inv(2) that(1)] u that(2) by blast
  then have v: "v = patched now' (u2\<lparr>UpdatedAt := now\<rparr>) u" using t(4-6) i u by auto
  have "rows (d_state (w_db w')) = map (\<lambda>r. if ID r = ID u then v else r) (rows (d_state (w_db w)))"
    unfolding t(2) v i using u same by (auto intro!: map_cong)
  moreover have "ID v = ID u \<and> Active v = Active u \<and> CreatedAt v = CreatedAt u \<and> Email v = Email u1 \<and> Remark v = Remark u1
      \<and> PasswordHash v = PasswordHash u1 \<and> Role v = (case uu_Role cmd of None \<Rightarrow> Role u1 | Some r \<Rightarrow> r)"
    unfolding v patched_def u2 by simp
  ultimately show ?thesis using u u1 f(8) services.revokes(3) [OF V inv(1) f(6,2)] by - (rule exI [of _ u], rule exI [of _ v], simp cong: option.case_cong)
qed

section \<open>The own account\<close>

text \<open>What nobody may change of the own account.\<close>

definition standing :: "user \<Rightarrow> string \<times> role \<times> bool" where
  "standing u = (ID u, Role u, Active u)"

lemma find_keeps_standing:
  assumes "user_db D rows uuid_in tm" "FindUserByID D c uid = (x, c')"
  shows "rows (d_state c') = rows (d_state c)"
  by (rule user_db.FindUserByID_keeps [OF assms])

lemma Update_self:
  assumes V: "services X ks rows uuid_in tm" and ok: "table_ok uuid_in (rows (d_state (w_db w)))"
    and p: "principal_key c = Some p" "TrimSpace (rq_ID (Request c)) = p_ID p" and run: "Update X body salt now c w = (c', w')"
  shows "map standing (rows (d_state (w_db w'))) = map standing (rows (d_state (w_db w)))"
proof -
  have D: "user_db (x_db X) rows uuid_in tm" using V by (simp add: services_def)
  obtain x d where x: "FindUserByID (x_db X) (w_db w) (p_ID p) = (x, d)" by fastforce
  have d: "rows (d_state d) = rows (d_state (w_db w))" by (rule find_keeps_standing [OF D x])
  have "w_db w' = w_db w \<or> w_db w' = d \<or> (\<exists>u u2 cmd y. x = Inr u \<and> rbind (update_fields X salt cmd c u) (update_role cmd c (p_ID p)) = Inr u2
      \<and> UpdateUser (x_db X) d (u2\<lparr>UpdatedAt := now\<rparr>) = (y, w_db w'))"
    using run x p(2)
    by (auto simp: Update_def userIDParam_def Let_def
        split: if_splits prod.splits sum.splits data_error.splits option.splits bind.splits dest!: invalidate_db)
  then consider "w_db w' = w_db w \<or> w_db w' = d"
    | u u2 cmd y where "x = Inr u" "rbind (update_fields X salt cmd c u) (update_role cmd c (p_ID p)) = Inr u2"
      "UpdateUser (x_db X) d (u2\<lparr>UpdatedAt := now\<rparr>) = (y, w_db w')" by blast
  then show ?thesis
  proof cases
    case 1
    then show ?thesis using d by auto
  next
    case (2 u u2 cmd y)
    obtain u1 where u1: "update_fields X salt cmd c u = Inr u1" "update_role cmd c (p_ID p) u1 = Inr u2"
      using 2(2) by (auto simp: rbind_Inr_iff)
    have B: "bcrypt_library (x_bcrypt X)" using V by (simp add: services_def)
    have u2: "ID u2 = ID u" "Role u2 = Role u"
      using u1(2) p update_fields_Inr [OF B u1(1)]
      by (auto simp: update_role_def rejectSelfTarget_def CurrentPrincipal_def split: option.splits if_splits)
    note u = user_db.FindUserByID_Inr [OF D x [unfolded 2(1)]]
    have own: "Role r = Role u" if "r \<in> set (rows (d_state d))" "ID r = ID u" for r
      using user_db.table_row_unique [OF D ok, of r u] that u d by auto
    have id: "uuid_in (ID u) = Some (ID u)" using u ok by (auto simp: table_ok_def)
    show ?thesis
      using user_db.UpdateUser_any [OF D 2(3)] u2 d own id by (auto simp: standing_def patched_def)
  qed
qed

text \<open>
  C16 (safety). An administrator cannot lock the own account out: with the own id in the path
  (as the session has it) no run of the three changing handlers, whatever its answer, deletes
  an account, changes its role or disables it, and deleting and disabling touch no session.
\<close>

theorem own_account_protected:
  assumes V: "services X ks rows uuid_in tm" and ok: "table_ok uuid_in (rows (d_state (w_db w)))"
    and p: "principal_key c = Some p" "TrimSpace (rq_ID (Request c)) = p_ID p"
    and run: "Delete X c w = (c', w') \<or> SetActive_handler X sbody c w = (c', w') \<or> Update X ubody salt now c w = (c', w')"
  shows "map standing (rows (d_state (w_db w'))) = map standing (rows (d_state (w_db w)))
    \<and> (Update X ubody salt now c w = (c', w') \<or> w_redis w' = w_redis w \<and> Status c' \<in> {400, 404, 413, 500})"
proof (cases "Update X ubody salt now c w = (c', w')")
  case True
  then show ?thesis using Update_self [OF V ok p] by simp
next
  case False
  have D: "user_db (x_db X) rows uuid_in tm" using V by (simp add: services_def)
  obtain x d where x: "FindUserByID (x_db X) (w_db w) (p_ID p) = (x, d)" by fastforce
  have d: "rows (d_state d) = rows (d_state (w_db w))" by (rule find_keeps_standing [OF D x])
  have "(w_db w' = w_db w \<or> w_db w' = d) \<and> w_redis w' = w_redis w \<and> Status c' \<in> {400, 404, 413, 500}"
    using run False x p
    by (auto simp: Delete_def SetActive_handler_def userIDParam_def rejectSelfTarget_def CurrentPrincipal_def Let_def
        split: if_splits sum.splits data_error.splits option.splits bind.splits)
  then show ?thesis using d by auto
qed

section \<open>Creating\<close>

lemma Create_201:
  assumes "Create X (BindOk cmd) salt uuid now c w = (c', w')" "Status c' = 201"
  obtains h u where "HashPassword (x_bcrypt X) salt (cu_Password cmd) = Some h"
    "u = \<lparr>ID = uuid, Email = normalizeEmail (x_unicode X) (cu_Email cmd), Remark = TrimSpace (cu_Remark cmd), PasswordHash = h,
       Active = (case cu_Active cmd of None \<Rightarrow> True | Some b \<Rightarrow> b), Role = cu_Role cmd, CreatedAt = now, UpdatedAt = now\<rparr>"
    "CreateUser (x_db X) (w_db w) u = (Inr u, w_db w')" "w_redis w' = w_redis w" "Body c' = Some (OKWithData (User_data (ToUser u)))"
    "Email u \<noteq> []" "8 \<le> length (cu_Password cmd)" "length (cu_Password cmd) \<le> 72"
proof -
  define u where "u h = \<lparr>ID = uuid, Email = normalizeEmail (x_unicode X) (cu_Email cmd), Remark = TrimSpace (cu_Remark cmd), PasswordHash = h,
       Active = (case cu_Active cmd of None \<Rightarrow> True | Some b \<Rightarrow> b), Role = cu_Role cmd, CreatedAt = now, UpdatedAt = now\<rparr>" for h
  have ok: "normalizeEmail (x_unicode X) (cu_Email cmd) \<noteq> []" "8 \<le> length (cu_Password cmd)" "length (cu_Password cmd) \<le> 72"
    and run: "(case HashPassword (x_bcrypt X) salt (cu_Password cmd) of
         None \<Rightarrow> (internal_error c, w)
       | Some h \<Rightarrow> (case CreateUser (x_db X) (w_db w) (u h) of
            (Inl ErrConflict, d) \<Rightarrow> (conflict c, w\<lparr>w_db := d\<rparr>)
          | (Inl _, d) \<Rightarrow> (internal_error c, w\<lparr>w_db := d\<rparr>)
          | (Inr u, d) \<Rightarrow> (ctx_JSON 201 (OKWithData (User_data (ToUser u))) c, w\<lparr>w_db := d\<rparr>))) = (c', w')"
    using assms unfolding Create_def Let_def normalizeEmail_def [symmetric] u_def bind.case by (auto split: if_splits)
  show ?thesis
  proof (cases "HashPassword (x_bcrypt X) salt (cu_Password cmd)")
    case None
    then show ?thesis using run assms(2) by auto
  next
    case (Some h)
    obtain x d where x: "CreateUser (x_db X) (w_db w) (u h) = (x, d)" by fastforce
    show ?thesis
    proof (cases x)
      case (Inl err)
      then show ?thesis using run Some x assms(2) by (cases err) auto
    next
      case (Inr v)
      have "v = u h" using x Inr by (auto simp: CreateUser_def split: prod.splits sum.splits sql_error.splits)
      then show ?thesis using run Some x Inr ok by (intro that [OF Some u_def]) (auto simp: u_def)
    qed
  qed
qed

lemma normalizeEmail_Nil [simp]: "normalizeEmail U [] = []"
  by (simp add: normalizeEmail_def TrimSpace_ascii ToLower_def)

text \<open>
  C17 (functional). A created account can log in: after status 201 for an account that is not
  created disabled, on working connections, a login with its email (in any spelling that normalises to it) and its
  password that passes the captcha step (every login does where captchas are off) is answered with 200 and a
  token for that account.
\<close>

theorem created_account_logs_in:
  assumes V: "services X ks rows uuid_in tm" and inv: "session_inv (clock (w_redis w)) (ks (server (w_redis w)))" "table_ok uuid_in (rows (d_state (w_db w)))"
    and f: "faults (w_redis w) = []" "d_faults (w_db w) = []"
    and run: "Create X (BindOk cmd) salt uuid now c w = (c', w')" "Status c' = 201" "cu_Active cmd \<noteq> Some False"
    and s: "consumeLoginCaptcha X s c2 w' (l_CaptchaID req) (l_Captcha req) = (True, c1, w1)" "refreshTTL s = n * second" "0 < n" "good_draws ks dr (w_redis w)" "Random (dr_random dr) = Some rt"
    and req: "normalizeEmail (x_unicode X) (normalizeEmail (x_unicode X) (l_Email req)) = normalizeEmail (x_unicode X) (cu_Email cmd)" "l_Password req = cu_Password cmd"
    and jwt: "\<forall>uid. Manager_Issue (x_jwt X) (tokens s) (dr_now_issue dr) uid (dr_sessionID dr) (dr_accessJTI dr) \<noteq> None"
  shows "\<exists>tok. Status (fst (Login X s (BindOk req) dr c2 w')) = 200 \<and> uuid_in uuid \<noteq> None
    \<and> Body (fst (Login X s (BindOk req) dr c2 w')) = Some (OKWithData (Token_data \<lparr>t_AccessToken = tok, t_TokenType = ''Bearer'', t_ExpiresIn = whole_seconds (accessTTL s),
        t_User = \<lparr>au_ID = the (uuid_in uuid), au_Email = normalizeEmail (x_unicode X) (cu_Email cmd), au_Remark = TrimSpace (cu_Remark cmd), au_Role = cu_Role cmd\<rparr>\<rparr>))"
proof -
  have D: "user_db (x_db X) rows uuid_in tm" and B: "bcrypt_library (x_bcrypt X)" using V by (simp_all add: services_def)
  obtain h u where h: "HashPassword (x_bcrypt X) salt (cu_Password cmd) = Some h"
    and u: "u = \<lparr>ID = uuid, Email = normalizeEmail (x_unicode X) (cu_Email cmd), Remark = TrimSpace (cu_Remark cmd), PasswordHash = h,
       Active = (case cu_Active cmd of None \<Rightarrow> True | Some b \<Rightarrow> b), Role = cu_Role cmd, CreatedAt = now, UpdatedAt = now\<rparr>"
    and cr: "CreateUser (x_db X) (w_db w) u = (Inr u, w_db w')" "w_redis w' = w_redis w"
    and l: "Email u \<noteq> []" "8 \<le> length (cu_Password cmd)" "length (cu_Password cmd) \<le> 72"
    by (rule Create_201 [OF run(1,2)])
  note i = user_db.CreateUser_Inr [OF D cr(1)]
  let ?v = "stored uuid_in tm u"
  have ok: "table_ok uuid_in (rows (d_state (w_db w')))"
    by (rule user_db.step_table_ok [OF D repo_step.create [OF cr(1)] inv(2)])
  have fd: "d_faults (w_db w') = []" using cr(1) f(2) dcall_faults by (auto simp: CreateUser_def split: prod.splits sum.splits sql_error.splits)
  have cmp: "Compare (x_bcrypt X) h (cu_Password cmd)"
    using bcrypt_library.compare_generated [OF B] h by (simp add: HashPassword_def Compare_def)
  obtain tok where tok: "Manager_Issue (x_jwt X) (tokens s) (dr_now_issue dr) (ID ?v) (dr_sessionID dr) (dr_accessJTI dr) = Some tok" using jwt by blast
  have v: "?v \<in> set (rows (d_state (w_db w')))" "Active ?v" "Email ?v = normalizeEmail (x_unicode X) (normalizeEmail (x_unicode X) (l_Email req))"
    "Compare (x_bcrypt X) (PasswordHash ?v) (l_Password req)"
    using i u run(3) req cmp by (auto simp: stored_def split: option.splits)
  have e: "normalizeEmail (x_unicode X) (l_Email req) \<noteq> []"
    using req(1) l(1) u by auto
  show ?thesis
    by (rule services.Login_clean [OF V _ ok _ s(2,3) _ fd s(1) [unfolded services.consume_captcha(5) [OF V s(1) TrueI]] v e _ _ s(5) tok])
      (use cr(2) inv(1) f(1) s(4) req(2) l u i in \<open>auto simp: ToAuthUser_def stored_def\<close>)
qed

end
