(* ===== verification/UserListing.thy ===== *)
theory UserListing
  imports UserProps
begin

text \<open>
  The listing of accounts as a whole: filters, pagination, total and online flags, and the
  page numbers at which the offset overflows.
\<close>

section \<open>Online flags\<close>

text \<open>A flag that is right about every account with a session that has time left, and is
  set only for accounts with a session.\<close>

definition online_ok :: "int \<Rightarrow> (string \<rightharpoonup> authSessionRecord \<times> int) \<Rightarrow> (string \<Rightarrow> bool) \<Rightarrow> bool" where
  "online_ok t tb on \<longleftrightarrow>
     (\<forall>sid r e. tb sid = Some (r, e) \<longrightarrow> t < e \<longrightarrow> on (owner r))
     \<and> (\<forall>u. on u \<longrightarrow> (\<exists>sid r e. tb sid = Some (r, e) \<and> owner r = u))"

context services
begin

lemma OnlineMap_view:
  assumes inv: "view_inv ks c" and now: "unix_milli now = clock c" and f: "faults c = []"
  obtains c' on where "online_ok (clock c) (table ks c) on"
    "SessionStore_OnlineMap (x_redis X) c now ids = (Inr (\<lambda>u. if u \<in> set ids \<and> u \<noteq> [] then Some (on u) else None), c')"
proof -
  let ?on = "\<lambda>u. first_listed (clock c) (ks (server c)) u \<noteq> []"
  have "?on (owner r)" if "table ks c sid = Some (r, e)" "clock c < e" for sid r e
    by (cases rule: first_listed_cases [OF inv, of "owner r"]) (use that in fastforce)+
  moreover have "\<exists>sid r e. table ks c sid = Some (r, e) \<and> owner r = u" if "?on u" for u
    using that by (cases rule: first_listed_cases [OF inv, of u]) auto
  ultimately have ok: "online_ok (clock c) (table ks c) ?on" unfolding online_ok_def by blast
  have "SessionStore_OnlineMap K (conn_view ks c) now ids =
      (Inr (\<lambda>u. if u \<in> set ids \<and> u \<noteq> [] then Some (?on u) else None), conn_view ks c)"
    using OnlineMap_clean [of "conn_view ks c" now "rd_cjson (x_redis X)" ids] inv now f unfolding conn_view_simps by simp
  then show ?thesis
    using OnlineMap_sim [of c now ids] by (cases "SessionStore_OnlineMap (x_redis X) c now ids") (auto intro: that [OF ok])
qed

lemma withOnline_clean:
  assumes inv: "view_inv ks (w_redis w)" and now: "unix_milli now = clock (w_redis w)" and f: "faults (w_redis w) = []"
    and ids: "\<forall>i \<in> set items. d_ID i \<noteq> []"
  obtains w' on where "online_ok (clock (w_redis w)) (table ks (w_redis w)) on" "w_db w' = w_db w"
    "withOnline X now c w items = (Inr (map (\<lambda>i. i\<lparr>d_Online := on (d_ID i)\<rparr>) items), w')"
proof -
  obtain c' on where o: "online_ok (clock (w_redis w)) (table ks (w_redis w)) on"
    "SessionStore_OnlineMap (x_redis X) (w_redis w) now (map d_ID items) =
      (Inr (\<lambda>u. if u \<in> set (map d_ID items) \<and> u \<noteq> [] then Some (on u) else None), c')"
    by (rule OnlineMap_view [OF inv now f])
  show ?thesis
  proof (cases "items = []")
    case True
    then show ?thesis by (intro that [OF o(1), of w]) (simp_all add: withOnline_def)
  next
    case False
    then show ?thesis using o(2) ids by (intro that [OF o(1), of "w\<lparr>w_redis := c'\<rparr>"]) (auto simp: withOnline_def UsersOnline_def)
  qed
qed

end

section \<open>The page\<close>

context services
begin

text \<open>From the repository's reply to the answer.\<close>

lemma List_run:
  assumes inv: "view_inv ks (w_redis w)" "table_ok uuid_in (rows (d_state (w_db w)))"
    and f: "faults (w_redis w) = []" "unix_milli now = clock (w_redis w)" and q: "q_Role q = [] \<or> Valid (q_Role q)"
    and pg: "FindByPage (x_db X) (w_db w) (list_conds (x_unicode X) (TrimSpace (q_Email q)) (q_Role q) (q_Active q))
        (go_int (go_int (q_Page q - 1) * q_PageSize q)) (q_PageSize q) = (Inr (us, cnt), (w_db w)\<lparr>d_state := d'\<rparr>)"
      "set us \<subseteq> set (rows (d_state (w_db w)))"
  obtains on where "online_ok (clock (w_redis w)) (table ks (w_redis w)) on"
    "fst (List X (BindOk q) now c w) =
       ctx_JSON 200 (OKWithPageData (map (\<lambda>u. (ToUser u)\<lparr>d_Online := on (ID u)\<rparr>) us) cnt (q_Page q) (q_PageSize q)) c"
proof -
  have ids: "\<forall>i \<in> set (ToUsers us). d_ID i \<noteq> []"
    using inv(2) pg(2) uuid_ascii by (auto simp: ToUsers_def ToUser_def table_ok_def)
  obtain w' on where o: "online_ok (clock (w_redis w)) (table ks (w_redis w)) on"
    "withOnline X now c (w\<lparr>w_db := (w_db w)\<lparr>d_state := d'\<rparr>\<rparr>) (ToUsers us) = (Inr (map (\<lambda>i. i\<lparr>d_Online := on (d_ID i)\<rparr>) (ToUsers us)), w')"
    by (rule withOnline_clean [of "w\<lparr>w_db := (w_db w)\<lparr>d_state := d'\<rparr>\<rparr>" now "ToUsers us" c]) (use inv f ids in simp_all)
  have "fst (List X (BindOk q) now c w) = ctx_JSON 200 (OKWithPageData (map (\<lambda>i. i\<lparr>d_Online := on (d_ID i)\<rparr>) (ToUsers us)) cnt (q_Page q) (q_PageSize q)) c"
    using q pg(1) o(2) by (auto simp: List_def ListUsers_def)
  then show ?thesis using o(1) by (intro that) (auto simp: ToUsers_def ToUser_def comp_def)
qed

end

lemma newest_first_rows:
  assumes "newest_first (filter P us) xs"
  shows "set xs \<subseteq> set us" "length xs = length (filter P us)"
  using assms mset_eq_setD [of xs] mset_eq_length [of xs] unfolding newest_first_def by fastforce+

text \<open>
  C31 (functional). The listing answers with the page it was asked for: on working
  connections, for a page number and size whose product fits into 64 bits (any size up to the limit of the binding and any page number up to
  \<open>2 ^ 63 / 100\<close>), a known or no role and an email filter that is a text of the database, and the clocks of the server and of Redis in step, the items are the
  accounts number \<open>(page - 1) * size\<close> and following, newest first, among those that match the
  filters, the total is the number of all matching accounts, and the online flags are those
  of the session table. For larger page numbers this fails: see \<open>list_page_wraps\<close>.
\<close>

theorem list_answer:
  assumes V: "services X ks rows uuid_in tm" and inv: "session_inv (clock (w_redis w)) (ks (server (w_redis w)))" "table_ok uuid_in (rows (d_state (w_db w)))"
    and f: "faults (w_redis w) = []" "d_faults (w_db w) = []" "unix_milli now = clock (w_redis w)"
    and q: "1 \<le> q_Page q" "1 \<le> q_PageSize q" "q_Page q * q_PageSize q < 2 ^ 63" "q_Role q = [] \<or> Valid (q_Role q)"
      "\<not> list_ex (cond_error uuid_in) (list_conds (x_unicode X) (TrimSpace (q_Email q)) (q_Role q) (q_Active q))"
  shows "\<exists>xs on. newest_first (filter (listed (x_unicode X) (TrimSpace (q_Email q)) (q_Role q) (q_Active q)) (rows (d_state (w_db w)))) xs
    \<and> online_ok (clock (w_redis w)) (sessions (clock (w_redis w)) (ks (server (w_redis w)))) on
    \<and> fst (List X (BindOk q) now c w) =
        ctx_JSON 200 (OKWithPageData (map (\<lambda>u. (ToUser u)\<lparr>d_Online := on (ID u)\<rparr>) (take (nat (q_PageSize q)) (drop (nat ((q_Page q - 1) * q_PageSize q)) xs)))
          (int (length xs)) (q_Page q) (q_PageSize q)) c"
proof -
  have D: "user_db (x_db X) rows uuid_in tm" using V by (simp add: services_def)
  let ?off = "(q_Page q - 1) * q_PageSize q" and ?cs = "list_conds (x_unicode X) (TrimSpace (q_Email q)) (q_Role q) (q_Active q)"
  have off: "0 \<le> ?off" "?off + q_PageSize q < 2 ^ 63" using q by (simp_all add: algebra_simps)
  have "q_Page q \<le> q_Page q * q_PageSize q" using q by (simp add: mult_le_cancel_left1)
  then have "go_int (q_Page q - 1) = q_Page q - 1" using q(1,3) by (intro go_int_idle) linarith+
  moreover have "go_int ?off = ?off" using off q(2) by (intro go_int_idle) linarith+
  ultimately have go: "go_int (go_int (q_Page q - 1) * q_PageSize q) = ?off" by simp
  obtain xs d' where x: "newest_first (filter (matches uuid_in ?cs) (rows (d_state (w_db w)))) xs" "rows d' = rows (d_state (w_db w))"
    "FindByPage (x_db X) (w_db w) ?cs ?off (q_PageSize q) =
      (Inr (page ?off (q_PageSize q) xs, int (length (filter (matches uuid_in ?cs) (rows (d_state (w_db w)))))), (w_db w)\<lparr>d_state := d'\<rparr>)"
    by (rule user_db.FindByPage_clean [OF D f(2) q(5) off(1) _ off(2)]) (use q(2) in simp)
  let ?pg = "take (nat (q_PageSize q)) (drop (nat ?off) xs)"
  have pg: "page ?off (q_PageSize q) xs = ?pg" using off(1) q(2) by (simp add: page_def)
  note xs = newest_first_rows [OF x(1)]
  have sub: "set ?pg \<subseteq> set (rows (d_state (w_db w)))" using xs(1) by (auto dest!: in_set_takeD in_set_dropD)
  obtain on where "online_ok (clock (w_redis w)) (sessions (clock (w_redis w)) (ks (server (w_redis w)))) on"
    "fst (List X (BindOk q) now c w) = ctx_JSON 200 (OKWithPageData (map (\<lambda>u. (ToUser u)\<lparr>d_Online := on (ID u)\<rparr>) ?pg) (int (length xs)) (q_Page q) (q_PageSize q)) c"
    by (rule services.List_run [OF V inv f(1,3) q(4), unfolded go, OF x(3) [unfolded pg, folded xs(2)] sub])
  then show ?thesis using x(1) unfolding list_conds_matches by blast
qed

context user_db
begin

text \<open>A negative offset is no offset, but it is added to the number of rows found.\<close>

lemma FindByPage_negative:
  assumes c: "d_faults c = []" "\<not> list_ex (cond_error uuid_in) cs" and b: "offset < 0" "0 < limit"
  obtains xs d' where "newest_first (filter (matches uuid_in cs) (tab c)) xs"
    "FindByPage D c cs offset limit =
      (Inr (take (nat limit) xs, if xs \<noteq> [] \<and> int (length xs) < limit then go_int (int (length xs) + offset) else int (length xs)),
       c\<lparr>d_state := d'\<rparr>)"
proof -
  obtain xs d1 where x: "newest_first (filter (matches uuid_in cs) (tab c)) xs" "rows d1 = tab c"
    "dcall (db_Find D cs offset limit) c = (Inr (page offset limit xs), c\<lparr>d_state := d1\<rparr>)"
    by (rule Find_clean [OF c])
  note xs = newest_first_rows(2) [OF x(1)]
  have pg: "page offset limit xs = take (nat limit) xs" using b by (simp add: page_def)
  show ?thesis
  proof (cases "xs \<noteq> [] \<and> int (length xs) < limit")
    case True
    then have "take (nat limit) xs = xs" using b(2) by (simp add: le_nat_iff)
    then show ?thesis using True x(3) b(2)
      by (intro that [OF x(1), of d1]) (simp add: FindByPage_def Let_def pg)
  next
    case False
    then have s: "\<not> (0 < int (length (take (nat limit) xs)) \<and> int (length (take (nat limit) xs)) < limit)"
      using b(2) by (auto simp: min_def split: if_splits)
    obtain d2 where d2: "dcall (db_Count D cs) (c\<lparr>d_state := d1\<rparr>) =
         (Inr (int (length (filter (matches uuid_in cs) (tab (c\<lparr>d_state := d1\<rparr>))))), (c\<lparr>d_state := d1\<rparr>)\<lparr>d_state := d2\<rparr>)"
      by (rule Count_clean [of "c\<lparr>d_state := d1\<rparr>" cs]) (use c in simp_all)
    show ?thesis
      using False s x d2 by (intro that [OF x(1), of d2]) (auto simp: FindByPage_def Let_def pg xs)
  qed
qed

end

text \<open>
  C38 (bounds). The offset is computed in 64 bits. Under the same conditions, a page number whose offset \<open>(page - 1) * size\<close>
  wraps to a negative number, which the binding accepts, is not answered with an empty page but with
  the first one; and unless that page is full or empty, the total is not the number of matching
  accounts but that number plus the wrapped offset.
\<close>

theorem list_page_wraps:
  assumes V: "services X ks rows uuid_in tm" and inv: "session_inv (clock (w_redis w)) (ks (server (w_redis w)))" "table_ok uuid_in (rows (d_state (w_db w)))"
    and f: "faults (w_redis w) = []" "d_faults (w_db w) = []" "unix_milli now = clock (w_redis w)"
    and q: "1 \<le> q_Page q" "q_Page q < 2 ^ 63" "1 \<le> q_PageSize q" "q_PageSize q < 2 ^ 63" "q_Role q = [] \<or> Valid (q_Role q)"
      "\<not> list_ex (cond_error uuid_in) (list_conds (x_unicode X) (TrimSpace (q_Email q)) (q_Role q) (q_Active q))"
    and wraps: "off = go_int ((q_Page q - 1) * q_PageSize q)" "off < 0"
  shows "\<exists>xs on. newest_first (filter (listed (x_unicode X) (TrimSpace (q_Email q)) (q_Role q) (q_Active q)) (rows (d_state (w_db w)))) xs
    \<and> online_ok (clock (w_redis w)) (sessions (clock (w_redis w)) (ks (server (w_redis w)))) on
    \<and> fst (List X (BindOk q) now c w) =
        ctx_JSON 200 (OKWithPageData (map (\<lambda>u. (ToUser u)\<lparr>d_Online := on (ID u)\<rparr>) (take (nat (q_PageSize q)) xs))
          (if xs \<noteq> [] \<and> int (length xs) < q_PageSize q then int (length xs) + off else int (length xs)) (q_Page q) (q_PageSize q)) c"
proof -
  have D: "user_db (x_db X) rows uuid_in tm" using V by (simp add: services_def)
  let ?cs = "list_conds (x_unicode X) (TrimSpace (q_Email q)) (q_Role q) (q_Active q)"
  have "go_int (q_Page q - 1) = q_Page q - 1" using q(1,2) by (intro go_int_idle) linarith+
  then have go: "go_int (go_int (q_Page q - 1) * q_PageSize q) = off" using wraps(1) by simp
  have pos: "0 < q_PageSize q" using q(3) by simp
  obtain xs d' where x: "newest_first (filter (matches uuid_in ?cs) (rows (d_state (w_db w)))) xs"
    "FindByPage (x_db X) (w_db w) ?cs off (q_PageSize q) =
      (Inr (take (nat (q_PageSize q)) xs, if xs \<noteq> [] \<and> int (length xs) < q_PageSize q then go_int (int (length xs) + off) else int (length xs)),
       (w_db w)\<lparr>d_state := d'\<rparr>)"
    by (rule user_db.FindByPage_negative [OF D f(2) q(6) wraps(2) pos])
  have "- (2 ^ 63) \<le> off" unfolding wraps(1) go_int_def by simp
  then have n: "go_int (int (length xs) + off) = int (length xs) + off" if "int (length xs) < q_PageSize q"
    using that wraps(2) q(4) by (intro go_int_idle) linarith+
  have sub: "set (take (nat (q_PageSize q)) xs) \<subseteq> set (rows (d_state (w_db w)))"
    using newest_first_rows(1) [OF x(1)] by (auto dest!: in_set_takeD)
  obtain on where o: "online_ok (clock (w_redis w)) (sessions (clock (w_redis w)) (ks (server (w_redis w)))) on"
    "fst (List X (BindOk q) now c w) = ctx_JSON 200 (OKWithPageData (map (\<lambda>u. (ToUser u)\<lparr>d_Online := on (ID u)\<rparr>) (take (nat (q_PageSize q)) xs))
       (if xs \<noteq> [] \<and> int (length xs) < q_PageSize q then go_int (int (length xs) + off) else int (length xs)) (q_Page q) (q_PageSize q)) c"
    by (rule services.List_run [OF V inv f(1,3) q(5), unfolded go, OF x(2) sub])
  show ?thesis
    using x(1) o n unfolding list_conds_matches by (intro exI [of _ xs] exI [of _ on] conjI) auto
qed

theorem list_page_wraps_witness:
  "\<exists>b. fst (List demo_deps (BindOk \<lparr>q_Page = 4611686018427387905, q_PageSize = 2, q_Email = [], q_Role = [], q_Active = None\<rparr>)
      (1000 * millisecond) (new_ctx (demo_request [])) demo_world) =
    ctx_JSON 200 (OKWithPageData [(ToUser demo_account)\<lparr>d_Online := b\<rparr>] (- 9223372036854775807) 4611686018427387905 2) (new_ctx (demo_request []))"
proof -
  let ?q = "\<lparr>q_Page = 4611686018427387905, q_PageSize = 2, q_Email = [], q_Role = [], q_Active = None\<rparr>"
  have t: "TrimSpace [] = []" by (simp add: TrimSpace_ascii)
  have off: "- 9223372036854775808 = go_int ((q_Page ?q - 1) * q_PageSize ?q)" by (simp add: go_int_def)
  have 1: "xs = [demo_account]" if "newest_first [demo_account] xs" for xs
    using that by (simp add: newest_first_def)
  obtain xs on where "newest_first [demo_account] xs"
    "fst (List demo_deps (BindOk ?q) (1000 * millisecond) (new_ctx (demo_request [])) demo_world) =
        ctx_JSON 200 (OKWithPageData (map (\<lambda>u. (ToUser u)\<lparr>d_Online := on (ID u)\<rparr>) (take 2 xs))
          (if xs \<noteq> [] \<and> int (length xs) < 2 then int (length xs) + - 9223372036854775808 else int (length xs)) 4611686018427387905 2) (new_ctx (demo_request []))"
    using list_page_wraps [OF demo_services.services_axioms, of demo_world "1000 * millisecond" ?q, OF _ _ _ _ _ _ _ _ _ _ _ off, of "new_ctx (demo_request [])"]
      session_inv_empty [of 1000] demo_accounts_ok
    by (auto simp: t unix_milli_def listed_def list_conds_def)
  then show ?thesis using 1 [of xs] by (intro exI [of _ "on ''u1''"]) simp
qed

end
