(* ===== verification/UserExamples.thy ===== *)
theory UserExamples
  imports UserListing
begin

text \<open>
  Concrete runs of the user management handlers on small tables: the hypotheses of the
  theorems hold there. The last theorem is a run in which the guard against self-deletion
  does not apply.
\<close>

definition demo_admin :: user where
  "demo_admin = demo_account\<lparr>Role := ''admin''\<rparr>"

lemma demo_admin_simps [simp]: "ID demo_admin = ''u1''" "Email demo_admin = ''a@b.c''" "Active demo_admin" "Role demo_admin = ''admin''"
  "Remark demo_admin = ''r''" "PasswordHash demo_admin = CHR ''$'' # HashTokenHex ''secret''"
  by (simp_all add: demo_admin_def)

lemma demo_admins_ok: "table_ok fold_id [demo_admin]"
  using demo_accounts_ok by (simp add: table_ok_def row_ok_def demo_admin_def Valid_def RoleAdmin_def)

lemma fold_u1: "fold_id ''u1'' = Some ''u1''" "fold_id ''U1'' = Some ''u1''"
  by (simp_all add: fold_id_def) code_simp+

definition path_ctx :: "string \<Rightarrow> principal \<Rightarrow> ctx" where
  "path_ctx uid p = (new_ctx ((demo_request [])\<lparr>rq_ID := uid\<rparr>))\<lparr>principal_key := Some p\<rparr>"

lemma path_ctx_simps [simp]: "rq_ID (Request (path_ctx uid p)) = uid" "principal_key (path_ctx uid p) = Some p"
  by (simp_all add: path_ctx_def new_ctx_def)

lemma demo_find: "fold_id uid = Some (ID a) \<Longrightarrow> FindUserByID table_db (demo_db [a]) uid = (Inr a, demo_db [a])"
  by (simp add: FindUserByID_def dcall_clean table_db_def tb_Take_def)

lemma trim_u1: "TrimSpace ''u1'' = ''u1''" "TrimSpace ''U1'' = ''U1''"
  by (simp_all add: TrimSpace_ascii IsSpace_def)

lemma DeleteUserSessions_run:
  assumes "clock c = 1000" "faults c = []" "session_inv 1000 (server c)"
  obtains r where "SessionStore_DeleteUserSessions (ks_redis ks_cjson) c uid = (Inr (), r)"
  using reference_server.DeleteUserSessions_succeeds [of c uid] assms by auto

theorem kick_revokes_witness:
  "\<exists>w c' w'. sessions 1000 (server (w_redis w)) ''s1'' \<noteq> None \<and> Kick demo_deps (path_ctx ''u1'' (user_principal demo_admin ''s0'')) w = (c', w')
     \<and> sessions (clock (w_redis w')) (server (w_redis w')) ''s1'' = None"
proof -
  obtain w :: "(keyspace, user list) world" where w: "w_db w = demo_db [demo_account]" "clock (w_redis w) = 1000" "faults (w_redis w) = []" "session_inv 1000 (server (w_redis w))"
    and t: "sessions 1000 (server (w_redis w)) = [''s1'' \<mapsto> (login_record demo_account ''j1'' ''abc'', 61000)]"
    by (rule demo_logged_in)
  obtain r where r: "SessionStore_DeleteUserSessions (ks_redis ks_cjson) (w_redis w) ''u1'' = (Inr (), r)"
    by (rule DeleteUserSessions_run [OF w(2-4)])
  have run: "Kick demo_deps (path_ctx ''u1'' (user_principal demo_admin ''s0'')) w =
      (ctx_JSON 200 (OKWithMessage ''user sessions invalidated'') (path_ctx ''u1'' (user_principal demo_admin ''s0'')), w\<lparr>w_redis := r\<rparr>)"
    using r w(1) by (simp add: Kick_def userIDParam_def trim_u1 demo_find fold_u1 invalidateSessions_def InvalidateUserSessions_def)
  have "canonical fold_id ''u1''" by (simp add: canonical_def fold_u1)
  then have "revoked 1000 ''u1'' [''s1'' \<mapsto> (login_record demo_account ''j1'' ''abc'', 61000)] (sessions (clock r) (server r))"
    using kick_revokes [OF demo_services.services_axioms _ run _ refl] w t by (simp add: trim_u1)
  then have "sessions (clock r) (server r) ''s1'' = None"
    by (cases "sessions (clock r) (server r) ''s1''") (force simp: revoked_def)+
  then show ?thesis using run t by (intro exI [of _ w] exI conjI) auto
qed

theorem own_account_protected_witness:
  "\<exists>c' w'. Delete demo_deps (path_ctx ''u1'' (user_principal demo_account ''s1'')) demo_world = (c', w')
     \<and> map standing (d_state (w_db w')) = map standing [demo_account]"
  using own_account_protected [OF demo_services.services_axioms, of demo_world "path_ctx ''u1'' (user_principal demo_account ''s1'')" "user_principal demo_account ''s1''"
      "fst (Delete demo_deps (path_ctx ''u1'' (user_principal demo_account ''s1'')) demo_world)"
      "snd (Delete demo_deps (path_ctx ''u1'' (user_principal demo_account ''s1'')) demo_world)"] demo_accounts_ok
  by (simp add: trim_u1 user_principal_def) (metis prod.collapse)

lemma demo_delete:
  assumes w: "w_db w = demo_db [a]" "clock (w_redis w) = 1000" "faults (w_redis w) = []" "session_inv 1000 (server (w_redis w))"
    and i: "fold_id uid = Some (ID a)" "TrimSpace uid = uid" "uid \<noteq> []" "p_ID p \<noteq> uid"
  obtains r where "SessionStore_DeleteUserSessions (ks_redis ks_cjson) (w_redis w) uid = (Inr (), r)"
    "Delete demo_deps (path_ctx uid p) w = (ctx_JSON 200 (OKWithMessage ''user deleted'') (path_ctx uid p), \<lparr>w_redis = r, w_db = demo_db []\<rparr>)"
proof -
  obtain r where r: "SessionStore_DeleteUserSessions (ks_redis ks_cjson) (w_redis w) uid = (Inr (), r)"
    by (rule DeleteUserSessions_run [OF w(2-4)])
  have "DeleteUser table_db (demo_db [a]) uid = (Inr (), demo_db [])"
    using i(1) by (simp add: DeleteUser_def dcall_clean table_db_def tb_Delete_def)
  then show ?thesis
    using r w(1) i demo_find [OF i(1)]
    by (intro that [OF r])
      (simp add: Delete_def userIDParam_def rejectSelfTarget_def CurrentPrincipal_def invalidateSessions_def InvalidateUserSessions_def)
qed

theorem delete_account_witness:
  "\<exists>w c' w'. Delete demo_deps (path_ctx ''u1'' (user_principal (demo_admin\<lparr>ID := ''u0''\<rparr>) ''s0'')) w = (c', w') \<and> Status c' = 200
     \<and> d_state (w_db w) = [demo_account] \<and> d_state (w_db w') = []"
proof -
  let ?p = "user_principal (demo_admin\<lparr>ID := ''u0''\<rparr>) ''s0''"
  obtain w :: "(keyspace, user list) world" where w: "w_db w = demo_db [demo_account]" "clock (w_redis w) = 1000" "faults (w_redis w) = []" "session_inv 1000 (server (w_redis w))"
    by (rule demo_logged_in)
  obtain r where run: "Delete demo_deps (path_ctx ''u1'' ?p) w = (ctx_JSON 200 (OKWithMessage ''user deleted'') (path_ctx ''u1'' ?p), \<lparr>w_redis = r, w_db = demo_db []\<rparr>)"
    by (rule demo_delete [OF w, of "''u1''" ?p]) (simp_all add: fold_u1 trim_u1 user_principal_def)
  have inv: "session_inv (clock (w_redis w)) (server (w_redis w))" using w by simp
  obtain u where "u \<in> set [demo_account]" "d_state (w_db \<lparr>w_redis = r, w_db = demo_db []\<rparr>) = filter (\<lambda>v. ID v \<noteq> ID u) [demo_account]"
    using delete_account [OF demo_services.services_axioms inv run _ refl] w(1) by (auto simp: trim_u1 canonical_def fold_u1)
  then have d: "d_state (w_db \<lparr>w_redis = r, w_db = demo_db []\<rparr>) = []" by simp
  have st: "Status (ctx_JSON 200 (OKWithMessage ''user deleted'') (path_ctx ''u1'' ?p)) = 200" by simp
  have db: "d_state (w_db w) = [demo_account]" using w(1) by simp
  show ?thesis
    by (rule exI [of _ w], rule exI, rule exI, rule conjI, rule run, rule conjI, rule st, rule conjI, rule db, rule d)
qed

lemma revoked_others: "revoked t uid tb tb' \<Longrightarrow> tb sid = Some (r, e) \<Longrightarrow> owner r \<noteq> uid \<Longrightarrow> tb' sid = Some (r, e)"
  unfolding revoked_def by blast

text \<open>
  C39 (safety). The guard compares texts, the database compares UUIDs: an administrator who
  writes the own id with a capital letter is not refused. The account is deleted, and its
  session, which is filed under the canonical id, is not revoked.
\<close>

theorem self_delete_by_alias:
  "\<exists>w c' w'. d_state (w_db w) = [demo_admin] \<and> sessions 1000 (server (w_redis w)) ''s1'' = Some (login_record demo_admin ''j1'' ''abc'', 61000)
     \<and> Delete demo_deps (path_ctx ''U1'' (user_principal demo_admin ''s1'')) w = (c', w') \<and> Status c' = 200
     \<and> d_state (w_db w') = [] \<and> clock (w_redis w') = 1000 \<and> sessions 1000 (server (w_redis w')) ''s1'' = Some (login_record demo_admin ''j1'' ''abc'', 61000)"
proof -
  let ?p = "user_principal demo_admin ''s1''"
  obtain w :: "(keyspace, user list) world" where w: "w_db w = demo_db [demo_admin]" "clock (w_redis w) = 1000" "faults (w_redis w) = []" "session_inv 1000 (server (w_redis w))"
    and t: "sessions 1000 (server (w_redis w)) = [''s1'' \<mapsto> (login_record demo_admin ''j1'' ''abc'', 61000)]"
    by (rule logged_in [OF demo_admins_ok])
  obtain r where r: "SessionStore_DeleteUserSessions (ks_redis ks_cjson) (w_redis w) ''U1'' = (Inr (), r)"
    and run: "Delete demo_deps (path_ctx ''U1'' ?p) w = (ctx_JSON 200 (OKWithMessage ''user deleted'') (path_ctx ''U1'' ?p), \<lparr>w_redis = r, w_db = demo_db []\<rparr>)"
    by (rule demo_delete [OF w, of "''U1''" ?p]) (simp_all add: fold_u1 trim_u1 user_principal_def)
  have rv: "clock r = 1000" "revoked 1000 ''U1'' (sessions 1000 (server (w_redis w))) (sessions 1000 (server r))"
    using demo_services.revokes [of "w_redis w" "''U1''" r] r w by simp_all
  have s: "sessions 1000 (server r) ''s1'' = Some (login_record demo_admin ''j1'' ''abc'', 61000)"
    by (rule revoked_others [OF rv(2)]) (simp_all add: t)
  let ?w' = "\<lparr>w_redis = r, w_db = demo_db []\<rparr>"
  have "d_state (w_db w) = [demo_admin]" "d_state (w_db ?w') = []" "clock (w_redis ?w') = 1000" using w(1) rv(1) by simp_all
  moreover have "sessions 1000 (server (w_redis w)) ''s1'' = Some (login_record demo_admin ''j1'' ''abc'', 61000)" using t by simp
  moreover have "sessions 1000 (server (w_redis ?w')) ''s1'' = Some (login_record demo_admin ''j1'' ''abc'', 61000)" using s by simp
  moreover have "Status (ctx_JSON 200 (OKWithMessage ''user deleted'') (path_ctx ''U1'' ?p)) = 200" by simp
  ultimately show ?thesis using run by (intro exI conjI)
qed

text \<open>Kicking an account by another spelling of its id is answered with 200, and its sessions stay.\<close>

lemma kick_by_alias:
  "\<exists>w c' w'. d_state (w_db w) = [demo_account] \<and> sessions 1000 (server (w_redis w)) ''s1'' = Some (login_record demo_account ''j1'' ''abc'', 61000)
     \<and> Kick demo_deps (path_ctx ''U1'' (user_principal demo_admin ''s0'')) w = (c', w') \<and> Status c' = 200
     \<and> clock (w_redis w') = 1000 \<and> sessions 1000 (server (w_redis w')) ''s1'' = Some (login_record demo_account ''j1'' ''abc'', 61000)"
proof -
  obtain w :: "(keyspace, user list) world" where w: "w_db w = demo_db [demo_account]" "clock (w_redis w) = 1000" "faults (w_redis w) = []" "session_inv 1000 (server (w_redis w))"
    and t: "sessions 1000 (server (w_redis w)) = [''s1'' \<mapsto> (login_record demo_account ''j1'' ''abc'', 61000)]"
    by (rule demo_logged_in)
  obtain r where r: "SessionStore_DeleteUserSessions (ks_redis ks_cjson) (w_redis w) ''U1'' = (Inr (), r)"
    by (rule DeleteUserSessions_run [OF w(2-4)])
  have run: "Kick demo_deps (path_ctx ''U1'' (user_principal demo_admin ''s0'')) w =
      (ctx_JSON 200 (OKWithMessage ''user sessions invalidated'') (path_ctx ''U1'' (user_principal demo_admin ''s0'')), w\<lparr>w_redis := r\<rparr>)"
    using r w(1) by (simp add: Kick_def userIDParam_def trim_u1 demo_find fold_u1 invalidateSessions_def InvalidateUserSessions_def)
  have rv: "clock r = 1000" "revoked 1000 ''U1'' (sessions 1000 (server (w_redis w))) (sessions 1000 (server r))"
    using demo_services.revokes [of "w_redis w" "''U1''" r] r w by simp_all
  have "sessions 1000 (server r) ''s1'' = Some (login_record demo_account ''j1'' ''abc'', 61000)"
    by (rule revoked_others [OF rv(2)]) (simp_all add: t)
  then show ?thesis using run w(1) t rv(1)
    by (intro exI [of _ w], intro exI [of _ "ctx_JSON 200 (OKWithMessage ''user sessions invalidated'') (path_ctx ''U1'' (user_principal demo_admin ''s0''))"],
        intro exI [of _ "w\<lparr>w_redis := r\<rparr>"]) simp
qed

section \<open>Listing, changing, creating\<close>

definition first_page :: user_list_query where
  "first_page = \<lparr>q_Page = 1, q_PageSize = 10, q_Email = [], q_Role = [], q_Active = None\<rparr>"

theorem list_answer_witness:
  "\<exists>b. fst (List demo_deps (BindOk first_page) (1000 * millisecond) (new_ctx (demo_request [])) demo_world) =
     ctx_JSON 200 (OKWithPageData [(ToUser demo_account)\<lparr>d_Online := b\<rparr>] 1 1 10) (new_ctx (demo_request []))"
proof -
  have t: "TrimSpace [] = []" by (simp add: TrimSpace_ascii)
  have 1: "xs = [demo_account]" if "newest_first [demo_account] xs" for xs
    using that by (simp add: newest_first_def)
  obtain xs on where "newest_first [demo_account] xs"
    "fst (List demo_deps (BindOk first_page) (1000 * millisecond) (new_ctx (demo_request [])) demo_world) =
        ctx_JSON 200 (OKWithPageData (map (\<lambda>u. (ToUser u)\<lparr>d_Online := on (ID u)\<rparr>) (take 10 (drop 0 xs))) (int (length xs)) 1 10) (new_ctx (demo_request []))"
    using list_answer [OF demo_services.services_axioms, of demo_world "1000 * millisecond" first_page "new_ctx (demo_request [])"]
      session_inv_empty [of 1000] demo_accounts_ok
    by (auto simp: first_page_def t unix_milli_def listed_def list_conds_def)
  then show ?thesis using 1 [of xs] by (intro exI [of _ "on ''u1''"]) simp
qed

definition new_remark :: update_user_command where
  "new_remark = \<lparr>uu_Email = None, uu_Remark = Some ''x'', uu_Password = None, uu_Role = None\<rparr>"

lemma demo_account_renamed:
  "UpdateUser table_db (demo_db [demo_account]) (demo_account\<lparr>Remark := ''x'', UpdatedAt := n\<rparr>) =
     (Inr (demo_account\<lparr>Remark := ''x'', UpdatedAt := 0\<rparr>), demo_db [demo_account\<lparr>Remark := ''x'', UpdatedAt := 0\<rparr>])"
proof -
  let ?a = "demo_account\<lparr>Remark := ''x'', UpdatedAt := 0\<rparr>"
  have e: "demo_account\<lparr>Email := ''a@b.c'', Remark := ''x'', PasswordHash := CHR ''$'' # HashTokenHex ''secret'', Role := ''user'', UpdatedAt := 0\<rparr> = ?a"
    by (simp add: demo_account_def demo_user_def)
  have "row_ok ?a" using demo_accounts_ok by (simp add: table_ok_def row_ok_def pg_text_ascii)
  then have "db_Updates table_db [IdEq ''u1''] [SetEmail ''a@b.c'', SetRemark ''x'', SetPasswordHash (CHR ''$'' # HashTokenHex ''secret''), SetRole ''user'', SetUpdatedAt n]
      [demo_account] = (Inr 1, [?a])"
    by (simp add: table_db_def tb_Updates_def fold_u1 assigned_def e Let_def)
  then have "dcall (db_Updates table_db [IdEq ''u1''] [SetEmail ''a@b.c'', SetRemark ''x'', SetPasswordHash (CHR ''$'' # HashTokenHex ''secret''), SetRole ''user'', SetUpdatedAt n])
      (demo_db [demo_account]) = (Inr 1, demo_db [?a])"
    by (simp add: dcall_clean demo_db_def)
  then show ?thesis using demo_find [of "''u1''" ?a] by (simp add: UpdateUser_def fold_u1)
qed

theorem update_account_witness:
  "\<exists>w c' w' v. Update demo_deps (BindOk new_remark) [] 7 (path_ctx ''u1'' (user_principal demo_admin ''s0'')) w = (c', w')
     \<and> d_state (w_db w) = [demo_account] \<and> d_state (w_db w') = [v] \<and> Remark v = ''x'' \<and> PasswordHash v = PasswordHash demo_account"
proof -
  let ?c = "path_ctx ''u1'' (user_principal demo_admin ''s0'')" and ?a = "demo_account\<lparr>Remark := ''x'', UpdatedAt := 0\<rparr>"
  obtain w :: "(keyspace, user list) world" where w: "w_db w = demo_db [demo_account]" "clock (w_redis w) = 1000" "faults (w_redis w) = []" "session_inv 1000 (server (w_redis w))"
    by (rule demo_logged_in)
  obtain r where r: "SessionStore_DeleteUserSessions (ks_redis ks_cjson) (w_redis w) ''u1'' = (Inr (), r)"
    by (rule DeleteUserSessions_run [OF w(2-4)])
  have tx: "TrimSpace ''x'' = ''x''" by (simp add: TrimSpace_ascii IsSpace_def)
  have run: "Update demo_deps (BindOk new_remark) [] 7 ?c w = (ctx_JSON 200 (OKWithData (User_data (ToUser ?a))) ?c, \<lparr>w_redis = r, w_db = demo_db [?a]\<rparr>)"
    using r w(1)
    by (simp add: Update_def userIDParam_def trim_u1 tx demo_find fold_u1 invalidateSessions_def InvalidateUserSessions_def
        new_remark_def UpdateUserCommand_Empty_def update_fields_def update_role_def demo_account_renamed)
  have inv: "session_inv (clock (w_redis w)) (server (w_redis w))" using w by simp
  obtain u v where "u \<in> set [demo_account]" "d_state (w_db \<lparr>w_redis = r, w_db = demo_db [?a]\<rparr>) = map (\<lambda>r. if ID r = ID u then v else r) [demo_account]"
    "Remark v = ''x''" "PasswordHash v = PasswordHash u"
    using update_account [OF demo_services.services_axioms inv _ run _ refl] w(1) demo_accounts_ok by (auto simp: new_remark_def tx)
  then show ?thesis using run w(1)
    by (intro exI [of _ w] exI conjI) (rule run, simp_all)
qed

definition new_account :: create_user_command where
  "new_account = \<lparr>cu_Email = ''a@b.c'', cu_Remark = ''r'', cu_Password = ''password'', cu_Role = ''user'', cu_Active = None\<rparr>"

theorem created_account_logs_in_witness:
  "\<exists>c' w'. Create demo_deps (BindOk new_account) [] ''u1'' 5 (new_ctx (demo_request [])) (demo_world\<lparr>w_db := demo_db []\<rparr>) = (c', w') \<and> Status c' = 201
     \<and> Status (fst (Login demo_deps demo_auth (BindOk (demo_login\<lparr>l_Password := ''password''\<rparr>)) demo_draws (new_ctx (demo_request [])) w')) = 200"
proof -
  let ?u = "demo_account\<lparr>PasswordHash := CHR ''$'' # HashTokenHex ''password''\<rparr>" and ?c = "new_ctx (demo_request [])"
  have n: "ToLower demo_unicode (TrimSpace ''a@b.c'') = ''a@b.c''" using demo_email by (simp add: normalizeEmail_def)
  have t: "TrimSpace ''r'' = ''r''" by (simp add: TrimSpace_ascii IsSpace_def)
  have u: "?u = \<lparr>ID = ''u1'', Email = ''a@b.c'', Remark = ''r'', PasswordHash = CHR ''$'' # HashTokenHex ''password'', Active = True, Role = ''user'', CreatedAt = 5, UpdatedAt = 5\<rparr>"
    by (simp add: demo_account_def demo_user_def)
  have "row_ok ?u" using demo_accounts_ok by (simp add: table_ok_def row_ok_def pg_text_ascii HashTokenHex_shape HashTokenHex_not_zero)
  then have cr: "CreateUser table_db (demo_db []) ?u = (Inr ?u, demo_db [?u])"
    by (simp add: CreateUser_def dcall_clean demo_db_def table_db_def tb_Create_def fold_u1)
  have v: "Valid ''user''" by (simp add: Valid_def RoleUser_def)
  have run: "Create demo_deps (BindOk new_account) [] ''u1'' 5 ?c (demo_world\<lparr>w_db := demo_db []\<rparr>) =
      (ctx_JSON 201 (OKWithData (User_data (ToUser ?u))) ?c, demo_world\<lparr>w_db := demo_db [?u]\<rparr>)"
    using cr unfolding u by (simp add: Create_def new_account_def v n t HashPassword_def plain_bcrypt_def Let_def)
  have jwt: "\<forall>uid. Manager_Issue plain_jwt (tokens demo_auth) (dr_now_issue demo_draws) uid (dr_sessionID demo_draws) (dr_accessJTI demo_draws) \<noteq> None"
    by (simp add: Manager_Issue_def plain_jwt_def)
  have "Status (fst (Login demo_deps demo_auth (BindOk (demo_login\<lparr>l_Password := ''password''\<rparr>)) demo_draws ?c (demo_world\<lparr>w_db := demo_db [?u]\<rparr>))) = 200"
    using created_account_logs_in [OF demo_services.services_axioms _ _ _ _ run _ _ no_captcha _ _ _ _ _ _, of demo_auth 60 demo_draws "base64_RawURL (replicate 32 7)" "demo_login\<lparr>l_Password := ''password''\<rparr>" ?c]
      session_inv_empty [of 1000] demo_good_draws demo_email jwt
    by (simp add: demo_login_def new_account_def table_ok_def)
  then show ?thesis using run by (intro exI conjI) (rule run, simp_all)
qed

end
