(* ===== verification/Server.thy ===== *)
theory Server
  imports UserService Services
begin

text \<open>
  \<open>internal/server.go\<close>, \<open>internal/router\<close>: the gin engine with its global middleware, the
  health routes and the route table, and how a request runs through them. Which route gin
  picks for a method and a path is an argument \<open>pick\<close> with the contract of the locale
  \<open>gin_router\<close>.
\<close>

section \<open>The engine\<close>

type_synonym 'w middleware = "'w handler \<Rightarrow> 'w handler"

record 'w route =
  rt_method :: string
  rt_path :: string
  rt_chain :: "'w middleware list"
  rt_handler :: "'w handler"

record 'w engine =
  e_use :: "'w middleware list"
  e_no_route :: "'w handler"
  e_method_not_allowed :: bool
  e_no_method :: "'w handler"
  e_routes :: "'w route list"

record 'w router_group =
  g_path :: string
  g_chain :: "'w middleware list"

text \<open>\<open>Group\<close> and the route methods: paths are joined (all of them are clean and start with a
  slash), the group's handlers come before the route's.\<close>

definition join_paths :: "string \<Rightarrow> string \<Rightarrow> string" where
  "join_paths a r = (if r = [] then a else if a = ''/'' then r else a @ r)"

definition Group :: "'w router_group \<Rightarrow> string \<Rightarrow> 'w middleware list \<Rightarrow> 'w router_group" where
  "Group g path mws = \<lparr>g_path = join_paths (g_path g) path, g_chain = g_chain g @ mws\<rparr>"

definition on :: "'w router_group \<Rightarrow> string \<Rightarrow> string \<Rightarrow> 'w middleware list \<Rightarrow> 'w handler \<Rightarrow> 'w route" where
  "on g m path mws h = \<lparr>rt_method = m, rt_path = join_paths (g_path g) path, rt_chain = g_chain g @ mws, rt_handler = h\<rparr>"

definition run_chain :: "'w middleware list \<Rightarrow> 'w handler \<Rightarrow> 'w handler" where
  "run_chain mws h = foldr (\<lambda>m next. m next) mws h"

section \<open>What one request brings along\<close>

record inputs =
  in_request_id :: string
  in_now :: instant
  in_db_handle :: "string option"
  in_ping_db :: "string option"
  in_ping_redis :: "string option"
  in_seed :: nat
  in_captcha_id :: string
  in_draws :: draws
  in_login :: "login_command bind"
  in_list :: "user_list_query bind"
  in_create :: "create_user_command bind"
  in_update :: "update_user_command bind"
  in_active :: "set_user_active_command bind"
  in_salt :: string
  in_user_id :: string

section \<open>router/auth.go, router/user.go\<close>

definition AuthRouter_Register ::
    "('r, 'd) deps \<Rightarrow> AuthService \<Rightarrow> (string \<Rightarrow> uri option) \<Rightarrow> string list \<Rightarrow> inputs \<Rightarrow>
     ('r, 'd) world router_group \<Rightarrow> ('r, 'd) world route list option" where
  "AuthRouter_Register X s parse_uri allowedOrigins n v1 =
     (let public = Group v1 ''/auth'' []; trustedOrigin = RequireAllowedOrigin parse_uri allowedOrigins in
      case Required (Manager_Parse (x_jwt X) (tokens s) (in_now n)) (session_reader X) [RoleAdmin, RoleUser] of
        None \<Rightarrow> None
      | Some required \<Rightarrow> Some
          [on public ''GET'' ''/captcha'' [] (returns (Captcha_handler X s (in_seed n) (in_captcha_id n))),
           on public ''POST'' ''/login'' [] (returns (Login X s (in_login n) (in_draws n))),
           on public ''POST'' ''/refresh'' [trustedOrigin] (returns (Refresh X s (in_draws n))),
           on public ''POST'' ''/logout'' [trustedOrigin] (returns (Logout X s)),
           on public ''GET'' ''/me'' [required] (returns Me)])"

definition UserRouter_Register ::
    "('r, 'd) deps \<Rightarrow> AuthService \<Rightarrow> inputs \<Rightarrow> ('r, 'd) world router_group \<Rightarrow> ('r, 'd) world route list option" where
  "UserRouter_Register X s n v1 =
     (case Required (Manager_Parse (x_jwt X) (tokens s) (in_now n)) (session_reader X) [RoleAdmin] of
        None \<Rightarrow> None
      | Some required \<Rightarrow>
          (let users = Group v1 ''/users'' [required] in Some
          [on users ''GET'' [] [] (returns (UserService.List X (in_list n) (in_now n))),
           on users ''POST'' [] [] (returns (Create X (in_create n) (in_salt n) (in_user_id n) (in_now n))),
           on users ''GET'' ''/:id'' [] (returns (UserService.Get X (in_now n))),
           on users ''PATCH'' ''/:id'' [] (returns (Update X (in_update n) (in_salt n) (in_now n))),
           on users ''DELETE'' ''/:id'' [] (returns (Delete X)),
           on users ''PATCH'' ''/:id/status'' [] (returns (SetActive_handler X (in_active n))),
           on users ''POST'' ''/:id/kick'' [] (returns (Kick X))]))"

text \<open>
  \<open>registerRoutes\<close> and \<open>readiness\<close> of \<open>pkg/app/app.go\<close>, with \<open>PingPostgres\<close> and \<open>PingRedis\<close>
  (\<open>pkg/component\<close>) on the outcomes of the drivers' calls.
\<close>

definition PingPostgres :: "string option \<Rightarrow> string option \<Rightarrow> string option" where
  "PingPostgres handle ping =
     (case handle of
        Some e \<Rightarrow> Some (''get PostgreSQL handle: '' @ e)
      | None \<Rightarrow> (case ping of Some e \<Rightarrow> Some (''ping PostgreSQL: '' @ e) | None \<Rightarrow> None))"

definition PingRedis :: "string option \<Rightarrow> string option" where
  "PingRedis ping = (case ping of Some e \<Rightarrow> Some (''ping Redis: '' @ e) | None \<Rightarrow> None)"

definition readiness :: "inputs \<Rightarrow> string option" where
  "readiness n =
     (case PingPostgres (in_db_handle n) (in_ping_db n) of
        Some e \<Rightarrow> Some e
      | None \<Rightarrow> (case PingRedis (in_ping_redis n) of Some e \<Rightarrow> Some e | None \<Rightarrow> None))"

definition registerRoutes ::
    "('r, 'd) deps \<Rightarrow> AuthService \<Rightarrow> (string \<Rightarrow> uri option) \<Rightarrow> string list \<Rightarrow> inputs \<Rightarrow>
     ('r, 'd) world router_group \<Rightarrow> ('r, 'd) world route list option" where
  "registerRoutes X s parse_uri allowedOrigins n v1 =
     (case AuthRouter_Register X s parse_uri allowedOrigins n v1 of
        None \<Rightarrow> None
      | Some rs \<Rightarrow> (case UserRouter_Register X s n v1 of None \<Rightarrow> None | Some rs' \<Rightarrow> Some (rs @ rs')))"

section \<open>server.go\<close>

definition readyz :: "string option \<Rightarrow> 'w handler" where
  "readyz ready =
     returns (\<lambda>c w. case ready of
        Some _ \<Rightarrow> (AbortWithStatusJSON 503 (FailWithCode ''service temporarily unavailable'' ''SERVICE_UNAVAILABLE'') c, w)
      | None \<Rightarrow> (ctx_JSON 200 (OKWithMessage ''ready'') c, w))"

definition NewServer ::
    "ServerConfig \<Rightarrow> string list \<Rightarrow> string option \<Rightarrow> ('w router_group \<Rightarrow> 'w route list option) \<Rightarrow> string \<Rightarrow> 'w engine option" where
  "NewServer cfg allowedOrigins ready register new_uuid =
     (let root = \<lparr>g_path = ''/'', g_chain = []\<rparr> in
      case register (Group root ''/api/v1'' []) of
        None \<Rightarrow> None
      | Some rs \<Rightarrow> Some
          \<lparr>e_use = [RequestID new_uuid, AccessLogger, Recovery, CORS allowedOrigins, BodyLimit (MaxRequestBodyBytes cfg)],
           e_no_route = returns (\<lambda>c w. (AbortWithStatusJSON 404 (FailWithCode ''route not found'' ''ROUTE_NOT_FOUND'') c, w)),
           e_method_not_allowed = True,
           e_no_method = returns (\<lambda>c w. (AbortWithStatusJSON 405 (FailWithCode ''method not allowed'' ''METHOD_NOT_ALLOWED'') c, w)),
           e_routes =
             [on root ''GET'' ''/healthz'' [] (returns (\<lambda>c w. (ctx_JSON 200 (OKWithMessage ''ok'') c, w))),
              on root ''GET'' ''/readyz'' [] (readyz ready)] @ rs\<rparr>)"

text \<open>The server \<open>New\<close> in \<open>pkg/app/app.go\<close> builds, as one request meets it.\<close>

definition app_server ::
    "('r, 'd) deps \<Rightarrow> AuthService \<Rightarrow> (string \<Rightarrow> uri option) \<Rightarrow> Config \<Rightarrow> inputs \<Rightarrow> ('r, 'd) world engine option" where
  "app_server X s parse_uri cfg n =
     NewServer (Config.Server cfg) (AllowedOrigins (Auth cfg)) (readiness n)
       (registerRoutes X s parse_uri (AllowedOrigins (Auth cfg)) n) (in_request_id n)"

section \<open>Serving a request\<close>

text \<open>
  gin's choice for a method and a path: a route with the value of its path parameter, a
  redirect to the path with or without a final slash, no route for this method but for
  another one, or none. Redirects are answered before any middleware.
\<close>

datatype pick = Route nat string | Redirect int string | WrongMethod | NoMatch

fun segments :: "string \<Rightarrow> string \<Rightarrow> string list" where
  "segments cur [] = [cur]"
| "segments cur (c # cs) = (if c = CHR ''/'' then cur # segments [] cs else segments (cur @ [c]) cs)"

fun match_segments :: "string list \<Rightarrow> string list \<Rightarrow> string \<Rightarrow> string option" where
  "match_segments [] [] v = Some v"
| "match_segments (a # as) (b # bs) v =
     (if take 1 a = '':'' then (if b = [] then None else match_segments as bs b)
      else if a = b then match_segments as bs v else None)"
| "match_segments _ _ v = None"

definition match_path :: "string \<Rightarrow> string \<Rightarrow> string option" where
  "match_path pattern path = match_segments (segments [] pattern) (segments [] path) []"

definition serve ::
    "((string \<times> string) list \<Rightarrow> string \<Rightarrow> string \<Rightarrow> pick) \<Rightarrow> 'w engine \<Rightarrow> request \<Rightarrow> 'w \<Rightarrow> ctx \<times> 'w \<times> string option" where
  "serve pick E r w =
     (case pick (map (\<lambda>t. (rt_method t, rt_path t)) (e_routes E)) (rq_Method r) (rq_Path r) of
        Route i v \<Rightarrow> run_chain (e_use E @ rt_chain (e_routes E ! i)) (rt_handler (e_routes E ! i)) (new_ctx (r\<lparr>rq_ID := v\<rparr>)) w
      | Redirect status location \<Rightarrow>
          ((new_ctx r)\<lparr>Status := status, Written := True, OutHeader := [''Location'' \<mapsto> location]\<rparr>, w, None)
      | WrongMethod \<Rightarrow> run_chain (e_use E) (if e_method_not_allowed E then e_no_method E else e_no_route E) (new_ctx r) w
      | NoMatch \<Rightarrow> run_chain (e_use E) (e_no_route E) (new_ctx r) w)"

locale gin_router =
  fixes pick :: "(string \<times> string) list \<Rightarrow> string \<Rightarrow> string \<Rightarrow> pick"
  assumes picked: "pick ms m p = Route i v \<Longrightarrow> i < length ms \<and> fst (ms ! i) = m \<and> match_path (snd (ms ! i)) p = Some v"
    and matched: "i < length ms \<Longrightarrow> fst (ms ! i) = m \<Longrightarrow> match_path (snd (ms ! i)) p \<noteq> None \<Longrightarrow> \<exists>j v. pick ms m p = Route j v"
    and redirects: "pick ms m p = Redirect st l \<Longrightarrow> st = 301 \<or> st = 307"
    and other_method: "pick ms m p = WrongMethod \<Longrightarrow> \<exists>i < length ms. fst (ms ! i) \<noteq> m \<and> match_path (snd (ms ! i)) p \<noteq> None"
    and absent: "pick ms m p = NoMatch \<Longrightarrow> i < length ms \<Longrightarrow> match_path (snd (ms ! i)) p = None"

text \<open>A matcher that tries the routes in their order.\<close>

definition first_match :: "(string \<times> string) list \<Rightarrow> string \<Rightarrow> string \<Rightarrow> pick" where
  "first_match ms m p =
     (case filter (\<lambda>i. fst (ms ! i) = m \<and> match_path (snd (ms ! i)) p \<noteq> None) [0..<length ms] of
        i # _ \<Rightarrow> Route i (the (match_path (snd (ms ! i)) p))
      | [] \<Rightarrow> if list_ex (\<lambda>q. match_path (snd q) p \<noteq> None) ms then WrongMethod else NoMatch)"

lemma first_match_cases:
  obtains (hit) i where "i < length ms" "fst (ms ! i) = m" "match_path (snd (ms ! i)) p \<noteq> None"
      "first_match ms m p = Route i (the (match_path (snd (ms ! i)) p))"
  | (other) i where "i < length ms" "fst (ms ! i) \<noteq> m" "match_path (snd (ms ! i)) p \<noteq> None" "first_match ms m p = WrongMethod"
      "\<forall>j < length ms. fst (ms ! j) = m \<longrightarrow> match_path (snd (ms ! j)) p = None"
  | (miss) "\<forall>j < length ms. match_path (snd (ms ! j)) p = None" "first_match ms m p = NoMatch"
proof (cases "filter (\<lambda>i. fst (ms ! i) = m \<and> match_path (snd (ms ! i)) p \<noteq> None) [0..<length ms]")
  case (Cons i js)
  show ?thesis using hd_filter_mem [OF Cons] Cons by (intro hit [of i]) (auto simp: first_match_def)
next
  case Nil
  then have n: "\<forall>j < length ms. fst (ms ! j) = m \<longrightarrow> match_path (snd (ms ! j)) p = None" by (auto simp: filter_empty_conv)
  show ?thesis
  proof (cases "list_ex (\<lambda>q. match_path (snd q) p \<noteq> None) ms")
    case True
    then obtain i where i: "i < length ms" "match_path (snd (ms ! i)) p \<noteq> None" unfolding list_ex_length by blast
    then show ?thesis using n Nil True by (intro other [OF i(1)]) (auto simp: first_match_def)
  next
    case False
    then show ?thesis using Nil by (intro miss) (auto simp: first_match_def list_ex_length)
  qed
qed

interpretation first_match: gin_router first_match
proof unfold_locales
  fix ms :: "(string \<times> string) list" and m p v st l i
  show "i < length ms \<and> fst (ms ! i) = m \<and> match_path (snd (ms ! i)) p = Some v" if "first_match ms m p = Route i v"
    using that by (cases rule: first_match_cases [of ms m p]) auto
  show "\<exists>j v. first_match ms m p = Route j v" if "i < length ms" "fst (ms ! i) = m" "match_path (snd (ms ! i)) p \<noteq> None"
    using that by (cases rule: first_match_cases [of ms m p]) auto
  show "st = 301 \<or> st = 307" if "first_match ms m p = Redirect st l"
    using that by (cases rule: first_match_cases [of ms m p]) auto
  show "\<exists>i < length ms. fst (ms ! i) \<noteq> m \<and> match_path (snd (ms ! i)) p \<noteq> None" if "first_match ms m p = WrongMethod"
    using that by (cases rule: first_match_cases [of ms m p]) auto
  show "match_path (snd (ms ! i)) p = None" if "first_match ms m p = NoMatch" "i < length ms"
    using that by (cases rule: first_match_cases [of ms m p]) auto
qed

end
