(* ===== verification/ServerProps.thy ===== *)
theory ServerProps
  imports Server
begin

text \<open>
  What holds of every request: it is answered and logged once, and the administration routes
  and the cookie routes are closed to those who may not use them.
\<close>

section \<open>Handlers that answer\<close>

text \<open>A handler answers (or panics), and leaves the request and the access log alone; a plain one
  also sets no header (cookies are kept apart).\<close>

definition proper :: "'w handler \<Rightarrow> bool" where
  "proper h \<longleftrightarrow> (\<forall>c w. case h c w of (c', w', p) \<Rightarrow>
     (p = None \<longrightarrow> Written c') \<and> AccessLog c' = AccessLog c \<and> Request c' = Request c)"

definition plain :: "'w handler \<Rightarrow> bool" where
  "plain h \<longleftrightarrow> (\<forall>c w. OutHeader (fst (h c w)) = OutHeader c)"

definition answered :: "ctx \<Rightarrow> ctx \<Rightarrow> bool" where
  "answered c c' \<longleftrightarrow> Written c' \<and> AccessLog c' = AccessLog c \<and> Request c' = Request c \<and> OutHeader c' = OutHeader c"

lemma log_simps [simp]:
  "AccessLog (ctx_JSON s r c) = AccessLog c" "AccessLog (AbortWithStatusJSON s r c) = AccessLog c"
  "AccessLog (abortJSON c s a b) = AccessLog c" "AccessLog (SetCookie ck c) = AccessLog c" "AccessLog (set_header k v c) = AccessLog c"
  "Request (set_header k v c) = Request c" "OutHeader (SetCookie ck c) = OutHeader c"
  by (simp_all add: ctx_JSON_def AbortWithStatusJSON_def abortJSON_def SetCookie_def set_header_def)

lemma answered_simps [simp]: "answered c (ctx_JSON s r c)" "answered c (AbortWithStatusJSON s r c)"
  "answered c (abortJSON c s a b)" "answered c (ctx_JSON s r (SetCookie k c))" "answered c (AbortWithStatusJSON s r (SetCookie k c))"
  by (simp_all add: answered_def)

lemma proper_returns: "(\<And>c w. answered c (fst (h c w))) \<Longrightarrow> proper (returns h)"
  by (auto simp: proper_def returns_def answered_def split: prod.splits) (metis fst_conv)+

lemma plain_returns: "(\<And>c w. answered c (fst (h c w))) \<Longrightarrow> plain (returns h)"
  by (simp add: plain_def returns_def answered_def case_prod_beta)

lemma answered_param: "userIDParam c = Inl c' \<Longrightarrow> answered c c'"
  by (auto simp: userIDParam_def Let_def split: if_splits)

lemma answered_self: "rejectSelfTarget c uid = Some c' \<Longrightarrow> answered c c'"
  by (auto simp: rejectSelfTarget_def split: option.splits if_splits)

lemma answered_invalidate: "invalidateSessions X c w uid = (Some c', w') \<Longrightarrow> answered c c'"
  by (auto simp: invalidateSessions_def split: prod.splits sum.splits)

lemma answered_online: "withOnline X now c w items = (Inl c', w') \<Longrightarrow> answered c c'"
  by (auto simp: withOnline_def split: prod.splits sum.splits if_splits)

lemma answered_fields: "update_fields X salt cmd c u = Inl c' \<Longrightarrow> answered c c'"
  by (auto simp: update_fields_def Let_def elim!: rbind_Inl split: option.splits if_splits)

lemma answered_role: "update_role cmd c uid u = Inl c' \<Longrightarrow> answered c c'"
  by (auto simp: update_role_def dest: answered_self split: option.splits if_splits)

lemma answered_captcha: "consumeLoginCaptcha X s c w i a = (ok, c', w') \<Longrightarrow> if ok then c' = c else answered c c'"
  by (auto simp: consumeLoginCaptcha_def Let_def split: option.splits prod.splits sum.splits if_splits)

lemmas answered_helpers = answered_param answered_self answered_invalidate answered_online answered_fields answered_role

lemma answered_auth:
  "answered c (fst (Captcha_handler X s seed cid c w))" "answered c (fst (login_issue X s dr u c w))"
  "answered c (fst (Refresh X s dr c w))" "answered c (fst (Logout X s c w))" "answered c (fst (Me c w'))"
  by (auto simp: Captcha_handler_def login_issue_def Refresh_def Logout_def Me_def setRefreshCookie_def clearRefreshCookie_def Let_def
      split: option.splits prod.splits sum.splits data_error.splits)

lemma answered_login: "answered c (fst (Login X s body dr c w))"
proof (cases body)
  case (BindOk req)
  obtain ok c1 w1 where k: "consumeLoginCaptcha X s c w (l_CaptchaID req) (l_Captcha req) = (ok, c1, w1)" using prod_cases3 by blast
  show ?thesis
    using answered_captcha [OF k] k BindOk answered_auth(2)
    by (cases ok) (auto simp: Login_def Let_def split: prod.splits sum.splits data_error.splits)
qed (simp_all add: Login_def)

lemma answered_users:
  "answered c (fst (UserService.List X q now c w))" "answered c (fst (Create X cb salt uid now c w))"
  "answered c (fst (UserService.Get X now c w))" "answered c (fst (Delete X c w))"
  "answered c (fst (SetActive_handler X ab c w))" "answered c (fst (Kick X c w))"
  by (auto simp: List_def Create_def UserService.Get_def Delete_def SetActive_handler_def Kick_def Let_def
      dest: answered_helpers split: bind.splits option.splits prod.splits sum.splits data_error.splits)

lemma answered_update: "answered c (fst (Update X ub salt now c w))"
proof -
  have f: "answered c c'" if "rbind (update_fields X salt cmd c u) (update_role cmd c uid) = Inl c'" for cmd u uid c'
    using that by (elim rbind_Inl) (auto dest: answered_helpers)
  show ?thesis
    by (auto simp: Update_def Let_def dest: f answered_helpers split: bind.splits option.splits prod.splits sum.splits data_error.splits)
qed

section \<open>Chains\<close>

lemma properI:
  assumes "\<And>c w c' w' p. h c w = (c', w', p) \<Longrightarrow> (p = None \<longrightarrow> Written c') \<and> AccessLog c' = AccessLog c \<and> Request c' = Request c"
  shows "proper h"
  using assms by (auto simp: proper_def split: prod.splits)

lemma properD:
  assumes "proper h" "h c w = (c', w', p)"
  shows "p = None \<Longrightarrow> Written c'" "AccessLog c' = AccessLog c" "Request c' = Request c"
  using assms unfolding proper_def by (metis (mono_tags, lifting) case_prod_conv)+

text \<open>A middleware that answers itself or passes the request on with its own marks keeps this.\<close>

lemma proper_pass:
  assumes "proper h" "\<And>c w. (\<exists>c' w'. m h c w = (c', w', None) \<and> Written c' \<and> AccessLog c' = AccessLog c \<and> Request c' = Request c)
      \<or> (\<exists>c1 w1. m h c w = h c1 w1 \<and> AccessLog c1 = AccessLog c \<and> Request c1 = Request c)"
  shows "proper (m h)"
proof (rule properI)
  fix c w c' w' p
  assume r: "m h c w = (c', w', p)"
  from assms(2) [of c w] show "(p = None \<longrightarrow> Written c') \<and> AccessLog c' = AccessLog c \<and> Request c' = Request c"
  proof (elim disjE exE conjE)
    fix c1 w1 assume "m h c w = h c1 w1" "AccessLog c1 = AccessLog c" "Request c1 = Request c"
    then show ?thesis using properD [OF assms(1)] r by metis
  qed (use r in simp)
qed

lemma proper_CORS: "proper h \<Longrightarrow> proper (CORS og h)"
  by (rule proper_pass) (auto simp: CORS_def Let_def answered_def AbortWithStatus_def)

lemma proper_BodyLimit: "proper h \<Longrightarrow> proper (BodyLimit l h)"
  by (rule proper_pass) (auto simp: BodyLimit_def)

lemma proper_Origin: "proper h \<Longrightarrow> proper (RequireAllowedOrigin pu og h)"
  by (rule proper_pass) (auto simp: RequireAllowedOrigin_def Let_def split: option.splits)

lemma proper_required:
  assumes "proper h"
  shows "proper (required_handler parse get roles h)"
proof (rule proper_pass [OF assms])
  fix c :: ctx and w
  show "(\<exists>c' w'. required_handler parse get roles h c w = (c', w', None) \<and> Written c' \<and> AccessLog c' = AccessLog c \<and> Request c' = Request c)
      \<or> (\<exists>c1 w1. required_handler parse get roles h c w = h c1 w1 \<and> AccessLog c1 = AccessLog c \<and> Request c1 = Request c)"
    by (auto simp: required_handler_def Let_def answered_def split: sum.splits prod.splits data_error.splits)
qed

lemma plain_gates:
  assumes "plain h"
  shows "plain (BodyLimit l h)" "plain (RequireAllowedOrigin pu og h)" "plain (required_handler parse get roles h)"
  using assms
  by (auto simp: plain_def BodyLimit_def RequireAllowedOrigin_def required_handler_def Let_def split: option.splits sum.splits prod.splits data_error.splits)

text \<open>The routes of the server, as they stand after registration.\<close>

abbreviation required_roles where
  "required_roles X s n roles \<equiv> required_handler (Manager_Parse (x_jwt X) (tokens s) (in_now n)) (session_reader X) roles"

lemma routes_eq:
  "registerRoutes X s pu og n \<lparr>g_path = ''/api/v1'', g_chain = []\<rparr> = Some
    [\<lparr>rt_method = ''GET'', rt_path = ''/api/v1/auth/captcha'', rt_chain = [], rt_handler = returns (Captcha_handler X s (in_seed n) (in_captcha_id n))\<rparr>,
     \<lparr>rt_method = ''POST'', rt_path = ''/api/v1/auth/login'', rt_chain = [], rt_handler = returns (Login X s (in_login n) (in_draws n))\<rparr>,
     \<lparr>rt_method = ''POST'', rt_path = ''/api/v1/auth/refresh'', rt_chain = [RequireAllowedOrigin pu og], rt_handler = returns (Refresh X s (in_draws n))\<rparr>,
     \<lparr>rt_method = ''POST'', rt_path = ''/api/v1/auth/logout'', rt_chain = [RequireAllowedOrigin pu og], rt_handler = returns (Logout X s)\<rparr>,
     \<lparr>rt_method = ''GET'', rt_path = ''/api/v1/auth/me'', rt_chain = [required_roles X s n {RoleAdmin, RoleUser}], rt_handler = returns Me\<rparr>,
     \<lparr>rt_method = ''GET'', rt_path = ''/api/v1/users'', rt_chain = [required_roles X s n {RoleAdmin}], rt_handler = returns (UserService.List X (in_list n) (in_now n))\<rparr>,
     \<lparr>rt_method = ''POST'', rt_path = ''/api/v1/users'', rt_chain = [required_roles X s n {RoleAdmin}],
      rt_handler = returns (Create X (in_create n) (in_salt n) (in_user_id n) (in_now n))\<rparr>,
     \<lparr>rt_method = ''GET'', rt_path = ''/api/v1/users/:id'', rt_chain = [required_roles X s n {RoleAdmin}], rt_handler = returns (UserService.Get X (in_now n))\<rparr>,
     \<lparr>rt_method = ''PATCH'', rt_path = ''/api/v1/users/:id'', rt_chain = [required_roles X s n {RoleAdmin}],
      rt_handler = returns (Update X (in_update n) (in_salt n) (in_now n))\<rparr>,
     \<lparr>rt_method = ''DELETE'', rt_path = ''/api/v1/users/:id'', rt_chain = [required_roles X s n {RoleAdmin}], rt_handler = returns (Delete X)\<rparr>,
     \<lparr>rt_method = ''PATCH'', rt_path = ''/api/v1/users/:id/status'', rt_chain = [required_roles X s n {RoleAdmin}],
      rt_handler = returns (SetActive_handler X (in_active n))\<rparr>,
     \<lparr>rt_method = ''POST'', rt_path = ''/api/v1/users/:id/kick'', rt_chain = [required_roles X s n {RoleAdmin}], rt_handler = returns (Kick X)\<rparr>]"
  by (simp add: registerRoutes_def AuthRouter_Register_def UserRouter_Register_def Required_eq Group_def on_def join_paths_def Let_def)

lemma run_chain_simps [simp]:
  "run_chain [] h = h" "run_chain (m # ms) h = m (run_chain ms h)" "run_chain (xs @ ys) h = run_chain xs (run_chain ys h)"
  by (simp_all add: run_chain_def)

lemma app_server_parts:
  assumes "app_server X s pu cfg n = Some E"
  shows "e_use E = [RequestID (in_request_id n), AccessLogger, Recovery, CORS (AllowedOrigins (Auth cfg)), BodyLimit (MaxRequestBodyBytes (Config.Server cfg))]"
    and "e_no_route E = returns (\<lambda>c w. (AbortWithStatusJSON 404 (FailWithCode ''route not found'' ''ROUTE_NOT_FOUND'') c, w))"
    and "e_method_not_allowed E"
    and "e_no_method E = returns (\<lambda>c w. (AbortWithStatusJSON 405 (FailWithCode ''method not allowed'' ''METHOD_NOT_ALLOWED'') c, w))"
    and "\<exists>rs. registerRoutes X s pu (AllowedOrigins (Auth cfg)) n \<lparr>g_path = ''/api/v1'', g_chain = []\<rparr> = Some rs
      \<and> e_routes E = [\<lparr>rt_method = ''GET'', rt_path = ''/healthz'', rt_chain = [], rt_handler = returns (\<lambda>c w. (ctx_JSON 200 (OKWithMessage ''ok'') c, w))\<rparr>,
          \<lparr>rt_method = ''GET'', rt_path = ''/readyz'', rt_chain = [], rt_handler = readyz (readiness n)\<rparr>] @ rs"
proof -
  have g: "Group \<lparr>g_path = ''/'', g_chain = []\<rparr> ''/api/v1'' [] = \<lparr>g_path = ''/api/v1'', g_chain = []\<rparr>"
    by (simp add: Group_def join_paths_def)
  show "e_use E = [RequestID (in_request_id n), AccessLogger, Recovery, CORS (AllowedOrigins (Auth cfg)), BodyLimit (MaxRequestBodyBytes (Config.Server cfg))]"
    "e_no_route E = returns (\<lambda>c w. (AbortWithStatusJSON 404 (FailWithCode ''route not found'' ''ROUTE_NOT_FOUND'') c, w))"
    "e_method_not_allowed E"
    "e_no_method E = returns (\<lambda>c w. (AbortWithStatusJSON 405 (FailWithCode ''method not allowed'' ''METHOD_NOT_ALLOWED'') c, w))"
    using assms unfolding app_server_def NewServer_def Let_def g by (auto split: option.splits)
  show "\<exists>rs. registerRoutes X s pu (AllowedOrigins (Auth cfg)) n \<lparr>g_path = ''/api/v1'', g_chain = []\<rparr> = Some rs
      \<and> e_routes E = [\<lparr>rt_method = ''GET'', rt_path = ''/healthz'', rt_chain = [], rt_handler = returns (\<lambda>c w. (ctx_JSON 200 (OKWithMessage ''ok'') c, w))\<rparr>,
          \<lparr>rt_method = ''GET'', rt_path = ''/readyz'', rt_chain = [], rt_handler = readyz (readiness n)\<rparr>] @ rs"
    using assms unfolding app_server_def NewServer_def Let_def g by (auto simp: on_def join_paths_def split: option.splits)
qed

lemma answered_route: "(\<And>c w. answered c (fst (h c w))) \<Longrightarrow> proper (returns h) \<and> plain (returns h)"
  using proper_returns plain_returns by blast

lemma health_routes:
  "proper (readyz x)" "plain (readyz x)" "proper (returns (\<lambda>c w. (ctx_JSON 200 m c, w)))" "plain (returns (\<lambda>c w. (ctx_JSON 200 m c, w)))"
  unfolding readyz_def by ((rule proper_returns plain_returns, simp split: option.splits)+)

lemma route_proper:
  assumes E: "app_server X s pu cfg n = Some E" and t: "t \<in> set (e_routes E)"
  shows "proper (run_chain (rt_chain t) (rt_handler t)) \<and> plain (run_chain (rt_chain t) (rt_handler t))"
proof -
  note r = answered_route
  note handlers = r [of "Captcha_handler X s (in_seed n) (in_captcha_id n)", OF answered_auth(1)]
    r [of "Refresh X s (in_draws n)", OF answered_auth(3)] r [of "Logout X s", OF answered_auth(4)]
    r [of Me, OF answered_auth(5)] r [of "Login X s (in_login n) (in_draws n)", OF answered_login]
    r [of "UserService.List X (in_list n) (in_now n)", OF answered_users(1)]
    r [of "Create X (in_create n) (in_salt n) (in_user_id n) (in_now n)", OF answered_users(2)]
    r [of "UserService.Get X (in_now n)", OF answered_users(3)] r [of "Delete X", OF answered_users(4)]
    r [of "SetActive_handler X (in_active n)", OF answered_users(5)] r [of "Kick X", OF answered_users(6)]
    r [of "Update X (in_update n) (in_salt n) (in_now n)", OF answered_update]
  show ?thesis
    using t app_server_parts(5) [OF E] handlers unfolding routes_eq
    by (auto intro: proper_required proper_Origin plain_gates simp: health_routes)
qed

text \<open>The entry the access log gets.\<close>

definition entry_of :: "ctx \<Rightarrow> access_entry" where
  "entry_of c = \<lparr>lg_request_id = request_id_key c, lg_method = rq_Method (Request c), lg_path = rq_Path (Request c), lg_status = Status c,
     lg_error = (if Status c \<ge> 500 \<and> Errors c \<noteq> [] then Some (last (Errors c)) else None)\<rparr>"

definition probe :: "string \<Rightarrow> bool" where
  "probe path \<longleftrightarrow> path = ''/healthz'' \<or> path = ''/readyz''"

lemma logged_once:
  assumes "proper h" "AccessLog c = []"
  shows "\<exists>c' w'. RequestID u (AccessLogger (Recovery h)) c w = (c', w', None) \<and> Written c' \<and> Request c' = Request c
    \<and> AccessLog c' = (if probe (rq_Path (Request c)) \<and> Status c' < 500 then [] else [entry_of c'])"
proof -
  let ?rid = "if validRequestID (GetHeader c ''X-Request-ID'') then GetHeader c ''X-Request-ID'' else u"
  let ?c = "set_header ''X-Request-ID'' ?rid (c\<lparr>request_id_key := ?rid\<rparr>)"
  have run: "RequestID u (AccessLogger (Recovery h)) c w = AccessLogger (Recovery h) ?c w"
    by (auto simp: RequestID_def Let_def)
  obtain c1 w1 p where h: "h ?c w = (c1, w1, p)" using prod_cases3 by blast
  have c: "AccessLog ?c = []" "Request ?c = Request c" using assms(2) by simp_all
  note k = properD [OF assms(1) h, unfolded c]
  let ?c2 = "if p \<noteq> None \<and> \<not> Written c1 then abortJSON c1 500 ''internal server error'' ''INTERNAL_ERROR'' else c1"
  have r: "Recovery h ?c w = (?c2, w1, None)" using h by (simp add: Recovery_def split: option.split)
  have "Written ?c2" "AccessLog ?c2 = []" "Request ?c2 = Request c" using k by auto
  then show ?thesis
    unfolding run by (auto simp: AccessLogger_def r probe_def entry_of_def Let_def simp del: abortJSON_simps)
qed

section \<open>Every request is answered\<close>

lemma every_request_answered_run:
  assumes G: "gin_router pick" and E: "app_server X s pu cfg n = Some E"
  shows "\<exists>c' w'. serve pick E r w = (c', w', None) \<and> Written c'
    \<and> (if \<exists>st l. pick (map (\<lambda>t. (rt_method t, rt_path t)) (e_routes E)) (rq_Method r) (rq_Path r) = Redirect st l then w' = w
       else AccessLog c' = (if probe (rq_Path r) \<and> Status c' < 500 then [] else [entry_of c']) \<and> lg_path (entry_of c') = rq_Path r)"
proof -
  let ?ms = "map (\<lambda>t. (rt_method t, rt_path t)) (e_routes E)"
  have h: "proper (e_no_route E)" "proper (e_no_method E)"
    unfolding app_server_parts(2,4) [OF E] by (rule proper_returns, simp)+
  have chain: "\<exists>c' w'. run_chain (e_use E) h (new_ctx r') w = (c', w', None) \<and> Written c'
      \<and> AccessLog c' = (if probe (rq_Path r) \<and> Status c' < 500 then [] else [entry_of c']) \<and> lg_path (entry_of c') = rq_Path r"
    if "proper h" "rq_Path r' = rq_Path r" for h r'
    using logged_once [OF proper_CORS [OF proper_BodyLimit [OF that(1)]], of "new_ctx r'"] that(2)
    by (fastforce simp: app_server_parts(1) [OF E] new_ctx_def entry_of_def)
  show ?thesis
  proof (cases "pick ?ms (rq_Method r) (rq_Path r)")
    case (Route i v)
    then have "i < length (e_routes E)" using gin_router.picked [OF G Route] by simp
    then have "proper (run_chain (rt_chain (e_routes E ! i)) (rt_handler (e_routes E ! i)))" using route_proper [OF E] nth_mem by blast
    from chain [OF this, of "r\<lparr>rq_ID := v\<rparr>"] show ?thesis by (simp add: serve_def Route)
  qed (use chain [OF h(1), of r] chain [OF h(2), of r] app_server_parts(3) [OF E] in \<open>simp_all add: serve_def\<close>)
qed

text \<open>
  C7 (liveness). Whatever a client sends and whatever the stores answer, the request is
  answered and no panic leaves the server; the access log gets exactly one entry for it, with
  the status that was sent, except for a redirect and for a health probe that did not fail.
\<close>

theorem every_request_answered:
  assumes G: "gin_router pick" and E: "app_server X s pu cfg n = Some E"
  shows "\<exists>c' w'. serve pick E r w = (c', w', None) \<and> Written c'
    \<and> (if \<exists>st l. pick (map (\<lambda>t. (rt_method t, rt_path t)) (e_routes E)) (rq_Method r) (rq_Path r) = Redirect st l then w' = w
       else AccessLog c' = (if probe (rq_Path r) \<and> Status c' < 500 then [] else [entry_of c']) \<and> lg_path (entry_of c') = rq_Path r)"
  using every_request_answered_run [OF G E, of r w] .

section \<open>Which route\<close>

lemma segments_lits:
  "segments [] ''/healthz'' = [[], ''healthz'']" "segments [] ''/readyz'' = [[], ''readyz'']"
  "segments [] ''/api/v1/auth/captcha'' = [[], ''api'', ''v1'', ''auth'', ''captcha'']"
  "segments [] ''/api/v1/auth/login'' = [[], ''api'', ''v1'', ''auth'', ''login'']"
  "segments [] ''/api/v1/auth/refresh'' = [[], ''api'', ''v1'', ''auth'', ''refresh'']"
  "segments [] ''/api/v1/auth/logout'' = [[], ''api'', ''v1'', ''auth'', ''logout'']"
  "segments [] ''/api/v1/auth/me'' = [[], ''api'', ''v1'', ''auth'', ''me'']"
  "segments [] ''/api/v1/users'' = [[], ''api'', ''v1'', ''users'']"
  "segments [] ''/api/v1/users/:id'' = [[], ''api'', ''v1'', ''users'', '':id'']"
  "segments [] ''/api/v1/users/:id/status'' = [[], ''api'', ''v1'', ''users'', '':id'', ''status'']"
  "segments [] ''/api/v1/users/:id/kick'' = [[], ''api'', ''v1'', ''users'', '':id'', ''kick'']"
  by simp_all

lemma match_Cons: "match_segments (a # as) bs v = Some u \<longleftrightarrow>
   (\<exists>b bs'. bs = b # bs' \<and> (if take 1 a = '':'' then b \<noteq> [] \<and> match_segments as bs' b = Some u else a = b \<and> match_segments as bs' v = Some u))"
  by (cases bs) auto

lemma match_Nil: "match_segments [] bs v = Some u \<longleftrightarrow> bs = [] \<and> u = v"
  by (cases bs) auto

text \<open>What the paths of the requests look like, pattern by pattern.\<close>

lemma match_shapes:
  "match_path ''/healthz'' p = Some u \<longleftrightarrow> segments [] p = [[], ''healthz''] \<and> u = []"
  "match_path ''/readyz'' p = Some u \<longleftrightarrow> segments [] p = [[], ''readyz''] \<and> u = []"
  "match_path ''/api/v1/auth/captcha'' p = Some u \<longleftrightarrow> segments [] p = [[], ''api'', ''v1'', ''auth'', ''captcha''] \<and> u = []"
  "match_path ''/api/v1/auth/login'' p = Some u \<longleftrightarrow> segments [] p = [[], ''api'', ''v1'', ''auth'', ''login''] \<and> u = []"
  "match_path ''/api/v1/auth/refresh'' p = Some u \<longleftrightarrow> segments [] p = [[], ''api'', ''v1'', ''auth'', ''refresh''] \<and> u = []"
  "match_path ''/api/v1/auth/logout'' p = Some u \<longleftrightarrow> segments [] p = [[], ''api'', ''v1'', ''auth'', ''logout''] \<and> u = []"
  "match_path ''/api/v1/auth/me'' p = Some u \<longleftrightarrow> segments [] p = [[], ''api'', ''v1'', ''auth'', ''me''] \<and> u = []"
  "match_path ''/api/v1/users'' p = Some u \<longleftrightarrow> segments [] p = [[], ''api'', ''v1'', ''users''] \<and> u = []"
  "match_path ''/api/v1/users/:id'' p = Some u \<longleftrightarrow> segments [] p = [[], ''api'', ''v1'', ''users'', u] \<and> u \<noteq> []"
  "match_path ''/api/v1/users/:id/status'' p = Some u \<longleftrightarrow> segments [] p = [[], ''api'', ''v1'', ''users'', u, ''status''] \<and> u \<noteq> []"
  "match_path ''/api/v1/users/:id/kick'' p = Some u \<longleftrightarrow> segments [] p = [[], ''api'', ''v1'', ''users'', u, ''kick''] \<and> u \<noteq> []"
  unfolding match_path_def segments_lits by (auto simp: match_Cons match_Nil)

definition table_of :: "'w engine \<Rightarrow> (string \<times> string) list" where
  "table_of E = map (\<lambda>t. (rt_method t, rt_path t)) (e_routes E)"

lemma table_eq:
  assumes "app_server X s pu cfg n = Some E"
  shows "table_of E = [(''GET'', ''/healthz''), (''GET'', ''/readyz''), (''GET'', ''/api/v1/auth/captcha''), (''POST'', ''/api/v1/auth/login''),
    (''POST'', ''/api/v1/auth/refresh''), (''POST'', ''/api/v1/auth/logout''), (''GET'', ''/api/v1/auth/me''), (''GET'', ''/api/v1/users''),
    (''POST'', ''/api/v1/users''), (''GET'', ''/api/v1/users/:id''), (''PATCH'', ''/api/v1/users/:id''), (''DELETE'', ''/api/v1/users/:id''),
    (''PATCH'', ''/api/v1/users/:id/status''), (''POST'', ''/api/v1/users/:id/kick'')]"
  using app_server_parts(5) [OF assms] unfolding routes_eq table_of_def by auto

lemma routes_apart:
  assumes "app_server X s pu cfg n = Some E" "a \<in> set (table_of E)" "b \<in> set (table_of E)" "fst a = fst b"
    and "match_path (snd a) p = Some u" "match_path (snd b) p = Some v"
  shows "a = b \<and> u = v"
  using assms(2-) unfolding table_eq [OF assms(1)] list.set
  by (elim insertE emptyE) (simp_all add: match_shapes)

lemma pick_route:
  assumes G: "gin_router pick" and E: "app_server X s pu cfg n = Some E" and q: "q \<in> set (table_of E)" "match_path (snd q) p = Some v"
  obtains i where "pick (table_of E) (fst q) p = Route i v" "i < length (e_routes E)" "table_of E ! i = q"
proof -
  obtain k where k: "k < length (table_of E)" "table_of E ! k = q" using q(1) by (auto simp: in_set_conv_nth)
  have "\<exists>i u. pick (table_of E) (fst q) p = Route i u" by (rule gin_router.matched [OF G k(1)]) (use k(2) q(2) in simp_all)
  then obtain i u where i: "pick (table_of E) (fst q) p = Route i u" by blast
  note f = gin_router.picked [OF G i]
  have "table_of E ! i = q \<and> u = v"
    by (rule routes_apart [OF E, of _ q p u v]) (use f q in \<open>auto simp: in_set_conv_nth\<close>)
  then show ?thesis using that i f by (auto simp: table_of_def)
qed

text \<open>
  C21 (equivalence). Which handler a request meets does not depend on gin's order of
  precedence: for any router that keeps the contract a request that matches a route is served
  as if the table were searched from the top.
\<close>

theorem routing_determined:
  assumes G: "gin_router pick" and E: "app_server X s pu cfg n = Some E"
    and m: "i < length (e_routes E)" "rt_method (e_routes E ! i) = rq_Method r" "match_path (rt_path (e_routes E ! i)) (rq_Path r) = Some v"
  shows "serve pick E r w = serve first_match E r w
    \<and> serve pick E r w = run_chain (e_use E @ rt_chain (e_routes E ! i)) (rt_handler (e_routes E ! i)) (new_ctx (r\<lparr>rq_ID := v\<rparr>)) w"
proof -
  have "table_of E ! i \<in> set (table_of E)" by (rule nth_mem) (simp add: table_of_def m(1))
  with m have q: "table_of E ! i \<in> set (table_of E)" "match_path (snd (table_of E ! i)) (rq_Path r) = Some v" "fst (table_of E ! i) = rq_Method r"
    by (simp_all add: table_of_def)
  have "distinct (table_of E)" unfolding table_eq [OF E] by simp
  then have one: "j = i" if "j < length (e_routes E)" "table_of E ! j = table_of E ! i" for j
    using that m(1) nth_eq_iff_index_eq [of "table_of E" j i] by (simp add: table_of_def)
  have "serve pk E r w = run_chain (e_use E @ rt_chain (e_routes E ! i)) (rt_handler (e_routes E ! i)) (new_ctx (r\<lparr>rq_ID := v\<rparr>)) w"
    if pk: "gin_router pk" for pk
  proof -
    obtain j where "pk (table_of E) (rq_Method r) (rq_Path r) = Route j v" "j < length (e_routes E)" "table_of E ! j = table_of E ! i"
      by (rule pick_route [OF pk E q(1,2)]) (simp add: q(3))
    then show ?thesis using one [of j] by (simp add: serve_def table_of_def)
  qed
  from this [OF G] this [OF first_match.gin_router_axioms] show ?thesis by simp
qed

section \<open>Requests that are refused\<close>

lemma chain_refuses:
  assumes h: "\<And>c2. Request c2 = Request c \<Longrightarrow> SetCookies c2 = SetCookies c \<Longrightarrow>
      \<exists>c1 w1. h c2 w = (c1, w1, None) \<and> P (Status c1) (SetCookies c1) w1"
    and pre: "rq_Method (Request c) = ''OPTIONS'' \<Longrightarrow> P 204 (SetCookies c) w" and big: "P 413 (SetCookies c) w"
  shows "\<exists>c' w'. RequestID u (AccessLogger (Recovery (CORS og (BodyLimit l h)))) c w = (c', w', None) \<and> P (Status c') (SetCookies c') w'"
proof -
  let ?in = "CORS og (BodyLimit l h)"
  let ?rid = "if validRequestID (GetHeader c ''X-Request-ID'') then GetHeader c ''X-Request-ID'' else u"
  let ?c = "set_header ''X-Request-ID'' ?rid (c\<lparr>request_id_key := ?rid\<rparr>)"
  have ck [simp]: "SetCookies (set_header k v d) = SetCookies d" for k v d by (simp add: set_header_def)
  have body: "\<exists>c1 w1. BodyLimit l h d w = (c1, w1, None) \<and> P (Status c1) (SetCookies c1) w1"
    if "Request d = Request c" "SetCookies d = SetCookies c" for d
    using h [of "d\<lparr>BodyReader := Some l\<rparr>"] that big by (auto simp: BodyLimit_def)
  have "\<exists>c1 w1. ?in d w = (c1, w1, None) \<and> P (Status c1) (SetCookies c1) w1"
    if "Request d = Request c" "SetCookies d = SetCookies c" for d
    using that pre body by (auto simp: CORS_def Let_def AbortWithStatus_def)
  from this [of ?c] obtain c1 w1 where r: "?in ?c w = (c1, w1, None)" "P (Status c1) (SetCookies c1) w1" by auto
  have "RequestID u (AccessLogger (Recovery ?in)) c w = AccessLogger (Recovery ?in) ?c w" by (auto simp: RequestID_def Let_def)
  then show ?thesis using r by (auto simp: AccessLogger_def Recovery_def Let_def)
qed

lemma required_refuses:
  assumes "\<not> (\<exists>p. admitted parse get roles (GetHeader c ''Authorization'') w p)"
  shows "\<exists>c1 w1. required_handler parse get roles h c w = (c1, w1, None) \<and> Status c1 \<in> {401, 403, 503} \<and> SetCookies c1 = SetCookies c
    \<and> (w1 = w \<or> (\<exists>sid. w1 = snd (get sid w)))"
proof (cases "\<exists>raw i. Fields (GetHeader c ''Authorization'') = [''Bearer'', raw] \<and> parse raw = Inr i")
  case True
  then obtain raw i where f: "Fields (GetHeader c ''Authorization'') = [''Bearer'', raw]" "parse raw = Inr i" by blast
  obtain x w1 where g: "get (ai_SessionID i) w = (x, w1)" by fastforce
  have w1: "w1 = w \<or> (\<exists>sid. w1 = snd (get sid w))" using g by (metis snd_conv)
  show ?thesis
  proof (cases x)
    case (Inl e)
    then show ?thesis using w1 f g by (cases e) (simp_all add: required_handler_def)
  next
    case (Inr s)
    have "\<not> (s_Active s \<and> Valid (s_Role s) \<and> s_UserID s = ai_UserID i \<and> s_AccessJTI s = ai_AccessJTI i \<and> s_Role s \<in> roles)"
      using assms f g Inr by (auto simp: admitted_def)
    then show ?thesis using w1 f g Inr by (auto simp: required_handler_def)
  qed
next
  case False
  then show ?thesis
    using two_parts [of "Fields (GetHeader c ''Authorization'')" "''Bearer''"]
    by (auto simp: required_handler_def Let_def split: sum.splits)
qed

lemma serve_refuses:
  assumes G: "gin_router pick" and E: "app_server X s pu cfg n = Some E"
    and h: "\<And>q v c2. q \<in> set (e_routes E) \<Longrightarrow> rt_method q = rq_Method r \<Longrightarrow> match_path (rt_path q) (rq_Path r) = Some v \<Longrightarrow>
      GetHeader c2 = rq_Header r \<Longrightarrow> SetCookies c2 = [] \<Longrightarrow>
      \<exists>c1 w1. run_chain (rt_chain q) (rt_handler q) c2 w = (c1, w1, None) \<and> P (Status c1) (SetCookies c1) w1"
    and P: "P 301 [] w" "P 307 [] w" "P 404 [] w" "P 405 [] w" "P 413 [] w" "rq_Method r = ''OPTIONS'' \<Longrightarrow> P 204 [] w"
  shows "\<exists>c' w'. serve pick E r w = (c', w', None) \<and> P (Status c') (SetCookies c') w'"
proof -
  have chain: "\<exists>c' w'. run_chain (e_use E) h (new_ctx r') w = (c', w', None) \<and> P (Status c') (SetCookies c') w'"
    if "\<And>c2. Request c2 = r' \<Longrightarrow> SetCookies c2 = [] \<Longrightarrow> \<exists>c1 w1. h c2 w = (c1, w1, None) \<and> P (Status c1) (SetCookies c1) w1"
      "rq_Method r' = rq_Method r" for h r'
    unfolding app_server_parts(1) [OF E] run_chain_simps
    by (rule chain_refuses) (use that P in \<open>simp_all add: new_ctx_def\<close>)
  have bare: "\<exists>c1 w1. returns (\<lambda>c w. (AbortWithStatusJSON st b c, w)) c2 w = (c1, w1, None) \<and> P (Status c1) (SetCookies c1) w1"
    if "SetCookies c2 = []" "P st [] w" for c2 st b
    using that by (simp add: returns_def)
  show ?thesis
  proof (cases "pick (table_of E) (rq_Method r) (rq_Path r)")
    case (Route i v)
    note k = gin_router.picked [OF G Route]
    let ?q = "e_routes E ! i"
    have i: "i < length (e_routes E)" "rt_method ?q = rq_Method r" "match_path (rt_path ?q) (rq_Path r) = Some v"
      using k by (auto simp: table_of_def)
    have "\<exists>c' w'. run_chain (e_use E) (run_chain (rt_chain ?q) (rt_handler ?q)) (new_ctx (r\<lparr>rq_ID := v\<rparr>)) w = (c', w', None) \<and> P (Status c') (SetCookies c') w'"
      by (rule chain) (auto intro!: h [OF nth_mem [OF i(1)] i(2,3)])
    then show ?thesis using Route by (simp add: serve_def table_of_def)
  next
    case (Redirect st l)
    then have "st = 301 \<or> st = 307" by (rule gin_router.redirects [OF G])
    then show ?thesis using P Redirect by (auto simp: serve_def table_of_def new_ctx_def)
  next
    case WrongMethod
    have "\<exists>c' w'. run_chain (e_use E) (e_no_method E) (new_ctx r) w = (c', w', None) \<and> P (Status c') (SetCookies c') w'"
      unfolding app_server_parts(4) [OF E] by (rule chain) (use bare P in simp_all)
    then show ?thesis using WrongMethod app_server_parts(3) [OF E] by (simp add: serve_def table_of_def)
  next
    case NoMatch
    have "\<exists>c' w'. run_chain (e_use E) (e_no_route E) (new_ctx r) w = (c', w', None) \<and> P (Status c') (SetCookies c') w'"
      unfolding app_server_parts(2) [OF E] by (rule chain) (use bare P in simp_all)
    then show ?thesis using NoMatch by (simp add: serve_def table_of_def)
  qed
qed

lemma route_cases:
  assumes "app_server X s pu cfg n = Some E" "q \<in> set (e_routes E)"
  shows "(rt_method q, rt_path q) \<in> set (table_of E)"
  using assms(2) by (auto simp: table_of_def)

text \<open>
  C6 (safety). The user administration is closed to everyone but administrators: a request
  below \<open>/api/v1/users\<close> that the gate does not admit as an administrator, whatever its method,
  body and the router's choice, changes neither the database nor the store, sets no cookie
  and is not answered with success.
\<close>

theorem administration_closed:
  assumes V: "services X ks rows uuid_in tm" and inv: "session_inv (clock (w_redis w)) (ks (server (w_redis w)))"
    and G: "gin_router pick" and E: "app_server X s pu cfg n = Some E"
    and path: "segments [] (rq_Path r) = [[], ''api'', ''v1'', ''users''] @ rest"
    and no: "\<not> (\<exists>p. passes X s (in_now n) {RoleAdmin} (rq_Header r ''Authorization'') w p)"
  shows "\<exists>c' w'. serve pick E r w = (c', w', None) \<and> Status c' \<in> {204, 301, 307, 401, 403, 404, 405, 413, 503} \<and> SetCookies c' = []
    \<and> w_db w' = w_db w \<and> ks (server (w_redis w')) = ks (server (w_redis w))"
proof -
  let ?P = "\<lambda>st ck w'. st \<in> {204, 301, 307, 401, 403, 404, 405, 413, 503} \<and> ck = [] \<and> w_db w' = w_db w \<and> ks (server (w_redis w')) = ks (server (w_redis w))"
  have S: "redis_server (x_redis X) ks" using V by (simp add: services_def)
  have quiet: "w_db w1 = w_db w \<and> ks (server (w_redis w1)) = ks (server (w_redis w))" if "w1 = w \<or> (\<exists>sid. w1 = snd (session_reader X sid w))" for w1
  proof -
    have "ks (server (snd (SessionStore_Get (x_redis X) (w_redis w) sid))) = ks (server (w_redis w))" for sid
      using redis_server.Get_view [OF S, of "w_redis w" sid] inv by (cases "SessionStore_Get (x_redis X) (w_redis w) sid") auto
    then have "w_db (snd (session_reader X sid w)) = w_db w \<and> ks (server (w_redis (snd (session_reader X sid w)))) = ks (server (w_redis w))" for sid
      by (simp add: session_reader_def case_prod_beta)
    then show ?thesis using that by auto
  qed
  have closed: "\<exists>c1 w1. required_roles X s n {RoleAdmin} h c2 w = (c1, w1, None) \<and> ?P (Status c1) (SetCookies c1) w1"
    if "GetHeader c2 = rq_Header r" "SetCookies c2 = []" for h c2
  proof -
    have "\<not> (\<exists>p. admitted (Manager_Parse (x_jwt X) (tokens s) (in_now n)) (session_reader X) {RoleAdmin} (GetHeader c2 ''Authorization'') w p)"
      using no that(1) unfolding passes_def by simp
    from required_refuses [OF this, of h] obtain c1 w1 where r: "required_roles X s n {RoleAdmin} h c2 w = (c1, w1, None)"
      "Status c1 \<in> {401, 403, 503}" "SetCookies c1 = SetCookies c2" "w1 = w \<or> (\<exists>sid. w1 = snd (session_reader X sid w))" by blast
    have "?P (Status c1) (SetCookies c1) w1" using quiet [OF r(4)] r(2,3) that(2) by auto
    then show ?thesis using r(1) by blast
  qed
  have gated: "rt_chain q = [required_roles X s n {RoleAdmin}]" if q: "q \<in> set (e_routes E)" "match_path (rt_path q) (rq_Path r) = Some v" for q v
    using q app_server_parts(5) [OF E] unfolding routes_eq by (auto simp: match_shapes path)
  have "\<exists>c' w'. serve pick E r w = (c', w', None) \<and> ?P (Status c') (SetCookies c') w'"
    by (rule serve_refuses [OF G E, where P = ?P]) (use closed in \<open>simp_all add: gated\<close>)
  then show ?thesis by blast
qed

text \<open>
  C19 (safety). A site that is not on the list cannot use the refresh cookie: a request to
  \<open>refresh\<close> or \<open>logout\<close> with a foreign \<open>Origin\<close> changes nothing, sets no cookie and is refused.
\<close>

theorem cookie_routes_same_site:
  assumes G: "gin_router pick" and E: "app_server X s pu cfg n = Some E"
    and r: "rq_Method r = ''POST''" "segments [] (rq_Path r) = [[], ''api'', ''v1'', ''auth'', last_part]" "last_part \<in> {''refresh'', ''logout''}"
    and og: "rq_Header r ''Origin'' \<noteq> []" "rq_Header r ''Origin'' \<notin> set (AllowedOrigins (Auth cfg))"
  shows "\<exists>c'. serve pick E r w = (c', w, None) \<and> Status c' \<in> {301, 307, 403, 404, 405, 413} \<and> SetCookies c' = []"
proof -
  let ?P = "\<lambda>st ck w'. st \<in> {301, 307, 403, 404, 405, 413} \<and> ck = [] \<and> w' = w"
  have gated: "rt_chain q = [RequireAllowedOrigin pu (AllowedOrigins (Auth cfg))]"
    if q: "q \<in> set (e_routes E)" "rt_method q = rq_Method r" "match_path (rt_path q) (rq_Path r) = Some v" for q v
    using q app_server_parts(5) [OF E] r unfolding routes_eq by (auto simp: match_shapes)
  have closed: "\<exists>c1 w1. RequireAllowedOrigin pu (AllowedOrigins (Auth cfg)) h c2 w = (c1, w1, None) \<and> ?P (Status c1) (SetCookies c1) w1"
    if "GetHeader c2 = rq_Header r" "SetCookies c2 = []" for h c2
    using og that by (auto simp: RequireAllowedOrigin_def originSet_def Let_def split: option.splits)
  have "\<exists>c' w'. serve pick E r w = (c', w', None) \<and> ?P (Status c') (SetCookies c') w'"
    by (rule serve_refuses [OF G E, where P = ?P]) (use closed r(1) in \<open>simp_all add: gated\<close>)
  then show ?thesis by blast
qed

section \<open>Other origins\<close>

definition granted :: "request \<Rightarrow> string list \<Rightarrow> string option" where
  "granted r origins = (if rq_Header r ''Origin'' \<noteq> [] \<and> rq_Header r ''Origin'' \<in> set origins then Some (rq_Header r ''Origin'') else None)"

lemma CORS_grants:
  assumes "plain h" "OutHeader c ''Access-Control-Allow-Origin'' = None" "CORS og h c w = (c', w', p)"
  shows "OutHeader c' ''Access-Control-Allow-Origin'' = granted (Request c) og
    \<and> (granted (Request c) og \<noteq> None \<and> rq_Method (Request c) = ''OPTIONS'' \<longrightarrow> Status c' = 204 \<and> Written c' \<and> p = None \<and> w' = w)"
proof -
  have h: "OutHeader c1 = OutHeader d" if "h d v = (c1, v1, q)" for d v c1 v1 q
    using assms(1) that unfolding plain_def by (metis fst_conv)
  show ?thesis
  proof (cases "granted (Request c) og")
    case None
    then have "CORS og h c w = h c w" by (auto simp: granted_def CORS_def originSet_def Let_def split: if_splits)
    with assms(3) have "h c w = (c', w', p)" by simp
    from h [OF this] show ?thesis using assms(2) None by simp
  next
    case (Some v)
    then have v: "v = GetHeader c ''Origin''" "v \<noteq> []" "v \<in> originSet og" by (auto simp: granted_def originSet_def split: if_splits)
    then show ?thesis
      using assms(3) h Some by (auto simp: CORS_def Let_def set_header_def AbortWithStatus_def split: if_splits)
  qed
qed

lemma log_keeps_header:
  assumes "CORS og h (set_header ''X-Request-ID'' rid (c\<lparr>request_id_key := rid\<rparr>)) w = (c1, w1, p)"
    and "rid = (if validRequestID (GetHeader c ''X-Request-ID'') then GetHeader c ''X-Request-ID'' else u)"
    and "RequestID u (AccessLogger (Recovery (CORS og h))) c w = (c', w', q)"
  shows "OutHeader c' = OutHeader c1 \<and> w' = w1 \<and> (p = None \<longrightarrow> Status c' = Status c1)"
proof -
  have "RequestID u (AccessLogger (Recovery (CORS og h))) c w =
      AccessLogger (Recovery (CORS og h)) (set_header ''X-Request-ID'' rid (c\<lparr>request_id_key := rid\<rparr>)) w"
    unfolding RequestID_def Let_def assms(2) by simp
  then show ?thesis using assms(3) by (auto simp: AccessLogger_def Recovery_def assms(1) Let_def split: option.splits if_splits)
qed

text \<open>
  C20 (safety). The answer to any request that the router does not redirect grants cross-origin access to the request's own
  origin exactly when that origin is configured, and a preflight request from a configured origin
  is answered with 204 on every such path and runs no handler. A redirect (to the path with or without a trailing slash)
  is gin's own answer: it runs no middleware and no handler and grants nothing, to a configured origin either.
\<close>

theorem cors_only_listed:
  assumes G: "gin_router pick" and E: "app_server X s pu cfg n = Some E"
    and run: "serve pick E r w = (c', w', p)"
  shows "if \<exists>st l. pick (table_of E) (rq_Method r) (rq_Path r) = Redirect st l
    then OutHeader c' ''Access-Control-Allow-Origin'' = None \<and> w' = w
    else OutHeader c' ''Access-Control-Allow-Origin'' = granted r (AllowedOrigins (Auth cfg))
      \<and> (granted r (AllowedOrigins (Auth cfg)) \<noteq> None \<and> rq_Method r = ''OPTIONS'' \<longrightarrow> Status c' = 204 \<and> w' = w)"
proof -
  let ?og = "AllowedOrigins (Auth cfg)"
  have h: "plain (e_no_route E)" "plain (e_no_method E)"
    unfolding app_server_parts(2,4) [OF E] by (rule plain_returns, simp)+
  have chain: "OutHeader c' ''Access-Control-Allow-Origin'' = granted r ?og
      \<and> (granted r ?og \<noteq> None \<and> rq_Method r = ''OPTIONS'' \<longrightarrow> Status c' = 204 \<and> w' = w)"
    if "plain h" "rq_Method r' = rq_Method r" "rq_Header r' = rq_Header r" "run_chain (e_use E) h (new_ctx r') w = (c', w', p)" for h r'
  proof -
    let ?u = "in_request_id n" and ?h = "BodyLimit (MaxRequestBodyBytes (Config.Server cfg)) h"
    let ?rid = "if validRequestID (GetHeader (new_ctx r') ''X-Request-ID'') then GetHeader (new_ctx r') ''X-Request-ID'' else ?u"
    let ?c = "set_header ''X-Request-ID'' ?rid ((new_ctx r')\<lparr>request_id_key := ?rid\<rparr>)"
    obtain c1 w1 q where c: "CORS ?og ?h ?c w = (c1, w1, q)" using prod_cases3 by blast
    have "granted (Request ?c) ?og = granted r ?og" "rq_Method (Request ?c) = rq_Method r" "OutHeader ?c ''Access-Control-Allow-Origin'' = None"
      using that(2,3) by (simp_all add: granted_def new_ctx_def set_header_def)
    with CORS_grants [OF plain_gates(1) [OF that(1)] _ c] log_keeps_header [OF c refl that(4) [unfolded app_server_parts(1) [OF E] run_chain_simps]]
    show ?thesis by auto
  qed
  show ?thesis
  proof (cases "pick (table_of E) (rq_Method r) (rq_Path r)")
    case (Route i v)
    then have "i < length (e_routes E)" using gin_router.picked [OF G Route] by (simp add: table_of_def)
    then have "plain (run_chain (rt_chain (e_routes E ! i)) (rt_handler (e_routes E ! i)))" using route_proper [OF E] nth_mem by blast
    from chain [OF this, of "r\<lparr>rq_ID := v\<rparr>"] show ?thesis using run Route by (simp add: serve_def flip: table_of_def)
  next
    case WrongMethod
    then show ?thesis using chain [OF h(2), of r] run app_server_parts(3) [OF E] by (simp add: serve_def flip: table_of_def)
  next
    case NoMatch
    then show ?thesis using chain [OF h(1), of r] run by (simp add: serve_def flip: table_of_def)
  next
    case (Redirect st l)
    then show ?thesis using run by (auto simp: serve_def simp flip: table_of_def)
  qed
qed

end
