(* ===== verification/ServerExamples.thy ===== *)
theory ServerExamples
  imports ServerProps UserExamples
begin

text \<open>Requests to a small server: the hypotheses of the theorems about the server hold there.\<close>

definition demo_inputs :: inputs where
  "demo_inputs = \<lparr>in_request_id = ''r1'', in_now = 1000 * millisecond, in_db_handle = None, in_ping_db = None, in_ping_redis = None,
     in_seed = 0, in_captcha_id = ''c1'', in_draws = demo_draws, in_login = BindErr, in_list = BindErr, in_create = BindErr,
     in_update = BindErr, in_active = BindErr, in_salt = [], in_user_id = ''u2''\<rparr>"

definition origin_config :: Config where
  "origin_config = demo_config\<lparr>Auth := (Auth demo_config)\<lparr>AllowedOrigins := [''https://a.b'']\<rparr>\<rparr>"

lemma origins [simp]: "AllowedOrigins (Auth origin_config) = [''https://a.b'']"
  by (simp add: origin_config_def)

definition demo_engine :: "(keyspace, user list) world engine" where
  "demo_engine = the (app_server demo_deps demo_auth demo_uri origin_config demo_inputs)"

lemma demo_engine: "app_server demo_deps demo_auth demo_uri origin_config demo_inputs = Some demo_engine"
proof -
  have g: "Group \<lparr>g_path = ''/'', g_chain = []\<rparr> ''/api/v1'' [] = \<lparr>g_path = ''/api/v1'', g_chain = []\<rparr>"
    by (simp add: Group_def join_paths_def)
  have "\<exists>E. app_server demo_deps demo_auth demo_uri origin_config demo_inputs = Some E"
    unfolding app_server_def NewServer_def Let_def g routes_eq by simp
  then show ?thesis unfolding demo_engine_def by (metis option.sel)
qed

definition demo_call :: "string \<Rightarrow> string \<Rightarrow> string \<Rightarrow> request" where
  "demo_call m path og = (demo_request [])\<lparr>rq_Method := m, rq_Path := path, rq_Header := (\<lambda>k. if k = ''Origin'' then og else [])\<rparr>"

lemma demo_call_simps [simp]: "rq_Method (demo_call m path og) = m" "rq_Path (demo_call m path og) = path"
  "rq_Header (demo_call m path og) ''Origin'' = og" "rq_Header (demo_call m path og) ''Authorization'' = []"
  by (simp_all add: demo_call_def)

theorem every_request_answered_witness:
  "\<exists>c' w'. serve first_match demo_engine (demo_call ''GET'' ''/api/v1/auth/me'' []) demo_world = (c', w', None) \<and> Written c'"
  using every_request_answered [OF first_match.gin_router_axioms demo_engine, of "demo_call ''GET'' ''/api/v1/auth/me'' []" demo_world] by blast

lemma demo_route_9: "9 < length (e_routes demo_engine)" "rt_method (e_routes demo_engine ! 9) = ''GET''" "rt_path (e_routes demo_engine ! 9) = ''/api/v1/users/:id''"
proof -
  have "length (table_of demo_engine) = 14" "table_of demo_engine ! 9 = (''GET'', ''/api/v1/users/:id'')"
    by (simp_all add: table_eq [OF demo_engine])
  then show "9 < length (e_routes demo_engine)" "rt_method (e_routes demo_engine ! 9) = ''GET''" "rt_path (e_routes demo_engine ! 9) = ''/api/v1/users/:id''"
    by (simp_all add: table_of_def)
qed

theorem routing_determined_witness:
  "serve first_match demo_engine (demo_call ''GET'' ''/api/v1/users/u1'' []) demo_world =
     run_chain (e_use demo_engine @ rt_chain (e_routes demo_engine ! 9)) (rt_handler (e_routes demo_engine ! 9))
       (new_ctx ((demo_call ''GET'' ''/api/v1/users/u1'' [])\<lparr>rq_ID := ''u1''\<rparr>)) demo_world"
  using routing_determined [OF first_match.gin_router_axioms demo_engine demo_route_9(1), of "demo_call ''GET'' ''/api/v1/users/u1'' []" "''u1''" demo_world]
  by (simp add: demo_route_9 match_shapes)

theorem administration_closed_witness:
  "\<exists>c' w'. serve first_match demo_engine (demo_call ''DELETE'' ''/api/v1/users/u1'' []) demo_world = (c', w', None)
     \<and> Status c' \<noteq> 200 \<and> w_db w' = w_db demo_world"
proof -
  have "Fields [] = []" by (simp add: Fields_def)
  then have no: "\<not> (\<exists>p. passes demo_deps demo_auth (in_now demo_inputs) {RoleAdmin} (rq_Header (demo_call ''DELETE'' ''/api/v1/users/u1'' []) ''Authorization'') demo_world p)"
    by (simp add: passes_def admitted_def)
  have inv: "session_inv (clock (w_redis demo_world)) (server (w_redis demo_world))" using session_inv_empty [of 1000] by simp
  have "\<exists>c' w'. serve first_match demo_engine (demo_call ''DELETE'' ''/api/v1/users/u1'' []) demo_world = (c', w', None)
     \<and> Status c' \<in> {204, 301, 307, 401, 403, 404, 405, 413, 503} \<and> SetCookies c' = []
    \<and> w_db w' = w_db demo_world \<and> server (w_redis w') = server (w_redis demo_world)"
    by (rule administration_closed [OF demo_services.services_axioms inv first_match.gin_router_axioms demo_engine _ no, of "[''u1'']"]) simp
  then show ?thesis by auto
qed

theorem cookie_routes_same_site_witness:
  "\<exists>c'. serve first_match demo_engine (demo_call ''POST'' ''/api/v1/auth/logout'' ''https://evil'') demo_world = (c', demo_world, None)
     \<and> Status c' \<noteq> 200"
proof -
  have "\<exists>c'. serve first_match demo_engine (demo_call ''POST'' ''/api/v1/auth/logout'' ''https://evil'') demo_world = (c', demo_world, None)
     \<and> Status c' \<in> {301, 307, 403, 404, 405, 413} \<and> SetCookies c' = []"
    by (rule cookie_routes_same_site [OF first_match.gin_router_axioms demo_engine, of _ "''logout''"]) simp_all
  then show ?thesis by auto
qed

theorem cors_only_listed_witness:
  "\<exists>c'. serve first_match demo_engine (demo_call ''OPTIONS'' ''/api/v1/users'' ''https://a.b'') demo_world = (c', demo_world, None)
     \<and> Status c' = 204 \<and> OutHeader c' ''Access-Control-Allow-Origin'' = Some ''https://a.b''"
proof -
  let ?r = "demo_call ''OPTIONS'' ''/api/v1/users'' ''https://a.b''"
  have direct: "\<nexists>st l. first_match (table_of demo_engine) (rq_Method ?r) (rq_Path ?r) = Redirect st l"
    by (cases rule: first_match_cases [of "table_of demo_engine" "rq_Method ?r" "rq_Path ?r"]) simp_all
  obtain c' w' where run: "serve first_match demo_engine ?r demo_world = (c', w', None)"
    using every_request_answered_run [OF first_match.gin_router_axioms demo_engine] by blast
  show ?thesis
    using cors_only_listed [OF first_match.gin_router_axioms demo_engine run] direct run by (auto simp: granted_def)
qed

end
