(* ===== verification/Startup.thy ===== *)
theory Startup
  imports Server UserProps
begin

text \<open>
  \<open>pkg/app/app.go\<close>, \<open>pkg/component\<close>, \<open>cmd/server/main.go\<close> and \<open>Run\<close> of \<open>internal/server.go\<close>:
  starting and stopping the server. The outcomes of the drivers' calls (opening and pinging
  connections, building the logger), fresh UUIDs and salts are a record of arguments. A panic
  is a value that keeps the cause and leaves out the wording. Beside its result a step
  returns which connections are open after it.
\<close>

section \<open>Connections and logger\<close>

datatype startup_panic =
    ConfigRejected | BadLogLevel string | BadLogFormat string | LoggerBuild string
  | OpenDatabase string | DatabaseHandle string | PingDatabase string | PingRedisServer string
  | EnsureAdmin data_error | InvalidateAdmin data_error

datatype connection = PostgresPool | RedisClient

record logger_setup =
  ls_Encoding :: string
  ls_OutputPaths :: "string list"
  ls_ErrorOutputPaths :: "string list"

text \<open>zap's production configuration writes JSON to the standard error output.\<close>

definition NewLogger ::
    "(string \<Rightarrow> string option) \<Rightarrow> (logger_setup \<Rightarrow> string option) \<Rightarrow> LoggerConfig \<Rightarrow> startup_panic + logger_setup" where
  "NewLogger unmarshal build cfg =
     (case unmarshal (Level cfg) of
        Some e \<Rightarrow> Inl (BadLogLevel e)
      | None \<Rightarrow>
          (let built = \<lparr>ls_Encoding = ''json'', ls_OutputPaths = [''stderr''], ls_ErrorOutputPaths = [''stderr'']\<rparr>;
               built = (if Format cfg = ''console'' then built\<lparr>ls_Encoding := ''console''\<rparr> else built) in
           if Format cfg \<noteq> [] \<and> Format cfg \<noteq> ''json'' \<and> Format cfg \<noteq> ''console'' then Inl (BadLogFormat (Format cfg))
           else
             (let built = (if OutputPaths cfg \<noteq> [] then built\<lparr>ls_OutputPaths := OutputPaths cfg\<rparr> else built);
                  built = (if ErrorOutputPaths cfg \<noteq> [] then built\<lparr>ls_ErrorOutputPaths := ErrorOutputPaths cfg\<rparr> else built) in
              case build built of Some e \<Rightarrow> Inl (LoggerBuild e) | None \<Rightarrow> Inr built)))"

record pool =
  po_MaxOpenConns :: int
  po_MaxIdleConns :: int
  po_ConnMaxLifetime :: duration

definition OpenPostgres ::
    "string option \<Rightarrow> string option \<Rightarrow> string option \<Rightarrow> connection set \<Rightarrow> (startup_panic + pool) \<times> connection set" where
  "OpenPostgres opened handle ping up =
     (case opened of
        Some e \<Rightarrow> (Inl (OpenDatabase e), up)
      | None \<Rightarrow>
          (case handle of
             Some e \<Rightarrow> (Inl (DatabaseHandle e), up)
           | None \<Rightarrow>
               (let p = \<lparr>po_MaxOpenConns = 20, po_MaxIdleConns = 5, po_ConnMaxLifetime = hour\<rparr>; up' = insert PostgresPool up in
                case ping of
                  Some e \<Rightarrow> (Inl (PingDatabase e), up' - {PostgresPool})
                | None \<Rightarrow> (Inr p, up'))))"

record redis_options =
  ro_Addr :: string
  ro_Username :: string
  ro_Password :: string
  ro_DB :: int
  ro_DialTimeout :: duration
  ro_ReadTimeout :: duration
  ro_WriteTimeout :: duration

definition NewRedis ::
    "RedisConfig \<Rightarrow> string option \<Rightarrow> connection set \<Rightarrow> (startup_panic + redis_options) \<times> connection set" where
  "NewRedis cfg ping up =
     (let client = \<lparr>ro_Addr = rc_Addr cfg, ro_Username = rc_Username cfg, ro_Password = rc_Password cfg, ro_DB = rc_DB cfg,
            ro_DialTimeout = rc_DialTimeout cfg, ro_ReadTimeout = rc_ReadTimeout cfg, ro_WriteTimeout = rc_WriteTimeout cfg\<rparr>;
          up' = insert RedisClient up in
      case ping of
        Some e \<Rightarrow> (Inl (PingRedisServer e), up' - {RedisClient})
      | None \<Rightarrow> (Inr client, up'))"

section \<open>app.go\<close>

record outcomes =
  st_level :: "string \<Rightarrow> string option"
  st_build :: "logger_setup \<Rightarrow> string option"
  st_open :: "string option"
  st_handle :: "string option"
  st_ping :: "string option"
  st_redis :: "string option"
  st_password :: string
  st_salt :: string
  st_new_id :: string
  st_now :: instant

text \<open>
  What \<open>New\<close> leaves behind: the configuration, the authentication service, and the line about
  the administrator in the log. The server over them is \<open>app_server\<close>.
\<close>

record app =
  ap_config :: Config
  ap_auth :: AuthService
  ap_email :: string
  ap_password :: string

definition app_New ::
    "('r, 'd) deps \<Rightarrow> Config option \<Rightarrow> outcomes \<Rightarrow> ('r, 'd) world \<Rightarrow>
     (startup_panic + app) \<times> ('r, 'd) world \<times> connection set" where
  "app_New X config o' w =
     (case config of
        None \<Rightarrow> (Inl ConfigRejected, w, {})
      | Some cfg \<Rightarrow>
          (case NewLogger (st_level o') (st_build o') (Logger cfg) of
             Inl p \<Rightarrow> (Inl p, w, {})
           | Inr _ \<Rightarrow>
               (case OpenPostgres (st_open o') (st_handle o') (st_ping o') {} of
                  (Inl p, up) \<Rightarrow> (Inl p, w, up)
                | (Inr _, up) \<Rightarrow>
                    (case NewRedis (Config.Redis cfg) (st_redis o') up of
                       (Inl p, up) \<Rightarrow> (Inl p, w, up)
                     | (Inr _, up) \<Rightarrow>
                         (let imageCaptcha = NewImageCaptcha (Captcha cfg); jwtManager = NewJWTManager (Auth cfg);
                              authService = NewAuthService (Some imageCaptcha) jwtManager (Auth cfg) (Captcha cfg) in
                          case EnsureBootstrapAdmin (x_bcrypt X) (x_db X) (w_db w) (st_password o') (st_salt o') (st_new_id o') (st_now o') of
                            (Inl e, d) \<Rightarrow> (Inl (EnsureAdmin e), w\<lparr>w_db := d\<rparr>, up)
                          | (Inr (email, password, userID), d) \<Rightarrow>
                              (case InvalidateUserSessions X (w\<lparr>w_db := d\<rparr>) userID of
                                 (Inl e, w') \<Rightarrow> (Inl (InvalidateAdmin e), w', up)
                               | (Inr _, w') \<Rightarrow>
                                   (Inr \<lparr>ap_config = cfg, ap_auth = authService, ap_email = email, ap_password = password\<rparr>, w', up)))))))"

section \<open>The HTTP server\<close>

text \<open>What \<open>NewServer\<close> sets on the \<open>http.Server\<close>, beside the engine as its handler, and keeps for \<open>Run\<close>.\<close>

record http_server =
  hs_Addr :: string
  hs_ReadHeaderTimeout :: duration
  hs_ReadTimeout :: duration
  hs_WriteTimeout :: duration
  hs_MaxHeaderBytes :: int
  hs_shutdownTimeout :: duration

definition server_http :: "ServerConfig \<Rightarrow> http_server" where
  "server_http cfg =
     \<lparr>hs_Addr = Addr cfg, hs_ReadHeaderTimeout = ReadHeaderTimeout cfg, hs_ReadTimeout = ReadTimeout cfg,
      hs_WriteTimeout = WriteTimeout cfg, hs_MaxHeaderBytes = MaxHeaderBytes cfg, hs_shutdownTimeout = ShutdownTimeout cfg\<rparr>"

text \<open>Zero means no limit to \<open>net/http\<close>: a checked configuration leaves none of the limits out, and \<open>Shutdown\<close> has time.\<close>

lemma server_http_bounded:
  assumes "Config_Validate parse_uri cfg = Inr ()" "h = server_http (Config.Server cfg)"
  shows "hs_Addr h \<noteq> [] \<and> 0 < hs_ReadHeaderTimeout h \<and> 0 < hs_ReadTimeout h \<and> 0 < hs_WriteTimeout h
    \<and> 0 < hs_MaxHeaderBytes h \<and> 0 < hs_shutdownTimeout h"
  using assms by (simp add: server_http_def Validate_Inr_iff)

section \<open>Running and stopping\<close>

text \<open>The two events \<open>Run\<close> waits for: a signal, or the end of \<open>ListenAndServe\<close> with its error
  (\<open>None\<close> for none) and whether that is \<open>http.ErrServerClosed\<close>.\<close>

datatype run_event = Signalled | ServeEnded "string option" bool

fun Server_Run :: "run_event \<Rightarrow> string option \<Rightarrow> string list \<times> string option" where
  "Server_Run Signalled shutdown =
     (case shutdown of
        Some e \<Rightarrow> ([''http server shutdown failed''], Some e)
      | None \<Rightarrow> ([], None))"
| "Server_Run (ServeEnded err closed) shutdown =
     (if err \<noteq> None \<and> \<not> closed then ([''http server stopped unexpectedly''], err) else ([], err))"

datatype exit = Panicked startup_panic | RunPanicked string | Finished

text \<open>\<open>cleanups\<close> is deferred: it runs whether \<open>Run\<close> succeeds or not.\<close>

definition server_main ::
    "('r, 'd) deps \<Rightarrow> Config option \<Rightarrow> outcomes \<Rightarrow> run_event \<Rightarrow> string option \<Rightarrow> ('r, 'd) world \<Rightarrow> exit \<times> ('r, 'd) world \<times> connection set" where
  "server_main X config o' ev shutdown w =
     (case app_New X config o' w of
        (Inl p, w', up) \<Rightarrow> (Panicked p, w', up)
      | (Inr _, w', up) \<Rightarrow>
          (let up = up - {RedisClient} - {PostgresPool} in
           case snd (Server_Run ev shutdown) of
             Some e \<Rightarrow> (RunPanicked e, w', up)
           | None \<Rightarrow> (Finished, w', up)))"

section \<open>Lemmas\<close>

lemma app_New_Inr:
  assumes "app_New X config o' w = (Inr a, w', up)"
  obtains cfg uid d where "config = Some cfg" "ap_config a = cfg" "up = {RedisClient, PostgresPool}"
    "ap_auth a = NewAuthService (Some (NewImageCaptcha (Captcha cfg))) (NewJWTManager (Auth cfg)) (Auth cfg) (Captcha cfg)"
    "EnsureBootstrapAdmin (x_bcrypt X) (x_db X) (w_db w) (st_password o') (st_salt o') (st_new_id o') (st_now o') = (Inr (ap_email a, ap_password a, uid), d)"
    "SessionStore_DeleteUserSessions (x_redis X) (w_redis w) uid = (Inr (), w_redis w')" "w_db w' = d"
  using assms
  by (auto simp: app_New_def OpenPostgres_def NewRedis_def InvalidateUserSessions_def Let_def
      split: option.splits sum.splits prod.splits)

lemma app_New_up: "app_New X config o' w = (Inr a, w', up) \<Longrightarrow> up = {RedisClient, PostgresPool}"
  by (erule app_New_Inr)

lemma bootstrap_uid:
  assumes D: "user_db D rows uuid_in tm" and run: "EnsureBootstrapAdmin B D c pw salt new_id now = (Inr (e, p, uid), c')"
  shows "uid = new_id \<or> (\<exists>u \<in> set (rows (d_state c)). uid = ID u)"
proof -
  obtain h where h: "HashPassword B salt pw = Some h" using run by (auto simp: EnsureBootstrapAdmin_def split: option.splits)
  obtain x c1 where x: "dcall (db_Take D [EmailEq bootstrapAdminEmail]) c = (x, c1)" by fastforce
  show ?thesis
  proof (cases x)
    case (Inl err)
    then show ?thesis
      using run h x by (cases err) (auto simp: EnsureBootstrapAdmin_def Let_def split: prod.splits sum.splits)
  next
    case (Inr u)
    have "u \<in> set (rows (d_state c))" using user_db.Take_Inr [OF D x [unfolded Inr]] by simp
    then show ?thesis using run h x Inr by (auto simp: EnsureBootstrapAdmin_def Let_def split: prod.splits sum.splits)
  qed
qed

lemma main_releases: "server_main X config o' ev shutdown w = (x, w', up) \<Longrightarrow> (\<And>p. x \<noteq> Panicked p) \<Longrightarrow> up = {}"
  by (auto simp: server_main_def Let_def dest!: app_New_up split: prod.splits sum.splits option.splits)

section \<open>Properties\<close>

text \<open>
  C18 (safety). A server that starts is in order: its configuration has a signing secret of 32
  bytes or more and, in production, secure cookies and captchas; both connections are open;
  there is an active administrator whose hash accepts the password that is printed,
  no session of that account from before has time left, the sessions of all others and every
  other account are as they were, and the tables are still well formed.
\<close>

theorem startup_ready:
  assumes V: "services X ks rows uuid_in tm" and inv: "session_inv (clock (w_redis w)) (ks (server (w_redis w)))" "table_ok uuid_in (rows (d_state (w_db w)))"
    and nid: "uuid_in (st_new_id o') = Some (st_new_id o')"
    and run: "app_New X (Config_New read_file yaml getenv parse_uri path) o' w = (Inr a, w', up)"
  shows "\<exists>u \<in> set (rows (d_state (w_db w'))). Email u = bootstrapAdminEmail \<and> Active u \<and> Role u = RoleAdmin
    \<and> Compare (x_bcrypt X) (PasswordHash u) (ap_password a) \<and> ap_email a = Email u
    \<and> filter (\<lambda>v. Email v \<noteq> bootstrapAdminEmail) (rows (d_state (w_db w'))) = filter (\<lambda>v. Email v \<noteq> bootstrapAdminEmail) (rows (d_state (w_db w)))
    \<and> revoked (clock (w_redis w)) (ID u) (sessions (clock (w_redis w)) (ks (server (w_redis w)))) (sessions (clock (w_redis w')) (ks (server (w_redis w'))))
    \<and> table_ok uuid_in (rows (d_state (w_db w'))) \<and> session_inv (clock (w_redis w')) (ks (server (w_redis w')))
    \<and> up = {RedisClient, PostgresPool} \<and> 32 \<le> length (secret (tokens (ap_auth a)))
    \<and> (getenv ''APP_ENV'' = ''production'' \<longrightarrow> secureCookie (ap_auth a) \<and> Enabled (captchaConfig (ap_auth a)))"
proof -
  have D: "user_db (x_db X) rows uuid_in tm" and B: "bcrypt_library (x_bcrypt X)" using V by (simp_all add: services_def)
  obtain cfg uid d where s: "Config_New read_file yaml getenv parse_uri path = Some cfg" "ap_config a = cfg" "up = {RedisClient, PostgresPool}"
    "ap_auth a = NewAuthService (Some (NewImageCaptcha (Captcha cfg))) (NewJWTManager (Auth cfg)) (Auth cfg) (Captcha cfg)"
    "EnsureBootstrapAdmin (x_bcrypt X) (x_db X) (w_db w) (st_password o') (st_salt o') (st_new_id o') (st_now o') = (Inr (ap_email a, ap_password a, uid), d)"
    "SessionStore_DeleteUserSessions (x_redis X) (w_redis w) uid = (Inr (), w_redis w')" "w_db w' = d"
    by (rule app_New_Inr [OF run])
  obtain h u where u: "HashPassword (x_bcrypt X) (st_salt o') (st_password o') = Some h" "ap_email a = bootstrapAdminEmail" "ap_password a = st_password o'"
    "u \<in> set (rows (d_state d))" "uuid_in uid = Some (ID u)" "Email u = bootstrapAdminEmail" "Active u" "Role u = RoleAdmin" "PasswordHash u = h"
    "filter (\<lambda>u. Email u \<noteq> bootstrapAdminEmail) (rows (d_state d)) = filter (\<lambda>u. Email u \<noteq> bootstrapAdminEmail) (rows (d_state (w_db w)))"
    by (rule user_db.EnsureBootstrapAdmin_Inr [OF D s(5) inv(2)])
  have uid: "uid = ID u" "uid \<noteq> []"
    using bootstrap_uid [OF D s(5)] nid u(5) inv(2) user_db.uuid_ascii [OF D u(5)] by (auto simp: table_ok_def)
  have ok: "table_ok uuid_in (rows (d_state d))"
    by (rule user_db.step_table_ok [OF D repo_step.bootstrap [OF s(5)] inv(2)])
  have cmp: "Compare (x_bcrypt X) h (st_password o')"
    using bcrypt_library.compare_generated [OF B] u(1) by (simp add: HashPassword_def Compare_def)
  note rv = services.revokes [OF V inv(1) s(6) uid(2)]
  have l: "load read_file yaml getenv parse_uri path = Inr cfg" using s(1) by (auto simp: Config_New_def split: sum.splits)
  have cfg: "32 \<le> length (secret (tokens (ap_auth a)))" "getenv ''APP_ENV'' = ''production'' \<longrightarrow> secureCookie (ap_auth a) \<and> Enabled (captchaConfig (ap_auth a))"
    using load_checked [OF l] by (simp_all add: s(4) NewAuthService_def NewJWTManager_def Validate_Inr_iff)
  show ?thesis
    by (rule bexI [of _ u]) (use u cmp ok rv cfg s(3,7) uid(1) in simp_all)
qed

end
