(* ===== verification/StartupExamples.thy ===== *)
theory StartupExamples
  imports Startup UserExamples
begin

text \<open>A start on a small table without an administrator, in a production environment.\<close>

definition calm :: outcomes where
  "calm = \<lparr>st_level = (\<lambda>_. None), st_build = (\<lambda>_. None), st_open = None, st_handle = None, st_ping = None, st_redis = None,
     st_password = ''pw'', st_salt = [], st_new_id = ''u2'', st_now = 7\<rparr>"

lemma calm_simps [simp]: "st_open calm = None" "st_handle calm = None" "st_ping calm = None" "st_redis calm = None"
  "st_password calm = ''pw''" "st_salt calm = []" "st_new_id calm = ''u2''" "st_now calm = 7"
  by (simp_all add: calm_def)

lemma demo_loaded:
  "Config_New (\<lambda>_. Some []) (\<lambda>_ _. Some demo_config) demo_env (\<lambda>_. None) [] = Some (override demo_env demo_config)"
proof -
  have "Config_Validate (\<lambda>_. None) (override demo_env demo_config) = Inr ()"
    by (simp add: Config_Validate_def Let_def demo_config_def demo_env_def defaults_def override_def set_env_def)
  then show ?thesis by (simp add: Config_New_def load_def Let_def)
qed

lemma demo_logger: "NewLogger (st_level calm) (st_build calm) (Logger (override demo_env demo_config)) \<noteq> Inl p"
  by (simp add: NewLogger_def calm_def demo_config_def demo_env_def defaults_def override_def set_env_def Let_def)

lemma fold_u2: "fold_id ''u2'' = Some ''u2''"
  by (simp add: fold_id_def) code_simp

theorem startup_ready_witness:
  "\<exists>a w' up. app_New demo_deps (Config_New (\<lambda>_. Some []) (\<lambda>_ _. Some demo_config) demo_env (\<lambda>_. None) []) calm demo_world = (Inr a, w', up)
     \<and> up = {RedisClient, PostgresPool} \<and> secureCookie (ap_auth a)
     \<and> (\<exists>u \<in> set (d_state (w_db w')). Role u = RoleAdmin \<and> Compare plain_bcrypt (PasswordHash u) (ap_password a))"
proof -
  let ?cfg = "Config_New (\<lambda>_. Some []) (\<lambda>_ _. Some demo_config) demo_env (\<lambda>_. None) []"
  have h: "HashPassword plain_bcrypt [] ''pw'' = Some (CHR ''$'' # HashTokenHex ''pw'')" by (simp add: HashPassword_def plain_bcrypt_def)
  have t: "pg_text (CHR ''$'' # HashTokenHex ''pw'')" by (simp add: pg_text_ascii HashTokenHex_shape HashTokenHex_not_zero)
  have "\<exists>e p uid d. EnsureBootstrapAdmin plain_bcrypt table_db (demo_db [demo_account]) ''pw'' [] ''u2'' 7 = (Inr (e, p, uid), d)"
    by (rule table_db.EnsureBootstrapAdmin_clean [OF _ _ h t fold_u2]) (use demo_accounts_ok in simp_all)
  then obtain e p uid d where b: "EnsureBootstrapAdmin plain_bcrypt table_db (demo_db [demo_account]) ''pw'' [] ''u2'' 7 = (Inr (e, p, uid), d)" by blast
  have inv: "session_inv (clock (w_redis demo_world)) (server (w_redis demo_world))" using session_inv_empty [of 1000] by simp
  obtain r where r: "SessionStore_DeleteUserSessions (ks_redis ks_cjson) (w_redis demo_world) uid = (Inr (), r)"
    by (rule DeleteUserSessions_run [of "w_redis demo_world"]) (use inv in simp_all)
  obtain l where l: "NewLogger (st_level calm) (st_build calm) (Logger (override demo_env demo_config)) = Inr l"
    using demo_logger by (cases "NewLogger (st_level calm) (st_build calm) (Logger (override demo_env demo_config))") auto
  obtain a w' up where run: "app_New demo_deps ?cfg calm demo_world = (Inr a, w', up)"
    using b r l by (simp add: app_New_def demo_loaded OpenPostgres_def NewRedis_def InvalidateUserSessions_def Let_def)
  have nid: "fold_id (st_new_id calm) = Some (st_new_id calm)" using fold_u2 by simp
  have ok: "table_ok fold_id (d_state (w_db demo_world))" using demo_accounts_ok by simp
  have env: "demo_env ''APP_ENV'' = ''production''" by (simp add: demo_env_def)
  show ?thesis
    using startup_ready [OF demo_services.services_axioms inv ok nid run] env run by auto
qed

end
