(* ===== verification/Migrate.thy ===== *)
theory Migrate
  imports Prelude
begin

text \<open>
  \<open>cmd/migrate/main.go\<close>: the migration command. The migration source (\<open>source.Driver\<close>) and
  the migrator (\<open>migrate.Migrate\<close>) are third-party and arguments here, with their documented
  behaviour as the locales \<open>migration_source\<close> and \<open>migrator\<close>. The loop of \<open>pendingUp\<close> ends
  only because of that behaviour, so it is a partial function; versions are natural numbers,
  on which the command does no arithmetic. A run is the list of lines it prints and either
  the message it fails with (exit status 1) or success.
\<close>

section \<open>Printing\<close>

fun decimal :: "nat \<Rightarrow> string" where
  "decimal n = (if n < 10 then [char_of (48 + n)] else decimal (n div 10) @ [char_of (48 + n mod 10)])"

declare decimal.simps [simp del]

definition print_bool :: "bool \<Rightarrow> string" where
  "print_bool b = (if b then ''true'' else ''false'')"

section \<open>The source\<close>

text \<open>\<open>None\<close> is an error; \<open>ReadUp\<close> gives an identifier and an error flag beside its reader.\<close>

record driver =
  First :: "nat option"
  Next :: "nat \<Rightarrow> nat option"
  ReadUp :: "nat \<Rightarrow> string \<times> bool"

definition formatMigration :: "driver \<Rightarrow> nat \<Rightarrow> string" where
  "formatMigration src version =
     (case ReadUp src version of
        (identifier, err) \<Rightarrow>
          if err \<or> identifier = [] then decimal version else decimal version @ '' '' @ identifier)"

partial_function (option) pending_loop :: "driver \<Rightarrow> nat \<Rightarrow> string list \<Rightarrow> string list option" where
  "pending_loop src version pending =
     (let pending = pending @ [formatMigration src version] in
      case Next src version of
        None \<Rightarrow> Some pending
      | Some v \<Rightarrow> pending_loop src v pending)"

definition pendingUp :: "driver \<Rightarrow> nat \<Rightarrow> string list option" where
  "pendingUp src from =
     (case (if from = 0 then First src else Next src from) of
        None \<Rightarrow> Some []
      | Some version \<Rightarrow> pending_loop src version [])"

section \<open>The migrator\<close>

datatype mig_error = ErrNoChange | ErrNilVersion | MigOther string

fun mig_message :: "mig_error \<Rightarrow> string" where
  "mig_message ErrNoChange = ''no change''"
| "mig_message ErrNilVersion = ''no migration''"
| "mig_message (MigOther e) = e"

record 'm migrate =
  mg_Version :: "'m \<Rightarrow> mig_error + nat \<times> bool"
  mg_Up :: "'m \<Rightarrow> mig_error option \<times> 'm"
  mg_Steps :: "int \<Rightarrow> 'm \<Rightarrow> mig_error option \<times> 'm"

text \<open>A failing step is the message \<open>fail\<close> prints.\<close>

definition currentVersion :: "'m migrate \<Rightarrow> 'm \<Rightarrow> string + nat" where
  "currentVersion M m =
     (case mg_Version M m of
        Inl ErrNilVersion \<Rightarrow> Inr 0
      | Inl e \<Rightarrow> Inl (mig_message e)
      | Inr (version, _) \<Rightarrow> Inr version)"

section \<open>main\<close>

type_synonym run = "string list \<times> (string + unit)"

definition up_action :: "driver \<Rightarrow> 'm migrate \<Rightarrow> 'm \<Rightarrow> (run \<times> 'm) option" where
  "up_action src M m =
     (case currentVersion M m of
        Inl e \<Rightarrow> Some (([], Inl e), m)
      | Inr from \<Rightarrow>
          (case pendingUp src from of
             None \<Rightarrow> None
           | Some pending \<Rightarrow>
               (let out = (if pending \<noteq> []
                    then [''current version='' @ decimal from @ '', applying '' @ decimal (length pending) @ '' migration(s):'']
                      @ map (\<lambda>item. ''  -> '' @ item) pending else []) in
                case mg_Up M m of
                  (Some ErrNoChange, m') \<Rightarrow>
                    Some ((out @ [''already at version '' @ decimal from @ '', no pending migrations''], Inr ()), m')
                | (Some e, m') \<Rightarrow> Some ((out, Inl (mig_message e)), m')
                | (None, m') \<Rightarrow>
                    (case currentVersion M m' of
                       Inl e \<Rightarrow> Some ((out, Inl e), m')
                     | Inr version \<Rightarrow> Some ((out @ [''migrated to version='' @ decimal version], Inr ()), m')))))"

definition down_action :: "'m migrate \<Rightarrow> 'm \<Rightarrow> run \<times> 'm" where
  "down_action M m =
     (case currentVersion M m of
        Inl e \<Rightarrow> (([], Inl e), m)
      | Inr from \<Rightarrow>
          (let out = [''current version='' @ decimal from @ '', rolling back 1 migration''] in
           case mg_Steps M (-1) m of
             (Some ErrNoChange, m') \<Rightarrow> ((out @ [''no change''], Inr ()), m')
           | (Some e, m') \<Rightarrow> ((out, Inl (mig_message e)), m')
           | (None, m') \<Rightarrow>
               (case currentVersion M m' of
                  Inl e \<Rightarrow> ((out, Inl e), m')
                | Inr version \<Rightarrow> ((out @ [''now at version='' @ decimal version], Inr ()), m'))))"

definition version_action :: "'m migrate \<Rightarrow> 'm \<Rightarrow> run \<times> 'm" where
  "version_action M m =
     (case mg_Version M m of
        Inl e \<Rightarrow> (([], Inl (mig_message e)), m)
      | Inr (version, dirty) \<Rightarrow> (([''version='' @ decimal version @ '' dirty='' @ print_bool dirty], Inr ()), m))"

text \<open>\<open>main\<close> after the flags and the configuration: the outcomes of opening the source and the migrator are arguments.\<close>

definition migrate_main :: "string \<Rightarrow> string + driver \<Rightarrow> string + 'm migrate \<Rightarrow> 'm \<Rightarrow> (run \<times> 'm) option" where
  "migrate_main action opened connected m =
     (case opened of
        Inl e \<Rightarrow> Some (([], Inl e), m)
      | Inr src \<Rightarrow>
          (case connected of
             Inl e \<Rightarrow> Some (([], Inl e), m)
           | Inr M \<Rightarrow>
               if action = ''up'' then up_action src M m
               else if action = ''down'' then Some (down_action M m)
               else if action = ''version'' then Some (version_action M m)
               else Some (([], Inl ''unknown action''), m)))"

section \<open>Contracts\<close>

text \<open>The versions of a source, in ascending order, and how \<open>First\<close> and \<open>Next\<close> walk them.\<close>

locale migration_source =
  fixes src :: driver and versions :: "nat list"
  assumes ascending: "sorted_wrt (<) versions"
    and first: "First src = (case versions of [] \<Rightarrow> None | v # _ \<Rightarrow> Some v)"
    and next_known: "v \<in> set versions \<Longrightarrow> Next src v = (case filter ((<) v) versions of [] \<Rightarrow> None | u # _ \<Rightarrow> Some u)"
    and next_available: "Next src v = Some u \<Longrightarrow> u \<in> set versions"
begin

lemma ascending_tail:
  assumes "filter ((<) v) versions = u # us"
  shows "u \<in> set versions" "filter ((<) u) versions = us"
proof -
  have u: "u \<in> set versions" "v < u" using hd_filter_mem [OF assms] by simp_all
  have s: "sorted_wrt (<) (u # us)" using sorted_wrt_filter [OF ascending, of "(<) v"] assms by simp
  have "filter ((<) u) versions = filter ((<) u) (filter ((<) v) versions)" using u(2) by (auto intro!: filter_cong)
  also have "\<dots> = us" using s unfolding assms by (auto intro!: filter_True)
  finally show "filter ((<) u) versions = us" .
qed (use hd_filter_mem [OF assms] in simp)

text \<open>From a version of the source the loop ends, and lists it and what lies above it.\<close>

lemma pending_loop_above:
  "u \<in> set versions \<Longrightarrow> pending_loop src u ps = Some (ps @ map (formatMigration src) (u # filter ((<) u) versions))"
proof (induction "filter ((<) u) versions" arbitrary: u ps)
  case Nil
  then show ?case by (subst pending_loop.simps) (simp add: next_known flip: Nil.hyps)
next
  case (Cons u' us)
  note t = ascending_tail [OF Cons.hyps(2) [symmetric]]
  have "pending_loop src u ps = pending_loop src u' (ps @ [formatMigration src u])"
    using Cons.prems by (subst pending_loop.simps) (simp add: next_known flip: Cons.hyps(2))
  then show ?case using Cons.hyps(1) [OF t(2) [symmetric] t(1), of "ps @ [formatMigration src u]"] t(2) Cons.hyps(2) by simp
qed

lemma pendingUp_cases:
  "pendingUp src 0 = Some (map (formatMigration src) versions)"
  "v \<in> set versions \<Longrightarrow> v \<noteq> 0 \<Longrightarrow> pendingUp src v = Some (map (formatMigration src) (filter ((<) v) versions))"
  "\<exists>ps. pendingUp src from = Some ps \<and> length ps \<le> length versions"
proof -
  have tail: "filter ((<) x) (x # xs) = xs" if "sorted_wrt (<) (x # xs)" for x :: nat and xs
    using that by (auto intro!: filter_True)
  show all: "pendingUp src 0 = Some (map (formatMigration src) versions)"
    using first ascending pending_loop_above tail by (cases versions) (simp_all add: pendingUp_def)
  show "pendingUp src v = Some (map (formatMigration src) (filter ((<) v) versions))" if v: "v \<in> set versions" "v \<noteq> 0" for v
  proof (cases "filter ((<) v) versions")
    case (Cons u us)
    then show ?thesis using ascending_tail [OF Cons] v by (simp add: pendingUp_def next_known pending_loop_above)
  qed (use v in \<open>simp add: pendingUp_def next_known\<close>)
  show "\<exists>ps. pendingUp src from = Some ps \<and> length ps \<le> length versions"
  proof (cases "from = 0 \<or> Next src from = None")
    case True
    then show ?thesis using all by (auto simp: pendingUp_def)
  next
    case False
    then obtain u where u: "Next src from = Some u" "u \<in> set versions" using next_available by auto
    then have "length (filter ((<) u) versions) < length versions" by (intro length_filter_less [of u]) simp_all
    then show ?thesis using u False pending_loop_above [OF u(2), of "[]"] by (simp add: pendingUp_def)
  qed
qed

end

text \<open>What the migrator does to the recorded version (\<open>None\<close> before the first migration).\<close>

locale migrator = migration_source +
  fixes M :: "'m migrate" and cur :: "'m \<Rightarrow> nat option" and dirty :: "'m \<Rightarrow> bool"
  assumes version: "mg_Version M m = Inr (v, d) \<Longrightarrow> cur m = Some v \<and> dirty m = d"
    and no_version: "mg_Version M m = Inl ErrNilVersion \<Longrightarrow> cur m = None"
    and up_done: "mg_Up M m = (None, m') \<Longrightarrow> versions \<noteq> [] \<and> cur m' = Some (last versions) \<and> \<not> dirty m'"
    and up_idle: "mg_Up M m = (Some ErrNoChange, m') \<Longrightarrow> cur m' = cur m \<and> versions \<noteq> [] \<and> cur m = Some (last versions)"
begin

lemma currentVersion_Inr:
  assumes "currentVersion M m = Inr v"
  shows "cur m = None \<and> v = 0 \<or> cur m = Some v"
  using assms version no_version by (auto simp: currentVersion_def split: sum.splits mig_error.splits prod.splits)

end

text \<open>The repository's own migrations, and a migrator that keeps the version in its state.\<close>

definition own_source :: driver where
  "own_source = \<lparr>First = Some 1, Next = (\<lambda>_. None), ReadUp = (\<lambda>v. if v = 1 then (''init'', False) else ([], True))\<rparr>"

definition plain_migrate :: "(nat option \<times> bool) migrate" where
  "plain_migrate =
     \<lparr>mg_Version = (\<lambda>(v, d). case v of None \<Rightarrow> Inl ErrNilVersion | Some n \<Rightarrow> Inr (n, d)),
      mg_Up = (\<lambda>(v, d). if d then (Some (MigOther ''dirty''), (v, d)) else if v = Some 1 then (Some ErrNoChange, (v, d)) else (None, (Some 1, False))),
      mg_Steps = (\<lambda>_ (v, d). if d then (Some (MigOther ''dirty''), (v, d)) else if v = None then (Some (MigOther ''file does not exist''), (v, d)) else (None, (None, False)))\<rparr>"

interpretation own: migrator own_source "[1]" plain_migrate fst snd
  by unfold_locales (auto simp: own_source_def plain_migrate_def split: option.splits if_splits)

section \<open>Properties\<close>

text \<open>
  C22 (termination). For every source that keeps its contract listing the pending migrations
  ends, from any version, and lists no more than the source has; from no version it lists
  all, and from a version of the source exactly those above it, in ascending order.
\<close>

theorem pendingUp_ends:
  assumes "migration_source src versions"
  shows "\<exists>ps. pendingUp src from = Some ps \<and> length ps \<le> length versions
    \<and> (from = 0 \<longrightarrow> ps = map (formatMigration src) versions)
    \<and> (from \<noteq> 0 \<and> from \<in> set versions \<longrightarrow> ps = map (formatMigration src) (filter ((<) from) versions))"
proof -
  note p = migration_source.pendingUp_cases [OF assms]
  obtain ps where ps: "pendingUp src from = Some ps" "length ps \<le> length versions" using p(3) by blast
  show ?thesis using p(1,2) ps by (intro exI [of _ ps]) auto
qed

theorem pendingUp_ends_witness: "pendingUp own_source 0 = Some [''1 init'']"
proof -
  have "decimal 1 = ''1''" by (subst decimal.simps) (simp, code_simp)
  then show ?thesis
    using pendingUp_ends [OF own.migration_source_axioms, of 0] by (auto simp: formatMigration_def own_source_def)
qed

lemma up_run:
  assumes "currentVersion M m = Inr v" "pendingUp src v = Some ps"
    and "out = (if ps \<noteq> [] then [''current version='' @ decimal v @ '', applying '' @ decimal (length ps) @ '' migration(s):'']
      @ map (\<lambda>item. ''  -> '' @ item) ps else [])"
  shows "migrate_main ''up'' (Inr src) (Inr M) m =
    (case mg_Up M m of
       (Some ErrNoChange, m') \<Rightarrow> Some ((out @ [''already at version '' @ decimal v @ '', no pending migrations''], Inr ()), m')
     | (Some e, m') \<Rightarrow> Some ((out, Inl (mig_message e)), m')
     | (None, m') \<Rightarrow> (case currentVersion M m' of
         Inl e \<Rightarrow> Some ((out, Inl e), m')
       | Inr version \<Rightarrow> Some ((out @ [''migrated to version='' @ decimal version], Inr ()), m')))"
  unfolding migrate_main_def up_action_def assms(1,2) assms(3) [symmetric] sum.case option.case Let_def if_True refl simp_thms ..

text \<open>
  C23 (functional). A run of \<open>up\<close> always ends. When it reports success, the database is at the
  last version of the source and clean or was there before, the lines listed are those of
  the versions above the old one, each once and in order, and the last line names the version
  the database is at.
\<close>

theorem up_reports:
  assumes M: "migrator src versions M cur dirty" and z: "0 \<notin> set versions" and c: "cur m = None \<or> (\<exists>v \<in> set versions. cur m = Some v)"
  shows "\<exists>out res m'. migrate_main ''up'' (Inr src) (Inr M) m = Some ((out, res), m')
    \<and> (res = Inr () \<longrightarrow>
        (let from = (case cur m of None \<Rightarrow> 0 | Some v \<Rightarrow> v); todo = filter ((<) from) versions in
         versions \<noteq> [] \<and> cur m' = Some (last versions)
         \<and> butlast out = (if todo = [] then []
             else (''current version='' @ decimal from @ '', applying '' @ decimal (length todo) @ '' migration(s):'')
               # map (\<lambda>v. ''  -> '' @ formatMigration src v) todo)
         \<and> last out = (if fst (mg_Up M m) = Some ErrNoChange then ''already at version '' @ decimal (last versions) @ '', no pending migrations''
             else ''migrated to version='' @ decimal (last versions))))"
proof -
  have S: "migration_source src versions" using M by (simp add: migrator_def)
  let ?from = "case cur m of None \<Rightarrow> 0 | Some v \<Rightarrow> v"
  let ?todo = "filter ((<) ?from) versions"
  let ?out = "if ?todo = [] then [] else (''current version='' @ decimal ?from @ '', applying '' @ decimal (length ?todo) @ '' migration(s):'')
               # map (\<lambda>v. ''  -> '' @ formatMigration src v) ?todo"
  have all: "filter ((<) 0) versions = versions" using z by (auto intro!: filter_True) (metis gr0I)
  have pend: "pendingUp src ?from = Some (map (formatMigration src) ?todo)"
    using c z migration_source.pendingUp_cases(1,2) [OF S] all by (cases "cur m") auto
  obtain e m' where up: "mg_Up M m = (e, m')" by fastforce
  show ?thesis
  proof (cases "currentVersion M m")
    case (Inl msg)
    then show ?thesis by (simp add: migrate_main_def up_action_def)
  next
    case (Inr v)
    then have v: "v = ?from" using migrator.currentVersion_Inr [OF M Inr] by auto
    have out: "?out = (if map (formatMigration src) ?todo \<noteq> []
        then [''current version='' @ decimal v @ '', applying '' @ decimal (length (map (formatMigration src) ?todo)) @ '' migration(s):'']
          @ map (\<lambda>item. ''  -> '' @ item) (map (formatMigration src) ?todo) else [])"
      by (simp add: v comp_def)
    have pv: "pendingUp src v = Some (map (formatMigration src) ?todo)" unfolding v by (rule pend)
    note run = up_run [OF Inr pv out, unfolded up prod.case]
    show ?thesis
    proof (cases e)
      case None
      note d = migrator.up_done [OF M up [unfolded None]]
      show ?thesis
      proof (cases "currentVersion M m'")
        case (Inr v')
        then have "v' = last versions" using migrator.currentVersion_Inr [OF M Inr] d by auto
        then show ?thesis using run None Inr d up by (simp add: Let_def)
      qed (use run None in simp)
    next
      case (Some err)
      show ?thesis
      proof (cases "err = ErrNoChange")
        case True
        then show ?thesis using migrator.up_idle [OF M up [unfolded Some True]] run Some up v by (simp add: Let_def)
      next
        case False
        then show ?thesis using run Some by (cases err) auto
      qed
    qed
  qed
qed

theorem up_reports_witness:
  "\<exists>out m'. migrate_main ''up'' (Inr own_source) (Inr plain_migrate) (None, False) = Some ((out, Inr ()), m')
     \<and> fst m' = Some 1 \<and> length out = 3"
proof -
  have "\<exists>out res m'. migrate_main ''up'' (Inr own_source) (Inr plain_migrate) (None, False) = Some ((out, res), m')
      \<and> (res = Inr () \<longrightarrow> fst m' = Some 1 \<and> (\<exists>h l. butlast out = [h, l]))"
    using up_reports [OF own.migrator_axioms, of "(None, False)"]
    by (simp add: Let_def) (elim exE conjE, intro exI conjI, assumption, simp)
  then obtain out res m' where r: "migrate_main ''up'' (Inr own_source) (Inr plain_migrate) (None, False) = Some ((out, res), m')"
    and ok: "res = Inr () \<longrightarrow> fst m' = Some 1 \<and> (\<exists>h l. butlast out = [h, l])" by blast
  have "res = Inr ()"
    using r own.pendingUp_cases(1)
    by (simp add: migrate_main_def up_action_def currentVersion_def plain_migrate_def Let_def)
  moreover from this ok obtain h l where "butlast out = [h, l]" by blast
  then have "length out = 3" by (cases out rule: rev_cases) auto
  ultimately show ?thesis using r ok by blast
qed

end
