(* ===== verification/Accounts.thy ===== *)
theory Accounts
  imports UserProps
begin

text \<open>
  What the server promises about accounts and their sessions, without Redis, Postgres, keys or
  scripts: an abstract state of a clock, the accounts and the sessions, the steps that may
  change it, and the invariant these steps keep. An account is changed or removed only while
  it has no session with time left, so every such session mirrors its account.
\<close>

record account_view =
  v_clock :: int
  v_rows :: "user list"
  v_sessions :: "string \<rightharpoonup> authSessionRecord \<times> int"

section \<open>Steps\<close>

definition no_sessions_of :: "string \<Rightarrow> account_view \<Rightarrow> bool" where
  "no_sessions_of i v \<longleftrightarrow> (\<forall>sid r e. v_sessions v sid = Some (r, e) \<longrightarrow> v_clock v < e \<longrightarrow> owner r \<noteq> i)"

definition unexpired :: "int \<Rightarrow> (string \<rightharpoonup> authSessionRecord \<times> int) \<Rightarrow> string \<rightharpoonup> authSessionRecord \<times> int" where
  "unexpired t tb sid = (case tb sid of Some (r, e) \<Rightarrow> if t \<le> e then Some (r, e) else None | None \<Rightarrow> None)"

inductive account_step :: "account_view \<Rightarrow> account_view \<Rightarrow> bool" where
  grant: "u \<in> set (v_rows v) \<Longrightarrow> Active u \<Longrightarrow> v_sessions v sid = None \<Longrightarrow>
    account_step v (v\<lparr>v_sessions := (v_sessions v)(sid \<mapsto> (login_record u jti rt, e))\<rparr>)"
| rotate: "v_sessions v sid = Some (r, e) \<Longrightarrow> v_clock v < e \<Longrightarrow>
    account_step v (v\<lparr>v_sessions := (v_sessions v)(sid \<mapsto> (rotated r d jti, e))\<rparr>)"
| revoke: "account_step v (v\<lparr>v_sessions := v_sessions v |` S\<rparr>)"
| enrol: "\<forall>r \<in> set (v_rows v). ID r \<noteq> ID u \<and> Email r \<noteq> Email u \<Longrightarrow>
    account_step v (v\<lparr>v_rows := v_rows v @ [u]\<rparr>)"
| change: "no_sessions_of i v \<Longrightarrow> (\<And>u. ID (f u) = ID u) \<Longrightarrow>
    account_step v (v\<lparr>v_rows := map (\<lambda>u. if ID u = i then f u else u) (v_rows v)\<rparr>)"
| remove: "no_sessions_of i v \<Longrightarrow> account_step v (v\<lparr>v_rows := filter (\<lambda>u. ID u \<noteq> i) (v_rows v)\<rparr>)"
| tick: "v_clock v \<le> t \<Longrightarrow> account_step v (v\<lparr>v_clock := t, v_sessions := unexpired t (v_sessions v)\<rparr>)"

section \<open>The invariant\<close>

text \<open>A session is the copy of an account that a login makes of it.\<close>

definition mirrors :: "account_view \<Rightarrow> bool" where
  "mirrors v \<longleftrightarrow> (\<forall>sid r e. v_sessions v sid = Some (r, e) \<longrightarrow> v_clock v < e \<longrightarrow>
     (\<exists>u \<in> set (v_rows v). Active u \<and> ar_AuthSession r = (NewAuthSession u)\<lparr>s_AccessJTI := s_AccessJTI (ar_AuthSession r)\<rparr>))"

lemma mirrorsD:
  assumes "mirrors v" "v_sessions v sid = Some (r, e)" "v_clock v < e"
  obtains u where "u \<in> set (v_rows v)" "Active u" "ar_AuthSession r = (NewAuthSession u)\<lparr>s_AccessJTI := s_AccessJTI (ar_AuthSession r)\<rparr>"
    "owner r = ID u"
proof -
  obtain u where u: "u \<in> set (v_rows v)" "Active u" "ar_AuthSession r = (NewAuthSession u)\<lparr>s_AccessJTI := s_AccessJTI (ar_AuthSession r)\<rparr>"
    using assms unfolding mirrors_def by blast
  from arg_cong [OF u(3), of s_UserID] have "owner r = ID u" by simp
  with u show thesis by (rule that)
qed

lemma mirrors_mono:
  assumes "mirrors v" "v_clock v \<le> v_clock v'"
    and "\<And>sid r e. v_sessions v' sid = Some (r, e) \<Longrightarrow> v_sessions v sid = Some (r, e)"
    and "\<And>u sid r e. u \<in> set (v_rows v) \<Longrightarrow> v_sessions v' sid = Some (r, e) \<Longrightarrow> v_clock v' < e \<Longrightarrow> owner r = ID u \<Longrightarrow> u \<in> set (v_rows v')"
  shows "mirrors v'"
  unfolding mirrors_def
proof (intro allI impI)
  fix sid r e
  assume s: "v_sessions v' sid = Some (r, e)" "v_clock v' < e"
  then have "v_sessions v sid = Some (r, e)" "v_clock v < e" using assms(2,3) by auto
  from mirrorsD [OF assms(1) this] obtain u where u: "u \<in> set (v_rows v)" "Active u"
    "ar_AuthSession r = (NewAuthSession u)\<lparr>s_AccessJTI := s_AccessJTI (ar_AuthSession r)\<rparr>" "owner r = ID u" .
  then show "\<exists>u \<in> set (v_rows v'). Active u \<and> ar_AuthSession r = (NewAuthSession u)\<lparr>s_AccessJTI := s_AccessJTI (ar_AuthSession r)\<rparr>"
    using assms(4) [OF u(1) s u(4)] by blast
qed

lemma no_sessions_apart:
  "no_sessions_of i v \<Longrightarrow> v_sessions v sid = Some (r, e) \<Longrightarrow> v_clock v < e \<Longrightarrow> owner r = ID u \<Longrightarrow> ID u \<noteq> i"
  unfolding no_sessions_of_def by metis

lemma unexpired_Some [simp]: "unexpired t tb sid = Some (r, e) \<longleftrightarrow> tb sid = Some (r, e) \<and> t \<le> e"
  by (auto simp: unexpired_def split: option.splits)

lemma mirrors_step:
  assumes "account_step v v'" "mirrors v"
  shows "mirrors v'"
  using assms(1)
proof cases
  case (grant u sid jti rt e)
  then show ?thesis using assms(2) by (auto simp: mirrors_def)
next
  case (rotate sid r e d jti)
  from mirrorsD [OF assms(2) rotate(2,3)] obtain u where "u \<in> set (v_rows v)" "Active u"
    "ar_AuthSession r = (NewAuthSession u)\<lparr>s_AccessJTI := s_AccessJTI (ar_AuthSession r)\<rparr>" "owner r = ID u" .
  then have "\<exists>u \<in> set (v_rows v). Active u \<and> (ar_AuthSession r)\<lparr>s_AccessJTI := jti\<rparr> = (NewAuthSession u)\<lparr>s_AccessJTI := jti\<rparr>"
    by (metis auth_session.surjective auth_session.update_convs(6))
  then show ?thesis using assms(2) rotate(1) by (auto simp: mirrors_def)
next
  case (revoke S)
  then show ?thesis by (auto intro: mirrors_mono [OF assms(2)] simp: restrict_map_def split: if_splits)
next
  case (enrol u)
  then show ?thesis by (auto intro: mirrors_mono [OF assms(2)])
next
  case (change i f)
  have "u \<in> set (map (\<lambda>u. if ID u = i then f u else u) (v_rows v))" if "u \<in> set (v_rows v)" "ID u \<noteq> i" for u
    using that by force
  then show ?thesis using no_sessions_apart [OF change(2)] change(1) by (intro mirrors_mono [OF assms(2)]) (simp_all, blast)
next
  case (remove i)
  then show ?thesis using no_sessions_apart [OF remove(2)] remove(1) by (intro mirrors_mono [OF assms(2)]) (simp_all, blast)
next
  case (tick t)
  then show ?thesis by (auto intro: mirrors_mono [OF assms(2)])
qed

lemma mirrors_steps: "account_step\<^sup>*\<^sup>* v v' \<Longrightarrow> mirrors v \<Longrightarrow> mirrors v'"
  by (induction rule: rtranclp_induct) (auto intro: mirrors_step)

end
