(* ===== verification/Moves.thy ===== *)
theory Moves
  imports Accounts UserListing ServerProps
begin

text \<open>
  The handlers as sequences of the abstract steps of \<open>Accounts\<close>: \<open>moves w w'\<close> says that a
  change of the world keeps the invariants of both stores and is such a sequence for the
  accounts and sessions in them. Every call to a component moves, and so does every handler.
\<close>

definition accounts :: "('r \<Rightarrow> keyspace) \<Rightarrow> ('d \<Rightarrow> user list) \<Rightarrow> ('r, 'd) world \<Rightarrow> account_view" where
  "accounts ks rows w =
     \<lparr>v_clock = clock (w_redis w), v_rows = rows (d_state (w_db w)), v_sessions = table ks (w_redis w)\<rparr>"

definition ok_world :: "('r \<Rightarrow> keyspace) \<Rightarrow> ('d \<Rightarrow> user list) \<Rightarrow> (string \<Rightarrow> string option) \<Rightarrow> ('r, 'd) world \<Rightarrow> bool" where
  "ok_world ks rows uuid_in w \<longleftrightarrow>
     session_inv (clock (w_redis w)) (ks (server (w_redis w))) \<and> table_ok uuid_in (rows (d_state (w_db w)))"

definition moves ::
    "('r \<Rightarrow> keyspace) \<Rightarrow> ('d \<Rightarrow> user list) \<Rightarrow> (string \<Rightarrow> string option) \<Rightarrow> ('r, 'd) world \<Rightarrow> ('r, 'd) world \<Rightarrow> bool" where
  "moves ks rows uuid_in w w' \<longleftrightarrow> (ok_world ks rows uuid_in w \<longrightarrow>
     ok_world ks rows uuid_in w' \<and> clock (w_redis w') = clock (w_redis w)
     \<and> account_step\<^sup>*\<^sup>* (accounts ks rows w) (accounts ks rows w'))"

lemma moves_refl [simp, intro]: "moves ks rows uuid_in w w"
  by (simp add: moves_def)

lemma moves_trans: "moves ks rows uuid_in w w1 \<Longrightarrow> moves ks rows uuid_in w1 w2 \<Longrightarrow> moves ks rows uuid_in w w2"
  unfolding moves_def by (metis rtranclp_trans)

lemma moves_ok: "moves ks rows uuid_in w w' \<Longrightarrow> ok_world ks rows uuid_in w \<Longrightarrow> ok_world ks rows uuid_in w'"
  by (simp add: moves_def)

lemma movesI:
  assumes "ok_world ks rows uuid_in w \<Longrightarrow> moves ks rows uuid_in w w'"
  shows "moves ks rows uuid_in w w'"
  using assms by (auto simp: moves_def)

text \<open>The parts of an abstract state that a change of one store leaves alone.\<close>

lemma accounts_simps [simp]:
  "v_clock (accounts ks rows w) = clock (w_redis w)" "v_rows (accounts ks rows w) = rows (d_state (w_db w))"
  "v_sessions (accounts ks rows w) = table ks (w_redis w)"
  by (simp_all add: accounts_def)

lemma redis_quiet:
  assumes "w_db w' = w_db w" "clock (w_redis w') = clock (w_redis w)" "table ks (w_redis w') = table ks (w_redis w)"
    "view_inv ks (w_redis w) \<Longrightarrow> view_inv ks (w_redis w')"
  shows "moves ks rows uuid_in w w'"
  using assms by (simp add: moves_def ok_world_def accounts_def)

lemma db_quiet:
  assumes "w_redis w' = w_redis w" "rows (d_state (w_db w')) = rows (d_state (w_db w))"
  shows "moves ks rows uuid_in w w'"
  using assms by (simp add: moves_def ok_world_def accounts_def)

lemma redis_step:
  assumes "w_db w' = w_db w" "clock (w_redis w') = clock (w_redis w)" "view_inv ks (w_redis w')"
    and "account_step (accounts ks rows w) ((accounts ks rows w)\<lparr>v_sessions := table ks (w_redis w')\<rparr>)"
  shows "moves ks rows uuid_in w w'"
proof -
  have e: "(accounts ks rows w)\<lparr>v_sessions := table ks (w_redis w')\<rparr> = accounts ks rows w'" using assms by (simp add: accounts_def)
  show ?thesis using r_into_rtranclp [of account_step, OF assms(4) [unfolded e]] assms by (simp add: moves_def ok_world_def)
qed

lemma db_step:
  assumes "w_redis w' = w_redis w" "table_ok uuid_in (rows (d_state (w_db w')))"
    and "account_step (accounts ks rows w) ((accounts ks rows w)\<lparr>v_rows := rows (d_state (w_db w'))\<rparr>)"
  shows "moves ks rows uuid_in w w'"
proof -
  have e: "(accounts ks rows w)\<lparr>v_rows := rows (d_state (w_db w'))\<rparr> = accounts ks rows w'" using assms by (simp add: accounts_def)
  show ?thesis using r_into_rtranclp [of account_step, OF assms(3) [unfolded e]] assms by (simp add: moves_def ok_world_def)
qed

section \<open>The session store\<close>

lemma sessions_removed_restrict: "removed S t ks ks' \<Longrightarrow> sessions t ks' = sessions t ks |` (- S)"
  by (simp add: fun_eq_iff sessions_removed restrict_map_def)

lemma account_revoke: "tb = v_sessions v |` S \<Longrightarrow> account_step v (v\<lparr>v_sessions := tb\<rparr>)"
  by (simp add: account_step.revoke)

lemma removed_moves:
  assumes "ok_world ks rows uuid_in w" "writes ks (removed S (clock (w_redis w)) (ks (server (w_redis w)))) x (w_redis w) r"
  shows "moves ks rows uuid_in w (w\<lparr>w_redis := r\<rparr>)"
  using assms(2)
proof (cases rule: writes_cases)
  case wrote
  have inv: "view_inv ks (w_redis w)" using assms(1) by (simp add: ok_world_def)
  show ?thesis
    by (rule redis_step) (use wrote inv_removed [OF inv wrote(2)] in
      \<open>simp_all add: sessions_removed_restrict [OF wrote(2)] account_revoke\<close>)
qed (auto intro: redis_quiet)

context services
begin

abbreviation mv :: "('r, 'd) world \<Rightarrow> ('r, 'd) world \<Rightarrow> bool" where "mv \<equiv> moves ks rows uuid_in"

lemma reader_moves: "session_reader X sid w = (x, w') \<Longrightarrow> mv w w'"
proof (rule movesI)
  assume r: "session_reader X sid w = (x, w')" and "ok_world ks rows uuid_in w"
  then have inv: "view_inv ks (w_redis w)" by (simp add: ok_world_def)
  obtain y q where g: "SessionStore_Get (x_redis X) (w_redis w) sid = (y, q)" by fastforce
  from Get_view [OF inv g] r g show "mv w w'" by (intro redis_quiet) (auto simp: session_reader_def)
qed

lemma delete_moves: "SessionStore_Delete (x_redis X) (w_redis w) sid = (x, r) \<Longrightarrow> mv w (w\<lparr>w_redis := r\<rparr>)"
  by (rule movesI, rule removed_moves, assumption) (auto simp: ok_world_def intro: Delete_writes)

lemma delete_digest_moves: "SessionStore_DeleteByRefreshDigest (x_redis X) (w_redis w) d = (x, r) \<Longrightarrow> mv w (w\<lparr>w_redis := r\<rparr>)"
  by (rule movesI, rule removed_moves, assumption) (auto simp: ok_world_def intro: DeleteByRefreshDigest_writes)

lemma invalidate_moves: "InvalidateUserSessions X w uid = (x, w') \<Longrightarrow> uid \<noteq> [] \<Longrightarrow> mv w w'"
proof (rule movesI)
  assume r: "InvalidateUserSessions X w uid = (x, w')" "uid \<noteq> []" and ok: "ok_world ks rows uuid_in w"
  obtain y q where g: "SessionStore_DeleteUserSessions (x_redis X) (w_redis w) uid = (y, q)" by fastforce
  have "view_inv ks (w_redis w)" using ok by (simp add: ok_world_def)
  from DeleteUserSessions_writes [OF this g r(2)] have "mv w (w\<lparr>w_redis := q\<rparr>)" by (rule removed_moves [OF ok])
  then show "mv w w'" using r g by (simp add: InvalidateUserSessions_def)
qed


text \<open>A session of an account, and the replacement of a session.\<close>

lemma create_moves:
  assumes run: "SessionStore_Create (x_redis X) (w_redis w) now sid ((NewAuthSession u)\<lparr>s_AccessJTI := jti\<rparr>) (HashTokenHex rt) ttl = (x, r)"
    and now: "unix_milli now = clock (w_redis w)" "second dvd ttl" and u: "u \<in> set (rows (d_state (w_db w)))" "Active u" "valid_utf8 jti"
    and f: "fresh (clock (w_redis w)) (ks (server (w_redis w))) sid (HashTokenHex rt)"
  shows "mv w (w\<lparr>w_redis := r\<rparr>)"
proof (rule movesI)
  assume ok: "ok_world ks rows uuid_in w"
  then have inv: "view_inv ks (w_redis w)" and t: "table_ok uuid_in (rows (d_state (w_db w)))" by (simp_all add: ok_world_def)
  note utf8 = login_record_utf8(1) [OF t u(1,3)]
  obtain n where n: "ttl = n * second" using now(2) by (metis dvdE mult.commute)
  show "mv w (w\<lparr>w_redis := r\<rparr>)"
  proof (cases "0 < n")
    case True
    show ?thesis
      using Create_writes [OF inv now(1) True run [unfolded n]]
    proof (cases rule: writes_cases)
      case wrote
      let ?e = "clock (w_redis w) + n * 1000"
      have rec: "record_ok (login_record u jti rt)" using wrote(2) utf8 by (simp add: record_ok_def)
      have cr: "created (clock (w_redis w)) (ks (server (w_redis w))) (ks (server r)) sid
          (json_object (record_fields (login_record u jti rt))) (HashTokenHex rt) (ID u) ?e"
        using wrote(2) by (simp add: record_ok_def)
      have inv': "view_inv ks r" unfolding wrote(1) by (rule inv_created [OF inv f rec _ _ _ cr]) (use wrote(2) True in auto)
      have new: "table ks (w_redis w) sid = None" using f by (simp add: fresh_def sessions_def)
      have "table ks r = (table ks (w_redis w))(sid \<mapsto> (login_record u jti rt, ?e))"
        unfolding wrote(1) by (rule sessions_created [OF cr rec])
      then show ?thesis
        using account_step.grant [of u "accounts ks rows w" sid jti rt ?e] new u wrote(1) inv' by (intro redis_step) simp_all
    qed (auto intro: redis_quiet)
  next
    case False
    then have "r = w_redis w" using run n by (auto simp: SessionStore_Create_def)
    then show ?thesis by simp
  qed
qed

lemma rotate_moves:
  assumes run: "SessionStore_Rotate (x_redis X) (w_redis w) d (HashTokenHex rt) jti = (x, r)"
    and j: "jti \<noteq> []" "valid_utf8 jti"
    and f: "live (clock (w_redis w)) (ks (server (w_redis w))) (authRefreshKey (HashTokenHex rt)) = None"
  shows "mv w (w\<lparr>w_redis := r\<rparr>)"
proof (rule movesI)
  assume "ok_world ks rows uuid_in w"
  then have inv: "view_inv ks (w_redis w)" by (simp add: ok_world_def)
  have no: "digest_session (clock (w_redis w)) (ks (server (w_redis w))) (HashTokenHex rt) = None"
    using f by (simp add: digest_session_def)
  have "writes ks (rotation (clock (w_redis w)) (ks (server (w_redis w))) d (HashTokenHex rt) jti x) x (w_redis w) r"
    by (rule Rotate_writes [OF inv _ j(2) run]) simp
  then show "mv w (w\<lparr>w_redis := r\<rparr>)"
  proof (cases rule: writes_cases)
    case wrote
    then obtain sid q e where s: "table ks (w_redis w) sid = Some (q, e)" "clock (w_redis w) < e"
      "ks (server r) = swapped (clock (w_redis w)) (ks (server (w_redis w))) sid q (HashTokenHex rt) jti e"
      unfolding rotation_def by blast
    have "record_ok q" using s(1) inv_sessions_iff [OF inv] unfolding holds_def by blast
    then have ok: "record_ok (rotated q (HashTokenHex rt) jti)" by (rule rotated_ok) (use j in simp_all)
    have inv': "view_inv ks r" unfolding wrote(1) s(3) by (rule inv_swapped [OF inv s(1) ok no])
    have "table ks r = (table ks (w_redis w))(sid \<mapsto> (rotated q (HashTokenHex rt) jti, e))"
      unfolding wrote(1) s(3) swapped_def by (rule sessions_rotate_effect [OF _ ok]) (use s(2) in simp)
    then show ?thesis
      using account_step.rotate [of "accounts ks rows w" sid q e "HashTokenHex rt" jti] s wrote(1) inv' by (intro redis_step) simp_all
  qed (auto intro: redis_quiet)
qed

end

section \<open>Reads of the online state and the captcha store\<close>

lemma pipelined_same: "(\<And>m s. m \<in> set ms \<Longrightarrow> snd (m s) = s) \<Longrightarrow> snd (pipelined ms s) = s"
proof -
  assume "\<And>m s. m \<in> set ms \<Longrightarrow> snd (m s) = s"
  then have "snd (run_all ms s) = s" by (induction ms) (simp_all add: Let_def case_prod_beta)
  then show ?thesis by (simp add: pipelined_def Let_def case_prod_beta split: option.splits)
qed

lemma online_reads:
  "snd (pipelined (map (\<lambda>u. ks_zrangebyscore t (authUserSessionsKey u) a n) us) s) = s"
  "snd (pipelined (map (\<lambda>sid. ks_exists t (authSessionKey sid)) ss) s) = s"
  by (rule pipelined_same, auto simp: ks_zrangebyscore_def ask_zset_def ks_exists_def split: option.splits prod.splits rvalue.splits)+

lemma OnlineMap_frame:
  assumes "SessionStore_OnlineMap (ks_redis cj) c now ids = (x, c')"
  shows "clock c' = clock c \<and> server c' = server c"
proof (cases "uniqueUserIDs ids = []")
  case False
  let ?us = "uniqueUserIDs ids"
  obtain y c1 where y: "call (\<lambda>t. pipelined (map (\<lambda>u. ks_zrangebyscore t (authUserSessionsKey u) (unix_milli now) 1) ?us)) c = (y, c1)"
    by fastforce
  have c1: "clock c1 = clock c" "server c1 = server c" using call_reads [OF y] online_reads(1) by simp_all
  show ?thesis
  proof (cases y)
    case (Inr replies)
    obtain S M where sm: "first_sessions (zip ?us replies) ([], Map.empty) = (S, M)" by fastforce
    obtain z c2 where z: "call (\<lambda>t. pipelined (map (\<lambda>s. ks_exists t (authSessionKey s)) S)) c1 = (z, c2)" by fastforce
    have "clock c2 = clock c1" "server c2 = server c1" using call_reads [OF z] online_reads(2) by simp_all
    then show ?thesis using assms False y c1 Inr sm z by (auto simp: SessionStore_OnlineMap_def Let_def split: if_splits sum.splits)
  qed (use assms False y c1 in \<open>auto simp: SessionStore_OnlineMap_def Let_def\<close>)
qed (use assms in \<open>simp add: SessionStore_OnlineMap_def\<close>)

context services
begin

lemma online_moves: "UsersOnline X w now ids = (x, w') \<Longrightarrow> mv w w'"
proof -
  assume r: "UsersOnline X w now ids = (x, w')"
  obtain y q where g: "SessionStore_OnlineMap (x_redis X) (w_redis w) now ids = (y, q)" by fastforce
  have "SessionStore_OnlineMap (ks_redis (rd_cjson (x_redis X))) (conn_view ks (w_redis w)) now ids = (y, conn_view ks q)"
    using g by (simp add: OnlineMap_sim)
  from OnlineMap_frame [OF this] r g show ?thesis by (intro redis_quiet) (auto simp: UsersOnline_def)
qed

lemma captcha_moves:
  "CaptchaStore_Put (x_redis X) (w_redis w) cid a ttl = (x, r) \<Longrightarrow> mv w (w\<lparr>w_redis := r\<rparr>)"
  "CaptchaStore_AllowIssue (x_redis X) (w_redis w) ip l m = (z, r) \<Longrightarrow> mv w (w\<lparr>w_redis := r\<rparr>)"
  "consumeLoginCaptcha X s c w i b = (ok, c', w') \<Longrightarrow> mv w w'"
proof -
  show "mv w (w\<lparr>w_redis := r\<rparr>)" if "CaptchaStore_Put (x_redis X) (w_redis w) cid a ttl = (x, r)"
    by (rule redis_quiet) (use captcha_keeps_sessions [OF redis_server_axioms disjI1 [OF that]] in auto)
  show "mv w (w\<lparr>w_redis := r\<rparr>)" if "CaptchaStore_AllowIssue (x_redis X) (w_redis w) ip l m = (z, r)"
    by (rule redis_quiet) (use captcha_keeps_sessions [OF redis_server_axioms disjI2 [OF disjI2 [OF that]]] in auto)
  show "mv w w'" if "consumeLoginCaptcha X s c w i b = (ok, c', w')"
    by (rule redis_quiet) (use consume_captcha(1-4) [OF that] in simp_all)
qed

section \<open>The users table\<close>

lemma list_moves: "ListUsers U (x_db X) (w_db w) off l e ro a = (x, d) \<Longrightarrow> mv w (w\<lparr>w_db := d\<rparr>)"
proof -
  assume r: "ListUsers U (x_db X) (w_db w) off l e ro a = (x, d)"
  have find: "rows (d_state c') = rows (d_state c)" if "dcall (db_Find (x_db X) cs o1 l1) c = (y, c')" for cs o1 l1 c y c'
    using that find_rows [of cs o1 l1 "d_state c"] by (auto simp: dcall_def Let_def case_prod_beta split: list.splits fault.splits)
  have count: "rows (d_state c') = rows (d_state c)" if "dcall (db_Count (x_db X) cs) c = (y, c')" for cs c y c'
    using dcall_view(1) [OF sim_Count that] by (simp add: tb_Count_same)
  have "rows (d_state d) = rows (d_state (w_db w))"
    using r by (auto simp: ListUsers_def FindByPage_def Let_def split: prod.splits sum.splits if_splits dest!: find count)
  then show ?thesis by (intro db_quiet) simp_all
qed

lemma find_moves:
  "FindUserByID (x_db X) (w_db w) uid = (x, d) \<Longrightarrow> mv w (w\<lparr>w_db := d\<rparr>)"
  "FindUserByEmail U (x_db X) (w_db w) e = (x, d) \<Longrightarrow> mv w (w\<lparr>w_db := d\<rparr>)"
  using FindUserByID_keeps FindUserByEmail_keeps by (auto intro!: db_quiet)

lemma write_moves:
  assumes "repo_step B (x_db X) (w_db w) d"
    and "rows (d_state d) = rows (d_state (w_db w)) \<or> account_step (accounts ks rows w) ((accounts ks rows w)\<lparr>v_rows := rows (d_state d)\<rparr>)"
  shows "mv w (w\<lparr>w_db := d\<rparr>)"
proof (rule movesI)
  assume "ok_world ks rows uuid_in w"
  then have "table_ok uuid_in (rows (d_state d))" using step_table_ok [OF assms(1)] by (simp add: ok_world_def)
  then show "mv w (w\<lparr>w_db := d\<rparr>)" using assms(2) by (elim disjE) (auto intro: db_quiet db_step)
qed

lemma tb_Create_adds:
  "snd (tb_Create uuid_in tm u us) = us \<or>
    (\<exists>v. (\<forall>r \<in> set us. ID r \<noteq> ID v \<and> Email r \<noteq> Email v) \<and> snd (tb_Create uuid_in tm u us) = us @ [v])"
  by (auto simp: tb_Create_def list_ex_iff split: option.splits)

lemma CreateUser_moves: "CreateUser (x_db X) (w_db w) u = (x, d) \<Longrightarrow> mv w (w\<lparr>w_db := d\<rparr>)"
proof (rule write_moves)
  assume r: "CreateUser (x_db X) (w_db w) u = (x, d)"
  show "repo_step B (x_db X) (w_db w) d" for B using r by (rule repo_step.create)
  obtain y c1 where y: "dcall (db_Create (x_db X) u) (w_db w) = (y, c1)" by fastforce
  have "rows (d_state d) = rows (d_state (w_db w)) \<or> rows (d_state d) = snd (tb_Create uuid_in tm u (rows (d_state (w_db w))))"
    using dcall_view(1) [OF sim_Create y] r y by (auto simp: CreateUser_def split: sum.splits sql_error.splits)
  then consider "rows (d_state d) = rows (d_state (w_db w))"
    | v where "\<forall>r \<in> set (rows (d_state (w_db w))). ID r \<noteq> ID v \<and> Email r \<noteq> Email v" "rows (d_state d) = rows (d_state (w_db w)) @ [v]"
    using tb_Create_adds by metis
  then show "rows (d_state d) = rows (d_state (w_db w)) \<or>
      account_step (accounts ks rows w) ((accounts ks rows w)\<lparr>v_rows := rows (d_state d)\<rparr>)"
  proof cases
    case (2 v)
    then show ?thesis using account_step.enrol [of "accounts ks rows w" v] by simp
  qed simp
qed


text \<open>Changes and removals of an account need it to have no session with time left.\<close>

lemma account_change:
  "no_sessions_of i (accounts ks rows w) \<Longrightarrow> (\<And>r. ID (f r) = ID r) \<Longrightarrow> us = map (\<lambda>r. if ID r = i then f r else r) (rows (d_state (w_db w))) \<Longrightarrow>
    account_step (accounts ks rows w) ((accounts ks rows w)\<lparr>v_rows := us\<rparr>)"
  using account_step.change [of i "accounts ks rows w" f] by simp

lemma account_remove:
  "no_sessions_of i (accounts ks rows w) \<Longrightarrow> us = filter (\<lambda>r. ID r \<noteq> i) (rows (d_state (w_db w))) \<Longrightarrow>
    account_step (accounts ks rows w) ((accounts ks rows w)\<lparr>v_rows := us\<rparr>)"
  using account_step.remove [of i "accounts ks rows w"] by simp

lemma patched_ID [simp]: "ID (patched now u r) = ID r"
  by (simp add: patched_def)

lemma UpdateUser_moves:
  assumes "UpdateUser (x_db X) (w_db w) u = (x, d)" "\<And>i. uuid_in (ID u) = Some i \<Longrightarrow> no_sessions_of i (accounts ks rows w)"
  shows "mv w (w\<lparr>w_db := d\<rparr>)"
proof (rule write_moves)
  show "repo_step B (x_db X) (w_db w) d" for B using assms(1) by (rule repo_step.update)
  show "rows (d_state d) = rows (d_state (w_db w)) \<or>
      account_step (accounts ks rows w) ((accounts ks rows w)\<lparr>v_rows := rows (d_state d)\<rparr>)"
    using UpdateUser_any [OF assms(1)]
  proof (elim disjE exE conjE)
    fix i now assume "uuid_in (ID u) = Some i" "tab d = map (\<lambda>r. if ID r = i then patched now u r else r) (tab (w_db w))"
    then show ?thesis by (intro disjI2 account_change [OF assms(2) patched_ID])
  qed (rule disjI1)
qed

lemma SetUserActive_any:
  assumes "SetUserActive (x_db X) c uid a = (x, c')"
  shows "tab c' = tab c \<or> (\<exists>i. uuid_in uid = Some i \<and> tab c' = map (\<lambda>r. if ID r = i then r\<lparr>Active := a\<rparr> else r) (tab c))"
proof -
  obtain y c1 where y: "dcall (db_Updates (x_db X) [IdEq uid] [SetActive a]) c = (y, c1)" by fastforce
  have c': "tab c' = tab c1"
    using assms y by (auto simp: SetUserActive_def split: sum.splits sql_error.splits if_splits dest: FindUserByID_keeps)
  obtain now where now: "dsim rows (db_Updates (x_db X) [IdEq uid] [SetActive a]) (tb_Updates uuid_in now [IdEq uid] [SetActive a]) (d_state c)"
    using sim_Updates by (rule exE)
  let ?us = "snd (tb_Updates uuid_in now [IdEq uid] [SetActive a] (tab c))"
  have "?us = tab c \<or> (\<exists>i. uuid_in uid = Some i \<and> ?us = map (\<lambda>r. if ID r = i then r\<lparr>Active := a\<rparr> else r) (tab c))"
  proof (cases "uuid_in uid")
    case (Some i)
    then show ?thesis by (auto simp: tb_Updates_def Let_def matches_id assigned_def)
  qed (simp add: tb_Updates_def)
  then show ?thesis using dcall_view(1) [OF now y] unfolding c' by (elim disjE) auto
qed

lemma SetUserActive_moves:
  assumes "SetUserActive (x_db X) (w_db w) uid a = (x, d)" "\<And>i. uuid_in uid = Some i \<Longrightarrow> no_sessions_of i (accounts ks rows w)"
  shows "mv w (w\<lparr>w_db := d\<rparr>)"
proof (rule write_moves)
  show "repo_step B (x_db X) (w_db w) d" for B using assms(1) by (rule repo_step.set_active)
  show "rows (d_state d) = rows (d_state (w_db w)) \<or>
      account_step (accounts ks rows w) ((accounts ks rows w)\<lparr>v_rows := rows (d_state d)\<rparr>)"
    using SetUserActive_any [OF assms(1)]
  proof (elim disjE exE conjE)
    fix i assume "uuid_in uid = Some i" "tab d = map (\<lambda>r. if ID r = i then r\<lparr>Active := a\<rparr> else r) (tab (w_db w))"
    then show ?thesis by (intro disjI2 account_change [where i = i and f = "\<lambda>r. r\<lparr>Active := a\<rparr>"] assms(2)) simp_all
  qed (rule disjI1)
qed

lemma DeleteUser_moves:
  assumes "DeleteUser (x_db X) (w_db w) uid = (x, d)" "\<And>i. uuid_in uid = Some i \<Longrightarrow> no_sessions_of i (accounts ks rows w)"
  shows "mv w (w\<lparr>w_db := d\<rparr>)"
proof (rule write_moves)
  show "repo_step B (x_db X) (w_db w) d" for B using assms(1) by (rule repo_step.delete)
  obtain y c1 where y: "dcall (db_Delete (x_db X) [IdEq uid]) (w_db w) = (y, c1)" by fastforce
  have "d = c1" using assms(1) y by (auto simp: DeleteUser_def split: sum.splits sql_error.splits if_splits)
  then have "rows (d_state d) = rows (d_state (w_db w)) \<or> (\<exists>i. uuid_in uid = Some i \<and> rows (d_state d) = filter (\<lambda>r. ID r \<noteq> i) (rows (d_state (w_db w))))"
    using dcall_view(1) [OF sim_Delete y] by (cases "uuid_in uid") (auto simp: tb_Delete_def matches_id)
  then show "rows (d_state d) = rows (d_state (w_db w)) \<or>
      account_step (accounts ks rows w) ((accounts ks rows w)\<lparr>v_rows := rows (d_state d)\<rparr>)"
  proof (elim disjE exE conjE)
    fix i assume "uuid_in uid = Some i" "tab d = filter (\<lambda>r. ID r \<noteq> i) (tab (w_db w))"
    then show ?thesis by (intro disjI2 account_remove [OF assms(2)])
  qed (rule disjI1)
qed

lemma invalidated:
  assumes "invalidateSessions X c w uid = (None, w')" "uid \<noteq> []" "ok_world ks rows uuid_in w"
  shows "no_sessions_of uid (accounts ks rows w')"
proof -
  have inv: "view_inv ks (w_redis w)" using assms(3) by (simp add: ok_world_def)
  note r = revokes [OF inv invalidate_None(1) [OF assms(1)] assms(2)]
  have "e = clock (w_redis w)" if "table ks (w_redis w') sid = Some (r, e)" "owner r = uid" for sid r e
    using r(3) that unfolding revoked_def by blast
  then show ?thesis using r(1) unfolding no_sessions_of_def accounts_simps by fastforce
qed

end

end
