(* ===== verification/HandlerMoves.thy ===== *)
theory HandlerMoves
  imports Moves
begin

text \<open>
  Every handler of the route table moves (see \<open>Moves\<close>). Those that create or replace a session
  need their draws to be fresh, those that change an account by the id in the path need that
  id to be spelled as the database spells it.
\<close>

section \<open>Authentication handlers\<close>

context services
begin

lemma put_then:
  assumes "mv w (w\<lparr>w_redis := r\<rparr>)" "CaptchaStore_Put (x_redis X) r cid a ttl = (x, q)"
  shows "mv w (w\<lparr>w_redis := q\<rparr>)"
  using moves_trans [OF assms(1) captcha_moves(1) [of "w\<lparr>w_redis := r\<rparr>"]] assms(2) by simp

lemma delete_then:
  assumes "mv w (w\<lparr>w_redis := r\<rparr>)" "SessionStore_Delete (x_redis X) r sid = (x, q)"
  shows "mv w (w\<lparr>w_redis := q\<rparr>)"
  using moves_trans [OF assms(1) delete_moves [of "w\<lparr>w_redis := r\<rparr>"]] assms(2) by simp

lemma Captcha_moves: "Captcha_handler X s seed uuid c w = (c', w') \<Longrightarrow> mv w w'"
  by (auto simp: Captcha_handler_def Let_def split: prod.splits sum.splits if_splits dest!: captcha_moves(2) intro: put_then)

lemma issue_moves:
  assumes run: "login_issue X s dr u c w = (c', w')" and dr: "good_draws ks dr (w_redis w)" and ttl: "second dvd refreshTTL s"
    and u: "u \<in> set (rows (d_state (w_db w)))" "Active u"
  shows "mv w w'"
proof (cases "Random (dr_random dr)")
  case (Some rt)
  obtain x r where cr: "SessionStore_Create (x_redis X) (w_redis w) (dr_now_create dr) (dr_sessionID dr)
      ((NewAuthSession u)\<lparr>s_AccessJTI := dr_accessJTI dr\<rparr>) (HashTokenHex rt) (refreshTTL s) = (x, r)" by fastforce
  have m: "mv w (w\<lparr>w_redis := r\<rparr>)" by (rule create_moves [OF cr _ ttl u]) (use dr Some in \<open>simp_all add: good_draws_def\<close>)
  obtain y q where "SessionStore_Delete (x_redis X) r (dr_sessionID dr) = (y, q)" by fastforce
  then have "mv w (w\<lparr>w_redis := q\<rparr>)" by (rule delete_then [OF m])
  then show ?thesis using run Some cr m \<open>SessionStore_Delete (x_redis X) r (dr_sessionID dr) = (y, q)\<close>
    by (auto simp: login_issue_def Let_def split: sum.splits option.splits)
qed (use run in \<open>simp add: login_issue_def\<close>)

lemma Login_moves:
  assumes run: "Login X s body dr c w = (c', w')" and dr: "good_draws ks dr (w_redis w)" and ttl: "second dvd refreshTTL s"
  shows "mv w w'"
proof (cases body)
  case (BindOk req)
  obtain ok c1 w1 where k: "consumeLoginCaptcha X s c w (l_CaptchaID req) (l_Captcha req) = (ok, c1, w1)" using prod_cases3 by blast
  let ?e = "normalizeEmail (x_unicode X) (l_Email req)"
  obtain x d where f: "FindUserByEmail (x_unicode X) (x_db X) (w_db w1) ?e = (x, d)" by fastforce
  have m1: "mv w w1" by (rule captcha_moves(3) [OF k])
  have m2: "mv w (w1\<lparr>w_db := d\<rparr>)" by (rule moves_trans [OF m1 find_moves(2) [OF f]])
  have dr1: "good_draws ks dr (w_redis w1)"
    using dr consume_captcha(2) [OF k] same_sessions_fresh [OF consume_captcha(7) [OF k]] by (simp add: good_draws_def)
  have issue: "mv w w'" if "x = Inr u" "Active u" "login_issue X s dr u c1 (w1\<lparr>w_db := d\<rparr>) = (c', w')" for u
    by (rule moves_trans [OF m2 issue_moves [OF that(3) _ ttl _ that(2)]]) (use dr1 FindUserByEmail_Inr [OF f [unfolded that(1)]] in simp_all)
  from run k f BindOk m1 m2 issue show ?thesis
    by (auto simp: Login_def Let_def normalizeEmail_def split: bool.splits sum.splits data_error.splits if_splits)
qed (use run in \<open>simp_all add: Login_def\<close>)

lemma Refresh_moves:
  assumes run: "Refresh X s dr c w = (c', w')" and dr: "good_draws ks dr (w_redis w)"
  shows "mv w w'"
proof (cases "rq_Cookie (Request c) (refreshCookieName s)")
  case (Some raw)
  show ?thesis
  proof (cases "Random (dr_random dr)")
    case rt: (Some rt)
    obtain x r where ro: "SessionStore_Rotate (x_redis X) (w_redis w) (HashTokenHex raw) (HashTokenHex rt) (dr_accessJTI dr) = (x, r)" by fastforce
    have m: "mv w (w\<lparr>w_redis := r\<rparr>)" by (rule rotate_moves [OF ro]) (use dr rt in \<open>simp_all add: good_draws_def fresh_def\<close>)
    have dl: "mv w (w\<lparr>w_redis := snd (SessionStore_Delete (x_redis X) r sid)\<rparr>)" for sid
      by (rule delete_then [OF m prod.collapse [symmetric]])
    from run Some rt ro m dl show ?thesis
      by (auto simp: Refresh_def Let_def split: sum.splits prod.splits data_error.splits option.splits if_splits)
  qed (use run Some in \<open>simp add: Refresh_def\<close>)
qed (use run in \<open>simp add: Refresh_def\<close>)

lemma Logout_moves: "Logout X s c w = (c', w') \<Longrightarrow> mv w w'"
  by (auto simp: Logout_def Let_def split: prod.splits sum.splits dest: delete_digest_moves)

section \<open>User handlers\<close>

lemma withOnline_moves: "withOnline X now c w items = (x, w') \<Longrightarrow> mv w w'"
  by (auto simp: withOnline_def split: if_splits prod.splits sum.splits dest: online_moves)

lemma List_moves: "UserService.List X q now c w = (c', w') \<Longrightarrow> mv w w'"
  by (auto simp: List_def split: bind.splits if_splits prod.splits sum.splits dest!: list_moves withOnline_moves intro: moves_trans)

lemma Get_moves: "UserService.Get X now c w = (c', w') \<Longrightarrow> mv w w'"
  by (auto simp: UserService.Get_def split: if_splits prod.splits sum.splits data_error.splits dest!: find_moves(1) withOnline_moves intro: moves_trans)

lemma Create_moves: "Create X body salt uid now c w = (c', w') \<Longrightarrow> mv w w'"
  by (auto simp: Create_def Let_def split: bind.splits if_splits prod.splits sum.splits data_error.splits option.splits dest!: CreateUser_moves)

lemma invalidateSessions_moves: "invalidateSessions X c w uid = (x, w') \<Longrightarrow> uid \<noteq> [] \<Longrightarrow> mv w w'"
  by (auto simp: invalidateSessions_def split: prod.splits sum.splits dest: invalidate_moves)

lemma param_nonempty: "userIDParam c = Inr uid \<Longrightarrow> uid = TrimSpace (rq_ID (Request c)) \<and> uid \<noteq> []"
  by (auto simp: userIDParam_def Let_def split: if_splits)

lemma Kick_moves: "Kick X c w = (c', w') \<Longrightarrow> mv w w'"
  by (auto simp: Kick_def split: prod.splits sum.splits data_error.splits option.splits
      dest!: find_moves(1) invalidateSessions_moves param_nonempty intro: moves_trans)

text \<open>The handlers that write an account first end its sessions, all of them if the id in the
  path is spelled as the database spells it.\<close>

lemma guarded_write:
  assumes find: "FindUserByID (x_db X) (w_db w) uid = (Inr u, d)" and inv: "invalidateSessions X c (w\<lparr>w_db := d\<rparr>) uid = (None, w1)"
    and uid: "uid \<noteq> []" "canonical uuid_in uid"
    and wr: "(\<And>i. uuid_in uid = Some i \<Longrightarrow> no_sessions_of i (accounts ks rows w1)) \<Longrightarrow> mv w1 (w1\<lparr>w_db := d'\<rparr>)"
  shows "mv w (w1\<lparr>w_db := d'\<rparr>)"
proof (rule movesI)
  assume "ok_world ks rows uuid_in w"
  then have ok: "ok_world ks rows uuid_in (w\<lparr>w_db := d\<rparr>)" using moves_ok [OF find_moves(1) [OF find]] by simp
  have "mv w w1" by (rule moves_trans [OF find_moves(1) [OF find] invalidateSessions_moves [OF inv uid(1)]])
  moreover have "no_sessions_of i (accounts ks rows w1)" if "uuid_in uid = Some i" for i
    using invalidated [OF inv uid(1) ok] uid that by (simp add: canonical_def)
  ultimately show "mv w (w1\<lparr>w_db := d'\<rparr>)" using wr by (blast intro: moves_trans)
qed

lemma refused_write:
  assumes "FindUserByID (x_db X) (w_db w) uid = (Inr u, d)" "invalidateSessions X c (w\<lparr>w_db := d\<rparr>) uid = (x, w1)" "uid \<noteq> []"
  shows "mv w w1"
  by (rule moves_trans [OF find_moves(1) [OF assms(1)] invalidateSessions_moves [OF assms(2,3)]])

lemma Delete_moves:
  assumes run: "Delete X c w = (c', w')" and id: "canonical uuid_in (TrimSpace (rq_ID (Request c)))"
  shows "mv w w'"
proof (cases "userIDParam c")
  case (Inr uid)
  note p = param_nonempty [OF Inr]
  have w: "mv w (w1\<lparr>w_db := d'\<rparr>)" if "FindUserByID (x_db X) (w_db w) uid = (Inr u, d)"
      "invalidateSessions X c (w\<lparr>w_db := d\<rparr>) uid = (None, w1)" "DeleteUser (x_db X) (w_db w1) uid = (y, d')" for u d w1 y d'
    by (rule guarded_write [OF that(1,2)]) (use p id DeleteUser_moves [OF that(3)] in auto)
  show ?thesis using run Inr p
    by (auto simp: Delete_def Let_def split: prod.splits sum.splits data_error.splits option.splits
        intro: w refused_write dest: find_moves(1))
qed (use run in \<open>simp add: Delete_def\<close>)

lemma SetActive_moves:
  assumes run: "SetActive_handler X body c w = (c', w')" and id: "canonical uuid_in (TrimSpace (rq_ID (Request c)))"
  shows "mv w w'"
proof (cases "userIDParam c")
  case (Inr uid)
  note p = param_nonempty [OF Inr]
  have w: "mv w (w1\<lparr>w_db := d'\<rparr>)" if "FindUserByID (x_db X) (w_db w) uid = (Inr u, d)"
      "invalidateSessions X c (w\<lparr>w_db := d\<rparr>) uid = (None, w1)" "SetUserActive (x_db X) (w_db w1) uid a = (y, d')" for u d w1 y d' a
    by (rule guarded_write [OF that(1,2)]) (use p id SetUserActive_moves [OF that(3)] in auto)
  show ?thesis using run Inr p
    by (auto simp: SetActive_handler_def Let_def split: bind.splits prod.splits sum.splits data_error.splits option.splits
        intro: w refused_write dest: find_moves(1))
qed (use run in \<open>simp add: SetActive_handler_def\<close>)

lemma patch_ID:
  assumes "rbind (update_fields X salt cmd c u) (update_role cmd c uid) = Inr v" shows "ID v = ID u"
proof -
  obtain m where m: "update_fields X salt cmd c u = Inr m" "update_role cmd c uid m = Inr v" using assms by (auto simp: rbind_Inr_iff)
  have "ID v = ID m" using m(2) by (auto simp: update_role_def split: option.splits if_splits)
  then show ?thesis using update_fields_Inr [OF bcrypt_library_axioms m(1)] by simp
qed

lemma Update_moves:
  assumes run: "Update X body salt now c w = (c', w')" and id: "canonical uuid_in (TrimSpace (rq_ID (Request c)))"
  shows "mv w w'"
proof (cases "userIDParam c")
  case (Inr uid)
  note p = param_nonempty [OF Inr]
  have w: "mv w (w1\<lparr>w_db := d'\<rparr>)" if f: "FindUserByID (x_db X) (w_db w) uid = (Inr u, d)"
      and i: "invalidateSessions X c (w\<lparr>w_db := d\<rparr>) uid = (None, w1)"
      and v: "rbind (update_fields X salt cmd c u) (update_role cmd c uid) = Inr v"
      and d': "UpdateUser (x_db X) (w_db w1) (v\<lparr>UpdatedAt := now\<rparr>) = (y, d')" for u d w1 y d' cmd v
  proof (rule guarded_write [OF f i])
    have "uuid_in uid = Some (ID u)" using FindUserByID_Inr [OF f] by simp
    then have "uuid_in (ID (v\<lparr>UpdatedAt := now\<rparr>)) = uuid_in uid" using patch_ID [OF v] uuid_canon by simp
    then show "(\<And>i. uuid_in uid = Some i \<Longrightarrow> no_sessions_of i (accounts ks rows w1)) \<Longrightarrow> mv w1 (w1\<lparr>w_db := d'\<rparr>)"
      using UpdateUser_moves [OF d'] by simp
  qed (use p id in auto)
  show ?thesis using run Inr p
    by (auto simp: Update_def Let_def split: bind.splits prod.splits sum.splits data_error.splits option.splits if_splits
        intro: w refused_write dest: find_moves(1))
qed (use run in \<open>simp add: Update_def\<close>)

end

end
