(* ===== verification/System.thy ===== *)
theory System
  imports HandlerMoves
begin

text \<open>
  The server as a whole: a served request is a sequence of the steps of \<open>Accounts\<close>, so on any
  run of requests, faults and waiting the stores stay well formed and every session with time
  left mirrors an enabled account.
\<close>

section \<open>Requests\<close>

text \<open>The path parameter a route hands on is a segment of the path (or absent).\<close>

lemma match_segments_value: "match_segments ps xs v = Some u \<Longrightarrow> u = v \<or> u \<in> set xs"
  by (induction ps xs v rule: match_segments.induct) (auto split: if_splits)

lemma match_path_value: "match_path p x = Some v \<Longrightarrow> v = [] \<or> v \<in> set (segments [] x)"
  unfolding match_path_def by (rule match_segments_value)

definition canonical_path :: "(string \<Rightarrow> string option) \<Rightarrow> request \<Rightarrow> bool" where
  "canonical_path uuid_in r \<longleftrightarrow> (\<forall>x \<in> set (segments [] (rq_Path r)). canonical uuid_in (TrimSpace x))"

definition within :: "('w \<Rightarrow> 'w \<Rightarrow> bool) \<Rightarrow> request \<Rightarrow> 'w \<Rightarrow> 'w handler \<Rightarrow> bool" where
  "within M r w h \<longleftrightarrow> (\<forall>c. Request c = r \<longrightarrow> M w (fst (snd (h c w))))"

lemma within_returns:
  assumes "\<And>(c :: ctx) c' w'. Request c = r \<Longrightarrow> h c w = (c', w') \<Longrightarrow> M w w'"
  shows "within M r w (returns h)"
  using assms [OF _ prod.collapse [symmetric]] by (simp add: within_def returns_def case_prod_beta)

text \<open>A middleware that answers without touching the world, or passes the request on.\<close>

lemma same_world:
  "fst (snd (Recovery h c w)) = fst (snd (h c w))" "fst (snd (AccessLogger h c w)) = fst (snd (h c w))"
  by (auto simp: Recovery_def AccessLogger_def Let_def split: prod.splits option.splits)

lemma within_gates:
  assumes "within M r w h" "M w w"
  shows "within M r w (CORS og h)" "within M r w (BodyLimit l h)" "within M r w (RequireAllowedOrigin pu og h)"
    "within M r w (RequestID u h)" "within M r w (Recovery h)" "within M r w (AccessLogger h)"
  using assms
  by (simp_all add: within_def same_world CORS_def BodyLimit_def RequireAllowedOrigin_def RequestID_def Let_def split: option.splits)

context services
begin

lemma within_required:
  assumes "\<And>w1. within mv r w1 h"
  shows "within mv r w (required_handler parse (session_reader X) roles h)"
  unfolding within_def
proof (intro allI impI)
  fix c :: ctx assume c: "Request c = r"
  have go: "mv w (fst (snd (h c1 w1)))" if "session_reader X sid w = (x, w1)" "Request c1 = r" for sid x w1 c1
    using moves_trans [OF reader_moves [OF that(1)]] assms that(2) by (simp add: within_def)
  show "mv w (fst (snd (required_handler parse (session_reader X) roles h c w)))"
    using c by (auto simp: required_handler_def Let_def split: sum.splits prod.splits data_error.splits intro!: go intro: reader_moves)
qed

text \<open>Every route of the table.\<close>

lemma route_within:
  assumes E: "app_server X s pu cfg n = Some E" and q: "q \<in> set (e_routes E)"
    and dr: "good_draws ks (in_draws n) (w_redis w)" and ttl: "second dvd refreshTTL s"
    and id: "canonical uuid_in (TrimSpace (rq_ID r))"
  shows "within mv r w (run_chain (rt_chain q) (rt_handler q))"
proof -
  have same: "within mv r w1 (returns (\<lambda>c w. (f c w, w)))" for f w1 by (rule within_returns) auto
  have me: "within mv r w1 (returns Me)" for w1
    by (rule within_returns) (auto simp: Me_def split: option.splits)
  have rz: "within mv r w1 (readyz x)" for w1 x
    unfolding readyz_def by (rule within_returns) (auto split: option.splits)
  have auth: "within mv r w (returns (Captcha_handler X s k i))" "within mv r w (returns (Login X s b (in_draws n)))"
    "within mv r w (returns (Refresh X s (in_draws n)))" "within mv r w (returns (Logout X s))" for k i b
    by (rule within_returns; auto intro: Captcha_moves Login_moves [OF _ dr ttl] Refresh_moves [OF _ dr] Logout_moves)+
  have users: "within mv r w1 (returns (UserService.List X lq t))" "within mv r w1 (returns (Create X cb salt uid t))"
    "within mv r w1 (returns (UserService.Get X t))" "within mv r w1 (returns (Update X ub salt t))" "within mv r w1 (returns (Delete X))"
    "within mv r w1 (returns (SetActive_handler X ab))" "within mv r w1 (returns (Kick X))" for w1 lq t cb salt uid ub ab
    by (rule within_returns; use id in \<open>auto intro: List_moves Create_moves Get_moves Update_moves Delete_moves SetActive_moves Kick_moves\<close>)+
  show ?thesis
    using q app_server_parts(5) [OF E]
    unfolding routes_eq by (auto intro!: auth users within_required within_gates(3) me rz same)
qed

text \<open>A served request, on a path none of whose segments is another spelling of an id than the database's.\<close>

lemma serve_moves:
  assumes G: "gin_router pick" and E: "app_server X s pu cfg n = Some E" and run: "serve pick E r w = (c', w', p)"
    and dr: "good_draws ks (in_draws n) (w_redis w)" and ttl: "second dvd refreshTTL s"
    and id: "canonical_path uuid_in r"
  shows "mv w w'"
proof -
  have chain: "mv w w'" if "within mv r' w h" "run_chain (e_use E) h (new_ctx r') w = (c', w', p)" for r' h
  proof -
    have "within mv r' w (run_chain (e_use E) h)"
      unfolding app_server_parts(1) [OF E] run_chain_simps by (intro within_gates that(1) moves_refl)
    moreover have "Request (new_ctx r') = r'" by (simp add: new_ctx_def)
    ultimately show ?thesis using that(2) unfolding within_def by (metis fst_conv snd_conv)
  qed
  have bare: "within mv r w (returns (\<lambda>c w. (f c, w)))" for f by (rule within_returns) auto
  show ?thesis
  proof (cases "pick (table_of E) (rq_Method r) (rq_Path r)")
    case (Route i v)
    note k = gin_router.picked [OF G Route]
    let ?q = "e_routes E ! i"
    have i: "i < length (e_routes E)" "match_path (rt_path ?q) (rq_Path r) = Some v" using k by (auto simp: table_of_def)
    have "canonical uuid_in (TrimSpace v)" using match_path_value [OF i(2)] id by (auto simp: canonical_path_def canonical_def TrimSpace_ascii)
    then have "within mv (r\<lparr>rq_ID := v\<rparr>) w (run_chain (rt_chain ?q) (rt_handler ?q))"
      using route_within [OF E nth_mem [OF i(1)] dr ttl] by simp
    from chain [OF this] run Route show ?thesis by (simp add: serve_def table_of_def)
  next
    case (Redirect st l)
    then show ?thesis using run by (auto simp: serve_def table_of_def)
  next
    case WrongMethod
    then show ?thesis using chain [OF bare] run app_server_parts(3,4) [OF E] by (simp add: serve_def table_of_def)
  next
    case NoMatch
    then show ?thesis using chain [OF bare] run app_server_parts(2) [OF E] by (simp add: serve_def table_of_def)
  qed
qed

end

section \<open>Runs\<close>

text \<open>
  What can happen to the server: a request that runs in one piece, with fresh draws and the clock of the server in step with that of Redis, and whose
  path spells no account id in another way than the database; waiting, and from then on any faults of the connections.
\<close>

inductive system_run ::
    "('r, 'd) deps \<Rightarrow> AuthService \<Rightarrow> (string \<Rightarrow> uri option) \<Rightarrow> Config \<Rightarrow> ((string \<times> string) list \<Rightarrow> string \<Rightarrow> string \<Rightarrow> pick) \<Rightarrow>
     ('r \<Rightarrow> keyspace) \<Rightarrow> (string \<Rightarrow> string option) \<Rightarrow> ('r, 'd) world \<Rightarrow> ('r, 'd) world \<Rightarrow> bool"
  for X s pu cfg pick ks uuid_in w0 where
  start: "system_run X s pu cfg pick ks uuid_in w0 w0"
| request: "system_run X s pu cfg pick ks uuid_in w0 w \<Longrightarrow> app_server X s pu cfg n = Some E \<Longrightarrow> good_draws ks (in_draws n) (w_redis w) \<Longrightarrow>
    canonical_path uuid_in r \<Longrightarrow> serve pick E r w = (c', w', p) \<Longrightarrow>
    system_run X s pu cfg pick ks uuid_in w0 w'"
| pass: "system_run X s pu cfg pick ks uuid_in w0 w \<Longrightarrow> clock (w_redis w) \<le> clock (w_redis w') \<Longrightarrow>
    server (w_redis w') = server (w_redis w) \<Longrightarrow> d_state (w_db w') = d_state (w_db w) \<Longrightarrow> system_run X s pu cfg pick ks uuid_in w0 w'"

lemma sessions_unexpired:
  assumes "session_inv t ks" "t \<le> t'"
  shows "sessions t' ks = unexpired t' (sessions t ks)"
proof
  fix sid
  have "sessions t' ks sid = Some x \<longleftrightarrow> unexpired t' (sessions t ks) sid = Some x" for x
  proof (cases x)
    case (Pair r e)
    have "holds t' ks sid r e \<longleftrightarrow> holds t ks sid r e \<and> t' \<le> e"
      using holds_later holds_earlier [OF _ assms(2)] holds_time by blast
    then show ?thesis using Pair inv_sessions_iff [OF assms(1)] inv_sessions_iff [OF session_inv_later [OF assms]] by simp
  qed
  then show "sessions t' ks sid = unexpired t' (sessions t ks) sid" by (metis not_None_eq)
qed

lemma pass_step:
  assumes "ok_world ks rows uuid_in w" "clock (w_redis w) \<le> clock (w_redis w')"
    "server (w_redis w') = server (w_redis w)" "d_state (w_db w') = d_state (w_db w)"
  shows "ok_world ks rows uuid_in w'" "account_step (accounts ks rows w) (accounts ks rows w')"
proof -
  have inv: "view_inv ks (w_redis w)" using assms(1) by (simp add: ok_world_def)
  show "ok_world ks rows uuid_in w'" using assms session_inv_later [OF inv assms(2)] by (simp add: ok_world_def)
  have "accounts ks rows w' = (accounts ks rows w)\<lparr>v_clock := clock (w_redis w'), v_sessions := unexpired (clock (w_redis w')) (v_sessions (accounts ks rows w))\<rparr>"
    using assms sessions_unexpired [OF inv assms(2)] by (simp add: accounts_def)
  then show "account_step (accounts ks rows w) (accounts ks rows w')"
    using account_step.tick [of "accounts ks rows w" "clock (w_redis w')"] assms(2) by simp
qed

context services
begin

lemma run_steps:
  assumes G: "gin_router pick" and ttl: "second dvd refreshTTL s" and ok: "ok_world ks rows uuid_in w0"
    and run: "system_run X s pu cfg pick ks uuid_in w0 w"
  shows "ok_world ks rows uuid_in w \<and> account_step\<^sup>*\<^sup>* (accounts ks rows w0) (accounts ks rows w)"
  using run
proof (induction rule: system_run.induct)
  case (request w n E r c' w' p)
  from serve_moves [OF G request(2,5,3) ttl request(4)] request.IH show ?case by (auto simp: moves_def)
next
  case (pass w w')
  from pass_step [OF _ pass(2-4)] pass.IH show ?case by (auto intro: rtranclp.rtrancl_into_rtrancl)
qed (use ok in simp)

end

text \<open>
  C3 (refinement). A served request whose path spells every account id as the database does, whatever it is otherwise (any method,
  route, body, header and router, any faults of the connections), does to
  accounts and sessions what a sequence of abstract steps does: sessions are granted for
  enabled accounts only, replaced or revoked, accounts are enrolled, and an account is changed
  or removed only while it has no session with time left. Both stores stay well formed. The request runs in
  one piece, its draws are fresh, and the refresh lifetime is a number of whole seconds.
\<close>

theorem requests_refine:
  assumes V: "services X ks rows uuid_in tm" and G: "gin_router pick" and E: "app_server X s pu cfg n = Some E"
    and run: "serve pick E r w = (c', w', p)" and ok: "ok_world ks rows uuid_in w"
    and dr: "good_draws ks (in_draws n) (w_redis w)" and ttl: "second dvd refreshTTL s"
    and id: "canonical_path uuid_in r"
  shows "account_step\<^sup>*\<^sup>* (accounts ks rows w) (accounts ks rows w') \<and> ok_world ks rows uuid_in w'"
  using services.serve_moves [OF V G E run dr ttl id] ok by (simp add: moves_def)

text \<open>
  C1 (invariant). On every run of waiting, faults and requests that do not overlap and spell every account id in their paths as the database
  does, with fresh draws and a refresh lifetime of whole seconds, from a state that is well formed and
  without stale sessions: both stores stay well formed, and every session with time left is the copy of an
  account that exists and is enabled, with the email, remark and role the account has now. Without the
  condition on ids or on overlap this fails: see \<open>self_delete_by_alias\<close> and \<open>stale_role_race\<close>.
\<close>

theorem sessions_mirror_accounts:
  assumes V: "services X ks rows uuid_in tm" and G: "gin_router pick" and ttl: "second dvd refreshTTL s"
    and start: "ok_world ks rows uuid_in w0" "mirrors (accounts ks rows w0)"
    and run: "system_run X s pu cfg pick ks uuid_in w0 w"
  shows "ok_world ks rows uuid_in w \<and> mirrors (accounts ks rows w)"
  using services.run_steps [OF V G ttl start(1) run] mirrors_steps [OF _ start(2)] by blast

text \<open>
  C2 (safety). No stale privilege: after any such run (requests that do not overlap and spell ids as the database does, fresh draws,
  a refresh lifetime of whole seconds), from the next millisecond on, a token
  that passes the authorisation middleware does so for an account that exists, is enabled and has, in
  the table, the role it passes with.
\<close>

theorem no_stale_privilege:
  assumes V: "services X ks rows uuid_in tm" and G: "gin_router pick" and ttl: "second dvd refreshTTL s"
    and start: "ok_world ks rows uuid_in w0" "mirrors (accounts ks rows w0)"
    and run: "system_run X s pu cfg pick ks uuid_in w0 w"
    and w2: "server (w_redis w2) = server (w_redis w)" "clock (w_redis w) < clock (w_redis w2)" "faults (w_redis w2) = []"
    and tok: "Fields header = [''Bearer'', tok]" "passes X s now roles header w2 p"
  shows "\<exists>u \<in> set (rows (d_state (w_db w))). Active u \<and> p = user_principal u (p_SessionID p) \<and> Role u \<in> roles"
proof -
  have ok: "ok_world ks rows uuid_in w" "mirrors (accounts ks rows w)"
    using services.run_steps [OF V G ttl start(1) run] mirrors_steps [OF _ start(2)] by blast+
  then have inv: "session_inv (clock (w_redis w)) (ks (server (w_redis w)))" by (simp add: ok_world_def)
  have inv2: "session_inv (clock (w_redis w2)) (ks (server (w_redis w2)))"
    using session_inv_later [OF inv, of "clock (w_redis w2)"] w2(1,2) by simp
  obtain i :: AccessIdentity and r e where r: "sessions (clock (w_redis w2)) (ks (server (w_redis w2))) (ai_SessionID i) = Some (r, e)"
    "s_Role (ar_AuthSession r) \<in> roles" "p = Principal (ar_AuthSession r) (ai_SessionID i)"
    using tok(2) unfolding services.passes_table [OF V inv2 w2(3) tok(1)] by blast
  then have "sessions (clock (w_redis w)) (ks (server (w_redis w))) (ai_SessionID i) = Some (r, e)" "clock (w_redis w) < e"
    using sessions_unexpired [OF inv, of "clock (w_redis w2)"] w2(1,2) by simp_all
  from mirrorsD [OF ok(2), unfolded accounts_simps, OF this] obtain u where u: "u \<in> set (rows (d_state (w_db w)))" "Active u"
    "ar_AuthSession r = (NewAuthSession u)\<lparr>s_AccessJTI := s_AccessJTI (ar_AuthSession r)\<rparr>" .
  have "p = user_principal u (ai_SessionID i)" unfolding r(3) by (subst u(3)) simp
  moreover have "s_Role (ar_AuthSession r) = Role u" by (subst u(3)) simp
  ultimately show ?thesis using u(1,2) r(2) by (intro bexI [of _ u]) (simp_all add: user_principal_def)
qed

end
