(* ===== verification/SystemExamples.thy ===== *)
theory SystemExamples
  imports System ServerExamples
begin

text \<open>A login request to the small server, and the session it leaves: the theorems of \<open>System\<close>
  apply to this run.\<close>

definition login_inputs :: inputs where
  "login_inputs = demo_inputs\<lparr>in_login := BindOk demo_login\<rparr>"

definition login_engine :: "(keyspace, user list) world engine" where
  "login_engine = the (app_server demo_deps demo_auth demo_uri origin_config login_inputs)"

lemma login_engine: "app_server demo_deps demo_auth demo_uri origin_config login_inputs = Some login_engine"
proof -
  have g: "Group \<lparr>g_path = ''/'', g_chain = []\<rparr> ''/api/v1'' [] = \<lparr>g_path = ''/api/v1'', g_chain = []\<rparr>"
    by (simp add: Group_def join_paths_def)
  have "\<exists>E. app_server demo_deps demo_auth demo_uri origin_config login_inputs = Some E"
    unfolding app_server_def NewServer_def Let_def g routes_eq by simp
  then show ?thesis unfolding login_engine_def by (metis option.sel)
qed

abbreviation login_call :: request where "login_call \<equiv> demo_call ''POST'' ''/api/v1/auth/login'' []"

lemma login_route: "rt_chain (e_routes login_engine ! 3) = []"
  "rt_handler (e_routes login_engine ! 3) = returns (Login demo_deps demo_auth (BindOk demo_login) demo_draws)"
  using app_server_parts(5) [OF login_engine] unfolding routes_eq by (auto simp: login_inputs_def demo_inputs_def)

lemma login_picked: "first_match (table_of login_engine) ''POST'' ''/api/v1/auth/login'' = Route 3 []"
  unfolding table_eq [OF login_engine] by code_simp

lemma login_served:
  obtains c0 c c1 w where "serve first_match login_engine login_call demo_world = (c, w, None)"
    "Login demo_deps demo_auth (BindOk demo_login) demo_draws c0 demo_world = (c1, w)" "Status c1 = 200" "faults (w_redis w) = []"
proof -
  let ?r = "login_call\<lparr>rq_ID := []\<rparr>"
  let ?rid = "if \<not> validRequestID (GetHeader (new_ctx ?r) ''X-Request-ID'') then ''r1'' else GetHeader (new_ctx ?r) ''X-Request-ID''"
  let ?c0 = "(set_header ''X-Request-ID'' ?rid ((new_ctx ?r)\<lparr>request_id_key := ?rid\<rparr>))\<lparr>BodyReader := Some (MaxRequestBodyBytes (Config.Server origin_config))\<rparr>"
  obtain c1 w where run: "Login demo_deps demo_auth (BindOk demo_login) demo_draws ?c0 demo_world = (c1, w)" "Status c1 = 200" "faults (w_redis w) = []"
    by (rule demo_run)
  obtain c w' where s: "serve first_match login_engine login_call demo_world = (c, w', None)"
    using every_request_answered_run [OF first_match.gin_router_axioms login_engine] by blast
  have chain: "serve first_match login_engine login_call demo_world = run_chain (e_use login_engine)
      (returns (Login demo_deps demo_auth (BindOk demo_login) demo_draws)) (new_ctx ?r) demo_world"
    using login_picked by (simp add: serve_def table_of_def login_route)
  have h: "GetHeader (new_ctx ?r) ''Origin'' = []" "\<not> rq_ContentLength (Request (new_ctx ?r)) > MaxRequestBodyBytes (Config.Server origin_config)"
    by (simp_all add: new_ctx_def demo_call_def demo_request_def origin_config_def demo_config_def defaults_def)
  have "fst (snd (serve first_match login_engine login_call demo_world)) = w"
    using run(1) unfolding chain app_server_parts(1) [OF login_engine] run_chain_simps
    by (simp add: h RequestID_def Let_def same_world CORS_def BodyLimit_def returns_def login_inputs_def demo_inputs_def)
  then have "w' = w" using s by simp
  then show ?thesis using that s run by blast
qed

lemma demo_ok: "ok_world (\<lambda>k. k) (\<lambda>us. us) fold_id demo_world" "mirrors (accounts (\<lambda>k. k) (\<lambda>us. us) demo_world)"
proof -
  show "ok_world (\<lambda>k. k) (\<lambda>us. us) fold_id demo_world" using session_inv_empty [of 1000] demo_accounts_ok by (simp add: ok_world_def)
  have "sessions 1000 Map.empty = Map.empty" by (simp add: sessions_def live_def fun_eq_iff)
  then show "mirrors (accounts (\<lambda>k. k) (\<lambda>us. us) demo_world)" by (simp add: mirrors_def)
qed

text \<open>No segment of this path has an upper case letter, so none is another spelling of an id.\<close>

lemma login_path: "canonical_path fold_id login_call"
proof -
  have "map ascii_lower x = x" if "x \<in> {[], ''api'', ''v1'', ''auth'', ''login''}" for x
    using that by (elim insertE emptyE) (simp_all, code_simp+)
  moreover have "TrimSpace x = x" if "x \<in> {[], ''api'', ''v1'', ''auth'', ''login''}" for x
    using that by (elim insertE emptyE) (simp_all add: TrimSpace_ascii IsSpace_def)
  moreover have "set (segments [] (rq_Path login_call)) = {[], ''api'', ''v1'', ''auth'', ''login''}" by simp
  ultimately show ?thesis unfolding canonical_path_def canonical_def fold_id_def by (metis option.distinct(1) option.inject)
qed

lemma login_draws: "good_draws (\<lambda>k. k) (in_draws login_inputs) (w_redis demo_world)"
  using demo_good_draws by (simp add: login_inputs_def demo_inputs_def)

lemma login_ttl: "second dvd refreshTTL demo_auth"
  by simp

lemma login_session:
  assumes "Login demo_deps demo_auth (BindOk demo_login) demo_draws c0 demo_world = (c1, w)" "Status c1 = 200"
  shows "clock (w_redis w) = 1000"
    "sessions 1000 (server (w_redis w)) = [''s1'' \<mapsto> (login_record demo_account ''j1'' (base64_RawURL (replicate 32 7)), 61000)]"
proof -
  have e: "sessions 1000 Map.empty = Map.empty" by (simp add: sessions_def live_def fun_eq_iff)
  have "clock (w_redis w) = 1000 \<and>
    sessions 1000 (server (w_redis w)) = [''s1'' \<mapsto> (login_record demo_account ''j1'' (base64_RawURL (replicate 32 7)), 61000)]"
    by (rule demo_services.Login_table [of demo_world demo_draws demo_auth 60, OF _ _ _ _ _ assms])
      (use session_inv_empty [of 1000] demo_accounts_ok demo_good_draws e in simp_all)
  then show "clock (w_redis w) = 1000"
    "sessions 1000 (server (w_redis w)) = [''s1'' \<mapsto> (login_record demo_account ''j1'' (base64_RawURL (replicate 32 7)), 61000)]" by simp_all
qed

theorem requests_refine_witness:
  "\<exists>c w. serve first_match login_engine login_call demo_world = (c, w, None)
     \<and> account_step\<^sup>*\<^sup>* (accounts (\<lambda>k. k) (\<lambda>us. us) demo_world) (accounts (\<lambda>k. k) (\<lambda>us. us) w) \<and> sessions 1000 (server (w_redis w)) ''s1'' \<noteq> None"
proof -
  obtain c0 c c1 w where run: "serve first_match login_engine login_call demo_world = (c, w, None)"
    and l: "Login demo_deps demo_auth (BindOk demo_login) demo_draws c0 demo_world = (c1, w)" "Status c1 = 200" by (rule login_served)
  show ?thesis
    using requests_refine [OF demo_services.services_axioms first_match.gin_router_axioms login_engine run demo_ok(1) login_draws login_ttl login_path]
      login_session [OF l] run by (intro exI [of _ c] exI [of _ w]) simp
qed

lemma login_run:
  obtains c0 c1 w where "system_run demo_deps demo_auth demo_uri origin_config first_match (\<lambda>k. k) fold_id demo_world w"
    "Login demo_deps demo_auth (BindOk demo_login) demo_draws c0 demo_world = (c1, w)" "Status c1 = 200" "faults (w_redis w) = []"
proof -
  obtain c0 c c1 w where run: "serve first_match login_engine login_call demo_world = (c, w, None)"
    and l: "Login demo_deps demo_auth (BindOk demo_login) demo_draws c0 demo_world = (c1, w)" "Status c1 = 200" "faults (w_redis w) = []" by (rule login_served)
  show ?thesis by (rule that [OF system_run.request [OF system_run.start login_engine login_draws login_path run] l])
qed

theorem sessions_mirror_accounts_witness:
  "\<exists>w. sessions 1000 (server (w_redis w)) ''s1'' \<noteq> None \<and> mirrors (accounts (\<lambda>k. k) (\<lambda>us. us) w)
     \<and> system_run demo_deps demo_auth demo_uri origin_config first_match (\<lambda>k. k) fold_id demo_world w"
proof -
  obtain c0 c1 w where run: "system_run demo_deps demo_auth demo_uri origin_config first_match (\<lambda>k. k) fold_id demo_world w"
    and l: "Login demo_deps demo_auth (BindOk demo_login) demo_draws c0 demo_world = (c1, w)" "Status c1 = 200" by (rule login_run)
  show ?thesis
    using sessions_mirror_accounts [OF demo_services.services_axioms first_match.gin_router_axioms login_ttl demo_ok run] login_session [OF l] run
    by (intro exI [of _ w]) simp
qed

theorem no_stale_privilege_witness:
  "\<exists>(w :: (keyspace, user list) world) w2. server (w_redis w2) = server (w_redis w) \<and> passes demo_deps demo_auth (14 * minute) {''user''} (''Bearer '' @ demo_token) w2 (user_principal demo_account ''s1'')
     \<and> (\<exists>u \<in> set (d_state (w_db w)). Active u \<and> ID u = ''u1'' \<and> Role u = ''user'')"
proof -
  obtain c0 c1 w where run: "system_run demo_deps demo_auth demo_uri origin_config first_match (\<lambda>k. k) fold_id demo_world w"
    and l: "Login demo_deps demo_auth (BindOk demo_login) demo_draws c0 demo_world = (c1, w)" "Status c1 = 200" "faults (w_redis w) = []" by (rule login_run)
  note t = login_session [OF l(1,2)]
  let ?w2 = "w\<lparr>w_redis := (w_redis w)\<lparr>clock := 2000\<rparr>\<rparr>"
  have ok: "ok_world (\<lambda>k. k) (\<lambda>us. us) fold_id w"
    using demo_services.run_steps [OF first_match.gin_router_axioms login_ttl demo_ok(1) run] by simp
  then have inv: "session_inv 1000 (server (w_redis w))" using t(1) by (simp add: ok_world_def)
  have p: "passes demo_deps demo_auth (14 * minute) {''user''} (''Bearer '' @ demo_token) ?w2 (user_principal demo_account ''s1'')"
    using demo_services.issued_passes [of ?w2 "''Bearer '' @ demo_token" demo_token demo_auth "1000 * millisecond" "''u1''" "''s1''" "''j1''" "14 * minute"
        "login_record demo_account ''j1'' (base64_RawURL (replicate 32 7))" 61000 "{''user''}" "user_principal demo_account ''s1''"]
      session_inv_later [OF inv, of 2000] sessions_unexpired [OF inv, of 2000] l(3) t demo_bearer demo_issue
    by (simp add: NewNumericDate_def is_ascii_valid_utf8 Valid_def RoleUser_def)
  then show ?thesis
    using no_stale_privilege [OF demo_services.services_axioms first_match.gin_router_axioms login_ttl demo_ok run, of ?w2 "''Bearer '' @ demo_token" demo_token
        "14 * minute" "{''user''}" "user_principal demo_account ''s1''"] l(3) t(1) demo_bearer
    by (intro exI [of _ w] exI [of _ ?w2]) (auto simp: user_principal_def)
qed

end
