(* ===== verification/Races.thy ===== *)
theory Races
  imports SystemExamples
begin

text \<open>
  Two requests at once. The handlers that change an account end its sessions first and write
  the row afterwards, in two round trips. The theorems of \<open>System\<close> are about requests that run
  one after the other; here \<open>Update\<close> is cut between the two round trips, and a login in between
  leaves a session with the old role.
\<close>

text \<open>\<open>Update\<close> up to the revocation: an answer, or the row about to be written.\<close>

definition update_begin ::
    "('r, 'd) deps \<Rightarrow> update_user_command bind \<Rightarrow> string \<Rightarrow> ctx \<Rightarrow> ('r, 'd) world \<Rightarrow> (ctx + user) \<times> ('r, 'd) world" where
  "update_begin X body salt c w =
     (case userIDParam c of
        Inl c' \<Rightarrow> (Inl c', w)
      | Inr userID \<Rightarrow>
          (case body of
             BindTooLarge \<Rightarrow> (Inl (too_large c), w)
           | BindErr \<Rightarrow> (Inl (bad_request c), w)
           | BindOk command \<Rightarrow>
               if UpdateUserCommand_Empty command \<or> (case uu_Role command of None \<Rightarrow> False | Some r \<Rightarrow> \<not> Valid r)
               then (Inl (bad_request c), w)
               else
                 (case FindUserByID (x_db X) (w_db w) userID of
                    (Inl ErrNotFound, d) \<Rightarrow> (Inl (not_found c), w\<lparr>w_db := d\<rparr>)
                  | (Inl _, d) \<Rightarrow> (Inl (internal_error c), w\<lparr>w_db := d\<rparr>)
                  | (Inr u, d) \<Rightarrow>
                      (case rbind (update_fields X salt command c u) (update_role command c userID) of
                         Inl c' \<Rightarrow> (Inl c', w\<lparr>w_db := d\<rparr>)
                       | Inr u \<Rightarrow>
                           (case invalidateSessions X c (w\<lparr>w_db := d\<rparr>) userID of
                              (Some c', w') \<Rightarrow> (Inl c', w')
                            | (None, w') \<Rightarrow> (Inr u, w'))))))"

definition update_finish :: "('r, 'd) deps \<Rightarrow> instant \<Rightarrow> ctx \<Rightarrow> user \<Rightarrow> ('r, 'd) world \<Rightarrow> ctx \<times> ('r, 'd) world" where
  "update_finish X now c u w =
     (case UpdateUser (x_db X) (w_db w) (u\<lparr>UpdatedAt := now\<rparr>) of
        (Inl ErrNotFound, d) \<Rightarrow> (not_found c, w\<lparr>w_db := d\<rparr>)
      | (Inl ErrConflict, d) \<Rightarrow> (conflict c, w\<lparr>w_db := d\<rparr>)
      | (Inl _, d) \<Rightarrow> (internal_error c, w\<lparr>w_db := d\<rparr>)
      | (Inr u, d) \<Rightarrow> (ctx_JSON 200 (OKWithData (User_data (ToUser u))) c, w\<lparr>w_db := d\<rparr>))"

lemma Update_halves:
  "Update X body salt now c w =
     (case update_begin X body salt c w of (Inl c', w') \<Rightarrow> (c', w') | (Inr u, w') \<Rightarrow> update_finish X now c u w')"
proof (cases "userIDParam c")
  case (Inr uid)
  show ?thesis
  proof (cases body)
    case (BindOk command)
    obtain x d where f: "FindUserByID (x_db X) (w_db w) uid = (x, d)" by fastforce
    show ?thesis
    proof (cases x)
      case (Inl e)
      then show ?thesis using Inr BindOk f by (cases e) (simp_all add: Update_def update_begin_def)
    next
      case u: (Inr u)
      obtain y w1 where i: "invalidateSessions X c (w\<lparr>w_db := d\<rparr>) uid = (y, w1)" by fastforce
      show ?thesis
        using Inr BindOk f u i
        by (cases "rbind (update_fields X salt command c u) (update_role command c uid)"; cases y)
          (simp_all add: Update_def update_begin_def update_finish_def)
    qed
  qed (use Inr in \<open>simp_all add: Update_def update_begin_def\<close>)
qed (simp add: Update_def update_begin_def)

text \<open>The demotion of an administrator by another one.\<close>

definition demote :: update_user_command where
  "demote = \<lparr>uu_Email = None, uu_Remark = None, uu_Password = None, uu_Role = Some ''user''\<rparr>"

abbreviation demoted :: user where "demoted \<equiv> demo_admin\<lparr>Role := ''user'', UpdatedAt := 0\<rparr>"

definition admin_world :: "(keyspace, user list) world" where
  "admin_world = \<lparr>w_redis = demo_start, w_db = demo_db [demo_admin]\<rparr>"

abbreviation other_admin :: principal where "other_admin \<equiv> user_principal (demo_admin\<lparr>ID := ''u0''\<rparr>) ''s0''"

lemma no_sessions_run: "SessionStore_DeleteUserSessions (ks_redis ks_cjson) demo_start ''u1'' = (Inr (), demo_start)"
  by (simp add: SessionStore_DeleteUserSessions_def call_clean deleteUserSessionsScript_def cmd_defs demo_start_def live_def ks_defs ks_zrange_def ask_zset_def)

lemma demote_begins:
  "update_begin demo_deps (BindOk demote) [] (path_ctx ''u1'' other_admin) admin_world = (Inr (demo_admin\<lparr>Role := ''user''\<rparr>), admin_world)"
  by (simp add: update_begin_def userIDParam_def trim_u1 demo_find fold_u1 admin_world_def demote_def UpdateUserCommand_Empty_def
      update_fields_def update_role_def rejectSelfTarget_def CurrentPrincipal_def user_principal_def Valid_def RoleUser_def RoleAdmin_def
      invalidateSessions_def InvalidateUserSessions_def no_sessions_run)

lemma demote_finishes:
  assumes "w_db w = demo_db [demo_admin]"
  shows "\<exists>c'. update_finish demo_deps 7 c (demo_admin\<lparr>Role := ''user''\<rparr>) w = (c', w\<lparr>w_db := demo_db [demoted]\<rparr>) \<and> Status c' = 200"
proof -
  have e: "demo_admin\<lparr>Email := ''a@b.c'', Remark := ''r'', PasswordHash := CHR ''$'' # HashTokenHex ''secret'', Role := ''user'', UpdatedAt := 0\<rparr> = demoted"
    by (simp add: demo_admin_def demo_account_def demo_user_def)
  have ok: "row_ok demoted" using demo_admins_ok by (simp add: table_ok_def row_ok_def Valid_def RoleUser_def)
  have "dcall (db_Updates table_db [IdEq ''u1''] [SetEmail ''a@b.c'', SetRemark ''r'', SetPasswordHash (CHR ''$'' # HashTokenHex ''secret''), SetRole ''user'', SetUpdatedAt 7])
      (demo_db [demo_admin]) = (Inr 1, demo_db [demoted])"
    using ok by (simp add: dcall_clean demo_db_def table_db_def tb_Updates_def fold_u1 assigned_def e Let_def)
  then have "UpdateUser table_db (demo_db [demo_admin]) (demo_admin\<lparr>Role := ''user'', UpdatedAt := 7\<rparr>) = (Inr demoted, demo_db [demoted])"
    using demo_find [of "''u1''" demoted] by (simp add: UpdateUser_def fold_u1)
  then show ?thesis using assms by (simp add: update_finish_def)
qed

lemma admin_logs_in:
  obtains c' w' where "Login demo_deps demo_auth (BindOk demo_login) demo_draws c admin_world = (c', w')" "Status c' = 200"
    "w_db w' = demo_db [demo_admin]" "faults (w_redis w') = []" "clock (w_redis w') = 1000" "session_inv 1000 (server (w_redis w'))"
    "sessions 1000 (server (w_redis w')) = [''s1'' \<mapsto> (login_record demo_admin ''j1'' (base64_RawURL (replicate 32 7)), 61000)]"
proof -
  have ok: "session_inv (clock (w_redis admin_world)) (server (w_redis admin_world))" "table_ok fold_id (d_state (w_db admin_world))"
    "good_draws (\<lambda>k. k) demo_draws (w_redis admin_world)" "faults (w_redis admin_world) = []" "d_faults (w_db admin_world) = []"
    using session_inv_empty [of 1000] demo_admins_ok demo_good_draws by (simp_all add: admin_world_def)
  obtain c' w' where run: "Login demo_deps demo_auth (BindOk demo_login) demo_draws c admin_world = (c', w')" "Status c' = 200" "faults (w_redis w') = []"
    by (rule demo_services.Login_clean [of admin_world demo_draws demo_auth 60 c demo_login admin_world demo_admin "base64_RawURL (replicate 32 7)" demo_token])
      (use ok demo_email demo_issue in \<open>simp_all add: demo_login_def Compare_def plain_bcrypt_def admin_world_def no_captcha\<close>)
  have db: "w_db w' = demo_db [demo_admin]"
    using run(1)
  proof (cases rule: Login_branches)
    case (verified req c1 w1 u d)
    then have "w1 = admin_world" "w_db w' = d" using login_issue_db [OF verified(6)] by (simp_all add: consumeLoginCaptcha_def)
    moreover have "FindUserByEmail U table_db (demo_db us) e = (x, d) \<Longrightarrow> d = demo_db us" for U us e x
      by (auto simp: FindUserByEmail_def dcall_clean table_db_def tb_Take_same split: sum.splits sql_error.splits)
    ultimately show ?thesis using verified(3) by (auto simp: admin_world_def)
  qed (use run(2) in \<open>auto simp: consumeLoginCaptcha_def\<close>)
  have e: "sessions 1000 Map.empty = Map.empty" by (simp add: sessions_def live_def fun_eq_iff)
  have "clock (w_redis w') = 1000 \<and> session_inv 1000 (server (w_redis w')) \<and>
    sessions 1000 (server (w_redis w')) = [''s1'' \<mapsto> (login_record demo_admin ''j1'' (base64_RawURL (replicate 32 7)), 61000)]"
    by (rule demo_services.Login_table [of admin_world demo_draws demo_auth 60, OF ok(1-3) _ _ run(1,2)])
      (use e in \<open>simp_all add: admin_world_def\<close>)
  then show ?thesis using that run db by blast
qed

text \<open>
  C40 (safety). While one administrator takes the role \<open>admin\<close> from an account, that account logs
  in between the revocation of its sessions and the writing of its row. Both requests
  are answered 200, the account has the role \<open>user\<close>, and the token of the login still
  passes the authorisation middleware as an administrator.
\<close>

theorem stale_role_race:
  "\<exists>u w1 c2 w2 c3 w3. update_begin demo_deps (BindOk demote) [] (path_ctx ''u1'' other_admin) admin_world = (Inr u, w1)
     \<and> Login demo_deps demo_auth (BindOk demo_login) demo_draws (new_ctx (demo_request [])) w1 = (c2, w2) \<and> Status c2 = 200
     \<and> update_finish demo_deps 7 (path_ctx ''u1'' other_admin) u w2 = (c3, w3) \<and> Status c3 = 200
     \<and> map Role (d_state (w_db w3)) = [''user'']
     \<and> passes demo_deps demo_auth (14 * minute) {RoleAdmin} (''Bearer '' @ demo_token) w3 (user_principal demo_admin ''s1'')"
proof -
  obtain c2 w2 where l: "Login demo_deps demo_auth (BindOk demo_login) demo_draws (new_ctx (demo_request [])) admin_world = (c2, w2)" "Status c2 = 200"
    and w2: "w_db w2 = demo_db [demo_admin]" "faults (w_redis w2) = []" "clock (w_redis w2) = 1000" "session_inv 1000 (server (w_redis w2))"
    and t: "sessions 1000 (server (w_redis w2)) = [''s1'' \<mapsto> (login_record demo_admin ''j1'' (base64_RawURL (replicate 32 7)), 61000)]"
    by (rule admin_logs_in)
  obtain c3 where f: "update_finish demo_deps 7 (path_ctx ''u1'' other_admin) (demo_admin\<lparr>Role := ''user''\<rparr>) w2 = (c3, w2\<lparr>w_db := demo_db [demoted]\<rparr>)" "Status c3 = 200"
    using demote_finishes [OF w2(1)] by blast
  have p: "passes demo_deps demo_auth (14 * minute) {RoleAdmin} (''Bearer '' @ demo_token) (w2\<lparr>w_db := demo_db [demoted]\<rparr>) (user_principal demo_admin ''s1'')"
    using demo_services.issued_passes [of "w2\<lparr>w_db := demo_db [demoted]\<rparr>" "''Bearer '' @ demo_token" demo_token demo_auth "1000 * millisecond" "''u1''" "''s1''" "''j1''" "14 * minute"
        "login_record demo_admin ''j1'' (base64_RawURL (replicate 32 7))" 61000 "{RoleAdmin}" "user_principal demo_admin ''s1''"] w2 t demo_bearer demo_issue
    by (simp add: NewNumericDate_def is_ascii_valid_utf8 Valid_def RoleAdmin_def)
  show ?thesis using demote_begins l f p by (intro exI conjI) (assumption | simp)+
qed

end
