(* ===== verification/Query.thy ===== *)
theory Query
  imports UserRepo "HOL-Library.Monad_Syntax"
begin

text \<open>
  \<open>internal/model/query\<close>: the query objects \<open>gorm.io/gen\<close> generated for the users table. The
  packages they call (\<open>gorm.io/gen\<close> with its \<open>field\<close>, and \<open>gorm.io/gorm\<close>) are parameters, one
  record of functions over opaque values: \<open>'o\<close> a \<open>gen.DO\<close>, \<open>'g\<close> a \<open>*gorm.DB\<close>, \<open>'c\<close> the connection, \<open>'x\<close> any other
  argument. Conditions, columns and assignments are data. A failed type assertion panics:
  \<^const>\<open>None\<close>.
\<close>

section \<open>Values of the packages\<close>

datatype field = Asterisk string | StringField string string | BoolField string string | TimeField string string

datatype expr = Col field | Desc field

datatype condition = FieldEq field string | FieldLike field string | FieldIs field bool

datatype assign_expr = StringValue field string | BoolValue field bool

text \<open>What an \<open>interface{}\<close> result holds, and what a \<open>gen.Dao\<close> is.\<close>

datatype dyn = DynUser user | DynUsers "user list" | DynOther

datatype 'o dao = IsDO 'o | OtherDao

text \<open>The calls that build a query; each is a method of \<open>gen.DO\<close> of that name.\<close>

datatype 'x dao_call =
    Debug | WithContext 'x | Session 'x | Clauses "'x list" | Returning 'x "string list"
  | Not "condition list" | Or "condition list" | Select "expr list" | Where "condition list" | Order "expr list"
  | Distinct "expr list" | Omit "expr list" | Join 'x "expr list" | LeftJoin 'x "expr list" | RightJoin 'x "expr list"
  | GroupBy "expr list" | Having "condition list" | Limit int | Offset int | Scopes "'x list" | Unscoped
  | Attrs "assign_expr list" | Assign "assign_expr list" | JoinsOn 'x | PreloadOn 'x

type_synonym ('c, 'a) run = "'c \<Rightarrow> (sql_error + 'a) \<times> 'c"

record ('x, 'g, 'o, 'c) gen_lib =
  gl_zero :: 'o
  gl_UseDB :: "'g \<Rightarrow> 'x list \<Rightarrow> 'o \<Rightarrow> 'o"
  gl_UseModel :: "dyn \<Rightarrow> 'o \<Rightarrow> 'o"
  gl_UseTable :: "string \<Rightarrow> 'o \<Rightarrow> 'o"
  gl_ReplaceConnPool :: "'x \<Rightarrow> 'o \<Rightarrow> 'o"
  gl_ReplaceDB :: "'g \<Rightarrow> 'o \<Rightarrow> 'o"
  gl_TableName :: "'o \<Rightarrow> string"
  gl_Alias :: "'o \<Rightarrow> string"
  gl_Columns :: "expr list \<Rightarrow> 'o \<Rightarrow> 'x"
  gl_As :: "string \<Rightarrow> 'o \<Rightarrow> 'o dao"
  gl_call :: "'x dao_call \<Rightarrow> 'o \<Rightarrow> 'o dao"
  gl_First :: "'o \<Rightarrow> ('c, dyn) run"
  gl_Take :: "'o \<Rightarrow> ('c, dyn) run"
  gl_Last :: "'o \<Rightarrow> ('c, dyn) run"
  gl_FirstOrInit :: "'o \<Rightarrow> ('c, dyn) run"
  gl_FirstOrCreate :: "'o \<Rightarrow> ('c, dyn) run"
  gl_Find :: "'o \<Rightarrow> 'c \<Rightarrow> (dyn \<times> sql_error option) \<times> 'c"
  gl_Count :: "'o \<Rightarrow> ('c, int) run"
  gl_Scan :: "'o \<Rightarrow> ('c, 'x) run"
  gl_Create :: "user list \<Rightarrow> 'o \<Rightarrow> ('c, unit) run"
  gl_CreateInBatches :: "user list \<Rightarrow> int \<Rightarrow> 'o \<Rightarrow> ('c, unit) run"
  gl_Save :: "user list \<Rightarrow> 'o \<Rightarrow> ('c, unit) run"
  gl_Delete :: "user list \<Rightarrow> 'o \<Rightarrow> ('c, int) run"
  gl_UpdateSimple :: "assign_expr list \<Rightarrow> 'o \<Rightarrow> ('c, int) run"
  gl_Updates :: "user \<Rightarrow> 'o \<Rightarrow> ('c, int) run"
  gl_Read :: 'x
  gl_Write :: 'x
  gm_nil :: 'g
  gm_ConnPool :: "'g \<Rightarrow> 'x"
  gm_Clauses :: "'x list \<Rightarrow> 'g \<Rightarrow> 'g"
  gm_Transaction :: "('g \<Rightarrow> 'c \<Rightarrow> sql_error option \<times> 'c) \<Rightarrow> 'x list \<Rightarrow> 'g \<Rightarrow> 'c \<Rightarrow> sql_error option \<times> 'c"
  gm_Begin :: "'x list \<Rightarrow> 'g \<Rightarrow> 'c \<Rightarrow> 'g \<times> 'c"
  gm_Commit :: "'g \<Rightarrow> 'c \<Rightarrow> 'g \<times> 'c"
  gm_Rollback :: "'g \<Rightarrow> 'c \<Rightarrow> 'g \<times> 'c"
  gm_SavePoint :: "string \<Rightarrow> 'g \<Rightarrow> 'c \<Rightarrow> 'g \<times> 'c"
  gm_RollbackTo :: "string \<Rightarrow> 'g \<Rightarrow> 'c \<Rightarrow> 'g \<times> 'c"
  gm_Error :: "'g \<Rightarrow> sql_error option"

section \<open>userDo\<close>

definition withDO :: "'o dao \<Rightarrow> 'o option" where
  "withDO d = (case d of IsDO o' \<Rightarrow> Some o' | OtherDao \<Rightarrow> None)"

text \<open>The builder methods hand their arguments to the method of \<open>gen.DO\<close> of the same name.\<close>

definition userDo_call :: "('x, 'g, 'o, 'c) gen_lib \<Rightarrow> 'x dao_call \<Rightarrow> 'o \<Rightarrow> 'o option" where
  "userDo_call L k u = withDO (gl_call L k u)"

definition userDo_Attrs :: "('x, 'g, 'o, 'c) gen_lib \<Rightarrow> assign_expr list \<Rightarrow> 'o \<Rightarrow> 'o option" where
  "userDo_Attrs L attrs u = userDo_call L (Attrs attrs) u"

definition userDo_Assign :: "('x, 'g, 'o, 'c) gen_lib \<Rightarrow> assign_expr list \<Rightarrow> 'o \<Rightarrow> 'o option" where
  "userDo_Assign L attrs u = userDo_call L (Assign attrs) u"

definition userDo_ReadDB :: "('x, 'g, 'o, 'c) gen_lib \<Rightarrow> 'o \<Rightarrow> 'o option" where
  "userDo_ReadDB L u = userDo_call L (Clauses [gl_Read L]) u"

definition userDo_WriteDB :: "('x, 'g, 'o, 'c) gen_lib \<Rightarrow> 'o \<Rightarrow> 'o option" where
  "userDo_WriteDB L u = userDo_call L (Clauses [gl_Write L]) u"

fun userDo_Joins :: "('x, 'g, 'o, 'c) gen_lib \<Rightarrow> 'x list \<Rightarrow> 'o \<Rightarrow> 'o option" where
  "userDo_Joins L [] u = Some u"
| "userDo_Joins L (f # fs) u = do { u \<leftarrow> userDo_call L (JoinsOn f) u; userDo_Joins L fs u }"

fun userDo_Preload :: "('x, 'g, 'o, 'c) gen_lib \<Rightarrow> 'x list \<Rightarrow> 'o \<Rightarrow> 'o option" where
  "userDo_Preload L [] u = Some u"
| "userDo_Preload L (f # fs) u = do { u \<leftarrow> userDo_call L (PreloadOn f) u; userDo_Preload L fs u }"

definition userDo_Create :: "('x, 'g, 'o, 'c) gen_lib \<Rightarrow> user list \<Rightarrow> 'o \<Rightarrow> ('c, unit) run" where
  "userDo_Create L values u c = (if length values = 0 then (Inr (), c) else gl_Create L values u c)"

definition userDo_CreateInBatches :: "('x, 'g, 'o, 'c) gen_lib \<Rightarrow> user list \<Rightarrow> int \<Rightarrow> 'o \<Rightarrow> ('c, unit) run" where
  "userDo_CreateInBatches L values batchSize u c = gl_CreateInBatches L values batchSize u c"

definition userDo_Save :: "('x, 'g, 'o, 'c) gen_lib \<Rightarrow> user list \<Rightarrow> 'o \<Rightarrow> ('c, unit) run" where
  "userDo_Save L values u c = (if length values = 0 then (Inr (), c) else gl_Save L values u c)"

text \<open>The result is asserted to be a \<open>*model.User\<close>, unless there is an error.\<close>

definition one_user :: "(sql_error + dyn) \<times> 'c \<Rightarrow> ((sql_error + user) \<times> 'c) option" where
  "one_user x = (case x of (Inl e, c) \<Rightarrow> Some (Inl e, c) | (Inr (DynUser r), c) \<Rightarrow> Some (Inr r, c) | _ \<Rightarrow> None)"

definition userDo_First :: "('x, 'g, 'o, 'c) gen_lib \<Rightarrow> 'o \<Rightarrow> 'c \<Rightarrow> ((sql_error + user) \<times> 'c) option" where
  "userDo_First L u c = one_user (gl_First L u c)"

definition userDo_Take :: "('x, 'g, 'o, 'c) gen_lib \<Rightarrow> 'o \<Rightarrow> 'c \<Rightarrow> ((sql_error + user) \<times> 'c) option" where
  "userDo_Take L u c = one_user (gl_Take L u c)"

definition userDo_Last :: "('x, 'g, 'o, 'c) gen_lib \<Rightarrow> 'o \<Rightarrow> 'c \<Rightarrow> ((sql_error + user) \<times> 'c) option" where
  "userDo_Last L u c = one_user (gl_Last L u c)"

definition userDo_FirstOrInit :: "('x, 'g, 'o, 'c) gen_lib \<Rightarrow> 'o \<Rightarrow> 'c \<Rightarrow> ((sql_error + user) \<times> 'c) option" where
  "userDo_FirstOrInit L u c = one_user (gl_FirstOrInit L u c)"

definition userDo_FirstOrCreate :: "('x, 'g, 'o, 'c) gen_lib \<Rightarrow> 'o \<Rightarrow> 'c \<Rightarrow> ((sql_error + user) \<times> 'c) option" where
  "userDo_FirstOrCreate L u c = one_user (gl_FirstOrCreate L u c)"

text \<open>\<open>Find\<close> asserts its result also when there is an error.\<close>

definition userDo_Find :: "('x, 'g, 'o, 'c) gen_lib \<Rightarrow> 'o \<Rightarrow> 'c \<Rightarrow> ((user list \<times> sql_error option) \<times> 'c) option" where
  "userDo_Find L u c = (case gl_Find L u c of ((DynUsers us, err), c') \<Rightarrow> Some ((us, err), c') | _ \<Rightarrow> None)"

text \<open>
  The loop over the batches is \<open>gen.DO.FindInBatches\<close>, an argument \<open>batches\<close> that runs a callback
  on the rows, the transaction and the number of each batch; the closure collects the rows after its call
  of \<open>fc\<close> (a deferred function), in a second component of the state.
\<close>

definition userDo_FindInBatch ::
    "(int \<Rightarrow> (user list \<Rightarrow> 'o \<Rightarrow> int \<Rightarrow> 'c \<times> user list \<Rightarrow> sql_error option \<times> 'c \<times> user list) \<Rightarrow> 'o \<Rightarrow>
        'c \<times> user list \<Rightarrow> sql_error option \<times> 'c \<times> user list) \<Rightarrow>
     int \<Rightarrow> ('o \<Rightarrow> int \<Rightarrow> 'c \<Rightarrow> sql_error option \<times> 'c) \<Rightarrow> 'o \<Rightarrow> 'c \<Rightarrow> (user list \<times> sql_error option) \<times> 'c" where
  "userDo_FindInBatch batches batchSize fc u c =
     (case batches batchSize (\<lambda>buf tx batch (c, results). case fc tx batch c of (err, c') \<Rightarrow> (err, c', results @ buf)) u (c, []) of
        (err, c', results) \<Rightarrow> ((results, err), c'))"

definition userDo_FindInBatches ::
    "(int \<Rightarrow> (user list \<Rightarrow> 'o \<Rightarrow> int \<Rightarrow> 's \<Rightarrow> sql_error option \<times> 's) \<Rightarrow> 'o \<Rightarrow> 's \<Rightarrow> sql_error option \<times> 's) \<Rightarrow>
     int \<Rightarrow> (user list \<Rightarrow> 'o \<Rightarrow> int \<Rightarrow> 's \<Rightarrow> sql_error option \<times> 's) \<Rightarrow> 'o \<Rightarrow> 's \<Rightarrow> sql_error option \<times> 's" where
  "userDo_FindInBatches batches batchSize fc u s = batches batchSize fc u s"

text \<open>
  A loop over the batches as the package documents it: the callback runs on each, numbered from 1, until one
  reports an error. \<open>FindInBatch\<close> then returns the rows of every batch its callback has seen, those of the batch
  that failed included.
\<close>

fun each_batch :: "(user list \<Rightarrow> 'o \<Rightarrow> int \<Rightarrow> 's \<Rightarrow> sql_error option \<times> 's) \<Rightarrow> 'o \<Rightarrow> int \<Rightarrow> user list list \<Rightarrow> 's \<Rightarrow> sql_error option \<times> 's" where
  "each_batch fc u n [] s = (None, s)"
| "each_batch fc u n (b # bs) s =
     (case fc b u n s of (Some e, s') \<Rightarrow> (Some e, s') | (None, s') \<Rightarrow> each_batch fc u (n + 1) bs s')"

lemma each_batch_collects:
  "\<exists>k c' err. each_batch (\<lambda>buf tx batch (c, results). case fc tx batch c of (err, c') \<Rightarrow> (err, c', results @ buf)) u n bs (c, rs) =
      (err, c', rs @ concat (take k bs)) \<and> k \<le> length bs \<and> (err = None \<longrightarrow> k = length bs) \<and> (err \<noteq> None \<longrightarrow> 0 < k)"
proof (induction bs arbitrary: n c rs)
  case (Cons b bs)
  obtain err c1 where fc: "fc u n c = (err, c1)" by fastforce
  show ?case
  proof (cases err)
    case None
    obtain k c' e where k: "each_batch (\<lambda>buf tx batch (c, results). case fc tx batch c of (err, c') \<Rightarrow> (err, c', results @ buf)) u (n + 1) bs
        (c1, rs @ b) = (e, c', (rs @ b) @ concat (take k bs))" "k \<le> length bs" "e = None \<longrightarrow> k = length bs" "e \<noteq> None \<longrightarrow> 0 < k"
      using Cons.IH by blast
    then show ?thesis using fc None by (intro exI [of _ "Suc k"] exI [of _ c'] exI [of _ e]) simp
  next
    case (Some e)
    then show ?thesis using fc by (intro exI [of _ 1] exI [of _ c1] exI [of _ err]) simp
  qed
qed simp

lemma FindInBatch_collects:
  "\<exists>k err c'. userDo_FindInBatch (\<lambda>batchSize fc u s. each_batch fc u 1 bs s) batchSize fc u c = ((concat (take k bs), err), c')
    \<and> k \<le> length bs \<and> (err = None \<longrightarrow> k = length bs) \<and> (err \<noteq> None \<longrightarrow> 0 < k)"
proof -
  obtain k c' err where "each_batch (\<lambda>buf tx batch (c, results). case fc tx batch c of (err, c') \<Rightarrow> (err, c', results @ buf)) u 1 bs (c, []) =
      (err, c', [] @ concat (take k bs))" "k \<le> length bs" "err = None \<longrightarrow> k = length bs" "err \<noteq> None \<longrightarrow> 0 < k"
    using each_batch_collects [of fc u 1 bs c "[]"] by blast
  then show ?thesis by (intro exI [of _ k] exI [of _ err] exI [of _ c']) (simp add: userDo_FindInBatch_def)
qed

definition userDo_FindByPage ::
    "('x, 'g, 'o, 'c) gen_lib \<Rightarrow> int \<Rightarrow> int \<Rightarrow> 'o \<Rightarrow> 'c \<Rightarrow> ((sql_error + user list \<times> int) \<times> 'c) option" where
  "userDo_FindByPage L offset limit u c =
     do { v \<leftarrow> userDo_call L (Offset offset) u; v \<leftarrow> userDo_call L (Limit limit) v;
          ((result, err), c1) \<leftarrow> userDo_Find L v c;
          case err of
            Some e \<Rightarrow> Some (Inl e, c1)
          | None \<Rightarrow>
              (let size = int (length result) in
               if 0 < limit \<and> 0 < size \<and> size < limit then Some (Inr (result, go_int (size + offset)), c1)
               else
                 do { w \<leftarrow> userDo_call L (Offset (-1)) u; w \<leftarrow> userDo_call L (Limit (-1)) w;
                      Some (case gl_Count L w c1 of (Inl e, c2) \<Rightarrow> (Inl e, c2) | (Inr n, c2) \<Rightarrow> (Inr (result, n), c2)) }) }"

definition userDo_ScanByPage :: "('x, 'g, 'o, 'c) gen_lib \<Rightarrow> int \<Rightarrow> int \<Rightarrow> 'o \<Rightarrow> 'c \<Rightarrow> ((sql_error + int \<times> 'x) \<times> 'c) option" where
  "userDo_ScanByPage L offset limit u c =
     (case gl_Count L u c of
        (Inl e, c1) \<Rightarrow> Some (Inl e, c1)
      | (Inr n, c1) \<Rightarrow>
          do { v \<leftarrow> userDo_call L (Offset offset) u; v \<leftarrow> userDo_call L (Limit limit) v;
               Some (case gl_Scan L v c1 of (Inl e, c2) \<Rightarrow> (Inl e, c2) | (Inr r, c2) \<Rightarrow> (Inr (n, r), c2)) })"

definition userDo_Scan :: "('x, 'g, 'o, 'c) gen_lib \<Rightarrow> 'o \<Rightarrow> ('c, 'x) run" where
  "userDo_Scan L u c = gl_Scan L u c"

definition userDo_Delete :: "('x, 'g, 'o, 'c) gen_lib \<Rightarrow> user list \<Rightarrow> 'o \<Rightarrow> ('c, int) run" where
  "userDo_Delete L models u c = gl_Delete L models u c"

section \<open>user\<close>

text \<open>The table and its columns, as \<open>internal/model/user.go\<close> declares them.\<close>

definition TableName_User :: string where "TableName_User = ''users''"

definition columns_User :: "(string \<times> (string \<Rightarrow> string \<Rightarrow> field)) list" where
  "columns_User =
     [(''id'', StringField), (''email'', StringField), (''remark'', StringField), (''password_hash'', StringField),
      (''is_active'', BoolField), (''role'', StringField), (''created_at'', TimeField), (''updated_at'', TimeField)]"

record 'o query_user =
  uq_userDo :: 'o
  uq_ALL :: field
  uq_ID :: field
  uq_Email :: field
  uq_Remark :: field
  uq_PasswordHash :: field
  uq_Active :: field
  uq_Role :: field
  uq_CreatedAt :: field
  uq_UpdatedAt :: field
  uq_fieldMap :: "string \<rightharpoonup> field"

definition fillFieldMap :: "'o query_user \<Rightarrow> 'o query_user" where
  "fillFieldMap u = u\<lparr>uq_fieldMap :=
     [''id'' \<mapsto> uq_ID u, ''email'' \<mapsto> uq_Email u, ''remark'' \<mapsto> uq_Remark u, ''password_hash'' \<mapsto> uq_PasswordHash u,
      ''is_active'' \<mapsto> uq_Active u, ''role'' \<mapsto> uq_Role u, ''created_at'' \<mapsto> uq_CreatedAt u, ''updated_at'' \<mapsto> uq_UpdatedAt u]\<rparr>"

definition newUser :: "('x, 'g, 'o, 'c) gen_lib \<Rightarrow> 'g \<Rightarrow> 'x list \<Rightarrow> 'o query_user" where
  "newUser L db opts =
     (let d = gl_UseDB L db opts (gl_zero L);
          d = gl_UseModel L (DynUser \<lparr>ID = [], Email = [], Remark = [], PasswordHash = [], Active = False, Role = [],
                CreatedAt = 0, UpdatedAt = 0\<rparr>) d;
          tableName = gl_TableName L d
      in fillFieldMap \<lparr>uq_userDo = d, uq_ALL = Asterisk tableName, uq_ID = StringField tableName ''id'',
           uq_Email = StringField tableName ''email'', uq_Remark = StringField tableName ''remark'',
           uq_PasswordHash = StringField tableName ''password_hash'', uq_Active = BoolField tableName ''is_active'',
           uq_Role = StringField tableName ''role'', uq_CreatedAt = TimeField tableName ''created_at'',
           uq_UpdatedAt = TimeField tableName ''updated_at'', uq_fieldMap = Map.empty\<rparr>)"

definition updateTableName :: "string \<Rightarrow> 'o query_user \<Rightarrow> 'o query_user" where
  "updateTableName tb u =
     fillFieldMap (u\<lparr>uq_ALL := Asterisk tb, uq_ID := StringField tb ''id'', uq_Email := StringField tb ''email'',
       uq_Remark := StringField tb ''remark'', uq_PasswordHash := StringField tb ''password_hash'',
       uq_Active := BoolField tb ''is_active'', uq_Role := StringField tb ''role'',
       uq_CreatedAt := TimeField tb ''created_at'', uq_UpdatedAt := TimeField tb ''updated_at''\<rparr>)"

definition user_Table :: "('x, 'g, 'o, 'c) gen_lib \<Rightarrow> string \<Rightarrow> 'o query_user \<Rightarrow> 'o query_user" where
  "user_Table L newTableName u =
     updateTableName newTableName (u\<lparr>uq_userDo := gl_UseTable L newTableName (uq_userDo u)\<rparr>)"

definition user_As :: "('x, 'g, 'o, 'c) gen_lib \<Rightarrow> string \<Rightarrow> 'o query_user \<Rightarrow> 'o query_user option" where
  "user_As L alias u =
     do { d \<leftarrow> withDO (gl_As L alias (uq_userDo u)); Some (updateTableName alias (u\<lparr>uq_userDo := d\<rparr>)) }"

definition user_WithContext :: "('x, 'g, 'o, 'c) gen_lib \<Rightarrow> 'x \<Rightarrow> 'o query_user \<Rightarrow> 'o option" where
  "user_WithContext L ctx u = userDo_call L (WithContext ctx) (uq_userDo u)"

definition user_TableName :: "('x, 'g, 'o, 'c) gen_lib \<Rightarrow> 'o query_user \<Rightarrow> string" where
  "user_TableName L u = gl_TableName L (uq_userDo u)"

definition user_Alias :: "('x, 'g, 'o, 'c) gen_lib \<Rightarrow> 'o query_user \<Rightarrow> string" where
  "user_Alias L u = gl_Alias L (uq_userDo u)"

definition user_Columns :: "('x, 'g, 'o, 'c) gen_lib \<Rightarrow> expr list \<Rightarrow> 'o query_user \<Rightarrow> 'x" where
  "user_Columns L cols u = gl_Columns L cols (uq_userDo u)"

text \<open>\<open>is_order\<close> tells which fields are a \<open>field.OrderExpr\<close>.\<close>

definition GetFieldByName :: "(field \<Rightarrow> bool) \<Rightarrow> 'o query_user \<Rightarrow> string \<Rightarrow> field option" where
  "GetFieldByName is_order u fieldName =
     (case uq_fieldMap u fieldName of
        None \<Rightarrow> None
      | Some f \<Rightarrow> if is_order f then Some f else None)"

definition user_clone :: "('x, 'g, 'o, 'c) gen_lib \<Rightarrow> 'g \<Rightarrow> 'o query_user \<Rightarrow> 'o query_user" where
  "user_clone L db u = u\<lparr>uq_userDo := gl_ReplaceConnPool L (gm_ConnPool L db) (uq_userDo u)\<rparr>"

definition user_replaceDB :: "('x, 'g, 'o, 'c) gen_lib \<Rightarrow> 'g \<Rightarrow> 'o query_user \<Rightarrow> 'o query_user" where
  "user_replaceDB L db u = u\<lparr>uq_userDo := gl_ReplaceDB L db (uq_userDo u)\<rparr>"

section \<open>gen.go\<close>

record ('g, 'o) query =
  q_db :: 'g
  q_User :: "'o query_user"

record ('g, 'o) query_tx =
  qt_Query :: "('g, 'o) query"
  qt_Error :: "sql_error option"

definition Use :: "('x, 'g, 'o, 'c) gen_lib \<Rightarrow> 'g \<Rightarrow> 'x list \<Rightarrow> ('g, 'o) query" where
  "Use L db opts = \<lparr>q_db = db, q_User = newUser L db opts\<rparr>"

definition Available :: "('x, 'g, 'o, 'c) gen_lib \<Rightarrow> ('g, 'o) query \<Rightarrow> bool" where
  "Available L q = (q_db q \<noteq> gm_nil L)"

definition UnderlyingDB :: "('g, 'o) query \<Rightarrow> 'g" where
  "UnderlyingDB q = q_db q"

definition query_clone :: "('x, 'g, 'o, 'c) gen_lib \<Rightarrow> 'g \<Rightarrow> ('g, 'o) query \<Rightarrow> ('g, 'o) query" where
  "query_clone L db q = \<lparr>q_db = db, q_User = user_clone L db (q_User q)\<rparr>"

definition query_ReadDB :: "('x, 'g, 'o, 'c) gen_lib \<Rightarrow> ('g, 'o) query \<Rightarrow> ('g, 'o) query" where
  "query_ReadDB L q = query_clone L (gm_Clauses L [gl_Read L] (q_db q)) q"

definition query_WriteDB :: "('x, 'g, 'o, 'c) gen_lib \<Rightarrow> ('g, 'o) query \<Rightarrow> ('g, 'o) query" where
  "query_WriteDB L q = query_clone L (gm_Clauses L [gl_Write L] (q_db q)) q"

definition query_ReplaceDB :: "('x, 'g, 'o, 'c) gen_lib \<Rightarrow> 'g \<Rightarrow> ('g, 'o) query \<Rightarrow> ('g, 'o) query" where
  "query_ReplaceDB L db q = \<lparr>q_db = db, q_User = user_replaceDB L db (q_User q)\<rparr>"

definition query_WithContext :: "('x, 'g, 'o, 'c) gen_lib \<Rightarrow> 'x \<Rightarrow> ('g, 'o) query \<Rightarrow> 'o option" where
  "query_WithContext L ctx q = user_WithContext L ctx (q_User q)"

definition query_Transaction ::
    "('x, 'g, 'o, 'c) gen_lib \<Rightarrow> (('g, 'o) query \<Rightarrow> 'c \<Rightarrow> sql_error option \<times> 'c) \<Rightarrow> 'x list \<Rightarrow> ('g, 'o) query \<Rightarrow> 'c \<Rightarrow> sql_error option \<times> 'c" where
  "query_Transaction L fc opts q c = gm_Transaction L (\<lambda>tx. fc (query_clone L tx q)) opts (q_db q) c"

definition query_Begin :: "('x, 'g, 'o, 'c) gen_lib \<Rightarrow> 'x list \<Rightarrow> ('g, 'o) query \<Rightarrow> 'c \<Rightarrow> ('g, 'o) query_tx \<times> 'c" where
  "query_Begin L opts q c =
     (case gm_Begin L opts (q_db q) c of (tx, c') \<Rightarrow> (\<lparr>qt_Query = query_clone L tx q, qt_Error = gm_Error L tx\<rparr>, c'))"

definition tx_Commit :: "('x, 'g, 'o, 'c) gen_lib \<Rightarrow> ('g, 'o) query_tx \<Rightarrow> 'c \<Rightarrow> sql_error option \<times> 'c" where
  "tx_Commit L q c = (case gm_Commit L (q_db (qt_Query q)) c of (r, c') \<Rightarrow> (gm_Error L r, c'))"

definition tx_Rollback :: "('x, 'g, 'o, 'c) gen_lib \<Rightarrow> ('g, 'o) query_tx \<Rightarrow> 'c \<Rightarrow> sql_error option \<times> 'c" where
  "tx_Rollback L q c = (case gm_Rollback L (q_db (qt_Query q)) c of (r, c') \<Rightarrow> (gm_Error L r, c'))"

definition tx_SavePoint :: "('x, 'g, 'o, 'c) gen_lib \<Rightarrow> string \<Rightarrow> ('g, 'o) query_tx \<Rightarrow> 'c \<Rightarrow> sql_error option \<times> 'c" where
  "tx_SavePoint L name q c = (case gm_SavePoint L name (q_db (qt_Query q)) c of (r, c') \<Rightarrow> (gm_Error L r, c'))"

definition tx_RollbackTo :: "('x, 'g, 'o, 'c) gen_lib \<Rightarrow> string \<Rightarrow> ('g, 'o) query_tx \<Rightarrow> 'c \<Rightarrow> sql_error option \<times> 'c" where
  "tx_RollbackTo L name q c = (case gm_RollbackTo L name (q_db (qt_Query q)) c of (r, c') \<Rightarrow> (gm_Error L r, c'))"

end
