(* ===== verification/QueryRepo.thy ===== *)
theory QueryRepo
  imports Query
begin

text \<open>
  \<open>internal/data/user.go\<close> once more, now as the chains of generated calls it is written in; the
  theory \<open>UserRepo\<close> has the same methods over the statements the chains issue. The locale
  \<open>gen_users\<close> states what \<open>gorm.io/gen\<close> does with a chain: the conditions, the order, the window and the selected
  columns add up, and the last call runs one statement. \<open>plan_lib\<close> is an instance. The second part is about
  the generated table object: whatever it has been through, its columns are those of the current table.
\<close>

section \<open>The statement a chain stands for\<close>

record plan =
  pl_table :: string
  pl_conds :: "cond list"
  pl_order :: "expr list"
  pl_offset :: int
  pl_limit :: int
  pl_select :: "expr list"

definition all_rows :: plan where
  "all_rows = \<lparr>pl_table = TableName_User, pl_conds = [], pl_order = [], pl_offset = 0, pl_limit = -1, pl_select = []\<rparr>"

text \<open>A condition, an assignment and a selected column of the table, as the statements have them.\<close>

fun cond_of :: "condition \<Rightarrow> cond option" where
  "cond_of (FieldEq (StringField tb n) v) =
     (if tb \<noteq> TableName_User then None
      else if n = ''id'' then Some (IdEq v) else if n = ''email'' then Some (EmailEq v)
      else if n = ''role'' then Some (RoleEq v) else None)"
| "cond_of (FieldLike (StringField tb n) v) = (if tb = TableName_User \<and> n = ''email'' then Some (EmailLike v) else None)"
| "cond_of (FieldIs (BoolField tb n) b) = (if tb = TableName_User \<and> n = ''is_active'' then Some (ActiveIs b) else None)"
| "cond_of _ = None"

fun assign_of :: "assign_expr \<Rightarrow> assign option" where
  "assign_of (StringValue (StringField tb n) v) =
     (if tb \<noteq> TableName_User then None
      else if n = ''email'' then Some (SetEmail v) else if n = ''remark'' then Some (SetRemark v)
      else if n = ''password_hash'' then Some (SetPasswordHash v) else if n = ''role'' then Some (SetRole v) else None)"
| "assign_of (BoolValue (BoolField tb n) b) = (if tb = TableName_User \<and> n = ''is_active'' then Some (SetActive b) else None)"
| "assign_of _ = None"

fun select_of :: "user \<Rightarrow> expr \<Rightarrow> assign option" where
  "select_of u (Col (StringField tb n)) =
     (if tb \<noteq> TableName_User then None
      else if n = ''email'' then Some (SetEmail (Email u)) else if n = ''remark'' then Some (SetRemark (Remark u))
      else if n = ''password_hash'' then Some (SetPasswordHash (PasswordHash u))
      else if n = ''role'' then Some (SetRole (Role u)) else None)"
| "select_of u (Col (TimeField tb n)) = (if tb = TableName_User \<and> n = ''updated_at'' then Some (SetUpdatedAt (UpdatedAt u)) else None)"
| "select_of u _ = None"

fun plan_step :: "'x dao_call \<Rightarrow> plan \<Rightarrow> plan option" where
  "plan_step (WithContext ctx) p = Some p"
| "plan_step (Where ks) p = do { cs \<leftarrow> those (map cond_of ks); Some (p\<lparr>pl_conds := pl_conds p @ cs\<rparr>) }"
| "plan_step (Order es) p = Some (p\<lparr>pl_order := pl_order p @ es\<rparr>)"
| "plan_step (Offset n) p = Some (p\<lparr>pl_offset := n\<rparr>)"
| "plan_step (Limit n) p = Some (p\<lparr>pl_limit := n\<rparr>)"
| "plan_step (Select es) p = Some (p\<lparr>pl_select := es\<rparr>)"
| "plan_step _ p = None"

section \<open>The repository over the generated calls\<close>

text \<open>\<^const>\<open>None\<close> is a panic, of a failed type assertion; \<open>q\<close> is the field \<open>query\<close>, the only one.\<close>

definition NewUserRepository :: "('x, 'g, 'o, 'c) gen_lib \<Rightarrow> 'g \<Rightarrow> ('g, 'o) query" where
  "NewUserRepository L db = Use L db []"

definition gen_FindUserByID ::
    "('x, 'g, 'o, 'c) gen_lib \<Rightarrow> ('g, 'o) query \<Rightarrow> 'x \<Rightarrow> 'c \<Rightarrow> string \<Rightarrow> ((data_error + user) \<times> 'c) option" where
  "gen_FindUserByID L q ctx c uid =
     do { u \<leftarrow> user_WithContext L ctx (q_User q);
          u \<leftarrow> userDo_call L (Where [FieldEq (uq_ID (q_User q)) uid]) u;
          (r, c') \<leftarrow> userDo_Take L u c;
          Some (case r of
                  Inl ErrRecordNotFound \<Rightarrow> (Inl ErrNotFound, c')
                | Inl e \<Rightarrow> (Inl (other_error e), c')
                | Inr row \<Rightarrow> (Inr row, c')) }"

definition gen_FindUserByEmail ::
    "unicode_tables \<Rightarrow> ('x, 'g, 'o, 'c) gen_lib \<Rightarrow> ('g, 'o) query \<Rightarrow> 'x \<Rightarrow> 'c \<Rightarrow> string \<Rightarrow> ((data_error + user) \<times> 'c) option" where
  "gen_FindUserByEmail U L q ctx c email =
     do { u \<leftarrow> user_WithContext L ctx (q_User q);
          u \<leftarrow> userDo_call L (Where [FieldEq (uq_Email (q_User q)) (normalizeEmail U email)]) u;
          (r, c') \<leftarrow> userDo_Take L u c;
          Some (case r of
                  Inl ErrRecordNotFound \<Rightarrow> (Inl ErrNotFound, c')
                | Inl e \<Rightarrow> (Inl (other_error e), c')
                | Inr row \<Rightarrow> (Inr row, c')) }"

definition gen_ListUsers ::
    "unicode_tables \<Rightarrow> ('x, 'g, 'o, 'c) gen_lib \<Rightarrow> ('g, 'o) query \<Rightarrow> 'x \<Rightarrow> 'c \<Rightarrow> int \<Rightarrow> int \<Rightarrow> string \<Rightarrow> role \<Rightarrow> bool option \<Rightarrow>
     ((data_error + user list \<times> int) \<times> 'c) option" where
  "gen_ListUsers U L q ctx c offset limit email role active =
     do { u \<leftarrow> user_WithContext L ctx (q_User q);
          u \<leftarrow> (if email \<noteq> [] then
                  userDo_call L (Where [FieldLike (uq_Email (q_User q))
                    (''%'' @ escapeLikePattern (normalizeEmail U email) @ ''%'')]) u
                else Some u);
          u \<leftarrow> (if role \<noteq> [] then userDo_call L (Where [FieldEq (uq_Role (q_User q)) role]) u else Some u);
          u \<leftarrow> (case active of Some a \<Rightarrow> userDo_call L (Where [FieldIs (uq_Active (q_User q)) a]) u | None \<Rightarrow> Some u);
          u \<leftarrow> userDo_call L (Order [Desc (uq_CreatedAt (q_User q))]) u;
          (r, c') \<leftarrow> userDo_FindByPage L offset limit u c;
          Some (case r of Inl e \<Rightarrow> (Inl (other_error e), c') | Inr (us, cnt) \<Rightarrow> (Inr (us, cnt), c')) }"

definition gen_CreateUser ::
    "('x, 'g, 'o, 'c) gen_lib \<Rightarrow> ('g, 'o) query \<Rightarrow> 'x \<Rightarrow> 'c \<Rightarrow> user \<Rightarrow> ((data_error + user) \<times> 'c) option" where
  "gen_CreateUser L q ctx c row =
     do { u \<leftarrow> user_WithContext L ctx (q_User q);
          Some (case userDo_Create L [row] u c of
                  (Inl ErrDuplicatedKey, c') \<Rightarrow> (Inl ErrConflict, c')
                | (Inl e, c') \<Rightarrow> (Inl (other_error e), c')
                | (Inr _, c') \<Rightarrow> (Inr row, c')) }"

text \<open>What follows a write of one row; the continuation is the reply when a row was affected.\<close>

definition after_write :: "(sql_error + int) \<times> 'c \<Rightarrow> ('c \<Rightarrow> ((data_error + 'a) \<times> 'c) option) \<Rightarrow> ((data_error + 'a) \<times> 'c) option" where
  "after_write x k =
     (case x of
        (Inl ErrDuplicatedKey, c') \<Rightarrow> Some (Inl ErrConflict, c')
      | (Inl e, c') \<Rightarrow> Some (Inl (other_error e), c')
      | (Inr affected, c') \<Rightarrow> if affected = 0 then Some (Inl ErrNotFound, c') else k c')"

definition gen_UpdateUser ::
    "('x, 'g, 'o, 'c) gen_lib \<Rightarrow> ('g, 'o) query \<Rightarrow> 'x \<Rightarrow> 'c \<Rightarrow> user \<Rightarrow> ((data_error + user) \<times> 'c) option" where
  "gen_UpdateUser L q ctx c row =
     do { u \<leftarrow> user_WithContext L ctx (q_User q);
          u \<leftarrow> userDo_call L (Where [FieldEq (uq_ID (q_User q)) (ID row)]) u;
          u \<leftarrow> userDo_call L (Select [Col (uq_Email (q_User q)), Col (uq_Remark (q_User q)), Col (uq_PasswordHash (q_User q)),
                 Col (uq_Role (q_User q)), Col (uq_UpdatedAt (q_User q))]) u;
          after_write (gl_Updates L row u c) (\<lambda>c'. gen_FindUserByID L q ctx c' (ID row)) }"

definition gen_SetUserActive ::
    "('x, 'g, 'o, 'c) gen_lib \<Rightarrow> ('g, 'o) query \<Rightarrow> 'x \<Rightarrow> 'c \<Rightarrow> string \<Rightarrow> bool \<Rightarrow> ((data_error + user) \<times> 'c) option" where
  "gen_SetUserActive L q ctx c uid active =
     do { u \<leftarrow> user_WithContext L ctx (q_User q);
          u \<leftarrow> userDo_call L (Where [FieldEq (uq_ID (q_User q)) uid]) u;
          after_write (gl_UpdateSimple L [BoolValue (uq_Active (q_User q)) active] u c) (\<lambda>c'. gen_FindUserByID L q ctx c' uid) }"

definition gen_DeleteUser ::
    "('x, 'g, 'o, 'c) gen_lib \<Rightarrow> ('g, 'o) query \<Rightarrow> 'x \<Rightarrow> 'c \<Rightarrow> string \<Rightarrow> ((data_error + unit) \<times> 'c) option" where
  "gen_DeleteUser L q ctx c uid =
     do { u \<leftarrow> user_WithContext L ctx (q_User q);
          u \<leftarrow> userDo_call L (Where [FieldEq (uq_ID (q_User q)) uid]) u;
          after_write (userDo_Delete L [] u c) (\<lambda>c'. Some (Inr (), c')) }"

definition gen_EnsureBootstrapAdmin ::
    "bcrypt_lib \<Rightarrow> ('x, 'g, 'o, 'c) gen_lib \<Rightarrow> ('g, 'o) query \<Rightarrow> 'x \<Rightarrow> 'c \<Rightarrow> string \<Rightarrow> string \<Rightarrow> string \<Rightarrow> instant \<Rightarrow>
     ((data_error + string \<times> string \<times> string) \<times> 'c) option" where
  "gen_EnsureBootstrapAdmin B L q ctx c password salt new_id now =
     (case HashPassword B salt password of
        None \<Rightarrow> Some (Inl (ErrOther ''bcrypt''), c)
      | Some passwordHash \<Rightarrow>
          (let email = bootstrapAdminEmail in
           do { u \<leftarrow> user_WithContext L ctx (q_User q);
                v \<leftarrow> userDo_call L (Where [FieldEq (uq_Email (q_User q)) email]) u;
                (r, c1) \<leftarrow> userDo_Take L v c;
                case r of
                  Inl ErrRecordNotFound \<Rightarrow>
                    do { u \<leftarrow> user_WithContext L ctx (q_User q);
                         Some (case userDo_Create L [\<lparr>ID = new_id, Email = email, Remark = ''admin'', PasswordHash = passwordHash,
                                 Active = True, Role = RoleAdmin, CreatedAt = now, UpdatedAt = now\<rparr>] u c1 of
                                 (Inl e, c2) \<Rightarrow> (Inl (other_error e), c2)
                               | (Inr _, c2) \<Rightarrow> (Inr (email, password, new_id), c2)) }
                | Inl e \<Rightarrow> Some (Inl (other_error e), c1)
                | Inr existing \<Rightarrow>
                    do { u \<leftarrow> user_WithContext L ctx (q_User q);
                         u \<leftarrow> userDo_call L (Where [FieldEq (uq_ID (q_User q)) (ID existing)]) u;
                         Some (case gl_UpdateSimple L
                                 [StringValue (uq_PasswordHash (q_User q)) passwordHash, StringValue (uq_Remark (q_User q)) ''admin'',
                                  StringValue (uq_Role (q_User q)) RoleAdmin, BoolValue (uq_Active (q_User q)) True] u c1 of
                                 (Inl e, c2) \<Rightarrow> (Inl (other_error e), c2)
                               | (Inr _, c2) \<Rightarrow> (Inr (email, password, ID existing), c2)) } }))"

section \<open>What the package promises\<close>

text \<open>
  \<open>plan d\<close> is the statement the calls on \<open>d\<close> have built; \<open>plain\<close> says that a \<open>*gorm.DB\<close> has no conditions
  of its own. A failed \<open>Find\<close> still returns a slice of users.
\<close>

locale gen_users =
  fixes L :: "('x, 'g, 'o, 'd dconn) gen_lib" and D :: "'d db" and plan :: "'o \<Rightarrow> plan option" and plain :: "'g \<Rightarrow> bool"
  assumes new_plan: "plain db \<Longrightarrow> plan (gl_UseModel L (DynUser u) (gl_UseDB L db [] (gl_zero L))) = Some all_rows"
    and new_table: "gl_TableName L (gl_UseModel L (DynUser u) d) = TableName_User"
    and call_plan: "plan d = Some p \<Longrightarrow> plan_step k p = Some p' \<Longrightarrow> \<exists>d'. gl_call L k d = IsDO d' \<and> plan d' = Some p'"
    and run_Take: "plan d = Some (all_rows\<lparr>pl_conds := cs\<rparr>) \<Longrightarrow>
      gl_Take L d c = apfst (map_sum id DynUser) (dcall (db_Take D cs) c)"
    and run_Find: "plan d = Some (all_rows\<lparr>pl_conds := cs, pl_order := [Desc (TimeField TableName_User ''created_at'')],
        pl_offset := offset, pl_limit := limit\<rparr>) \<Longrightarrow>
      \<exists>us. gl_Find L d c = apfst (case_sum (\<lambda>e. (DynUsers us, Some e)) (\<lambda>rs. (DynUsers rs, None))) (dcall (db_Find D cs offset limit) c)"
    and run_Count: "plan d = Some (all_rows\<lparr>pl_conds := cs, pl_order := es, pl_offset := -1, pl_limit := -1\<rparr>) \<Longrightarrow>
      gl_Count L d c = dcall (db_Count D cs) c"
    and run_Create: "plan d = Some all_rows \<Longrightarrow> gl_Create L [row] d c = dcall (db_Create D row) c"
    and run_UpdateSimple: "plan d = Some (all_rows\<lparr>pl_conds := cs\<rparr>) \<Longrightarrow> those (map assign_of vs) = Some as \<Longrightarrow>
      gl_UpdateSimple L vs d c = dcall (db_Updates D cs as) c"
    and run_Updates: "plan d = Some (all_rows\<lparr>pl_conds := cs, pl_select := ks\<rparr>) \<Longrightarrow> those (map (select_of row) ks) = Some as \<Longrightarrow>
      gl_Updates L row d c = dcall (db_Updates D cs as) c"
    and run_Delete: "plan d = Some (all_rows\<lparr>pl_conds := cs\<rparr>) \<Longrightarrow> gl_Delete L [] d c = dcall (db_Delete D cs) c"

context gen_users
begin

lemma step:
  assumes "plan d = Some p" "plan_step k p = Some p'"
  obtains d' where "userDo_call L k d = Some d'" "plan d' = Some p'"
  using call_plan [OF assms] by (auto simp: userDo_call_def withDO_def)

lemma fields:
  "uq_ID (q_User (NewUserRepository L db)) = StringField TableName_User ''id''"
  "uq_Email (q_User (NewUserRepository L db)) = StringField TableName_User ''email''"
  "uq_Remark (q_User (NewUserRepository L db)) = StringField TableName_User ''remark''"
  "uq_PasswordHash (q_User (NewUserRepository L db)) = StringField TableName_User ''password_hash''"
  "uq_Active (q_User (NewUserRepository L db)) = BoolField TableName_User ''is_active''"
  "uq_Role (q_User (NewUserRepository L db)) = StringField TableName_User ''role''"
  "uq_CreatedAt (q_User (NewUserRepository L db)) = TimeField TableName_User ''created_at''"
  "uq_UpdatedAt (q_User (NewUserRepository L db)) = TimeField TableName_User ''updated_at''"
  by (simp_all add: NewUserRepository_def Use_def newUser_def fillFieldMap_def Let_def new_table)

lemma start:
  assumes "plain db"
  obtains d where "user_WithContext L ctx (q_User (NewUserRepository L db)) = Some d" "plan d = Some all_rows"
proof -
  have "plan (uq_userDo (q_User (NewUserRepository L db))) = Some all_rows"
    using new_plan [OF assms] by (simp add: NewUserRepository_def Use_def newUser_def fillFieldMap_def Let_def)
  then show ?thesis by (rule step [where k = "WithContext ctx" and p' = all_rows]) (simp_all add: user_WithContext_def that)
qed

text \<open>One more list of conditions.\<close>

lemma where_step:
  assumes "plan d = Some (all_rows\<lparr>pl_conds := cs\<rparr>)" "cond_of k = Some x"
  obtains d' where "userDo_call L (Where [k]) d = Some d'" "plan d' = Some (all_rows\<lparr>pl_conds := cs @ [x]\<rparr>)"
  by (rule step [OF assms(1), of "Where [k]" "all_rows\<lparr>pl_conds := cs @ [x]\<rparr>"]) (simp add: assms(2), rule that)

lemma start_where:
  assumes "plain db" "cond_of k = Some x"
  obtains d d' where "user_WithContext L ctx (q_User (NewUserRepository L db)) = Some d"
    "userDo_call L (Where [k]) d = Some d'" "plan d' = Some (all_rows\<lparr>pl_conds := [x]\<rparr>)"
proof -
  obtain d where d: "user_WithContext L ctx (q_User (NewUserRepository L db)) = Some d" "plan d = Some all_rows"
    by (rule start [OF assms(1)])
  then have "plan d = Some (all_rows\<lparr>pl_conds := []\<rparr>)" by (simp add: all_rows_def)
  then show ?thesis by (rule where_step [OF _ assms(2)]) (use that d in simp)
qed

lemma Take_run:
  assumes "plan d = Some (all_rows\<lparr>pl_conds := cs\<rparr>)"
  shows "userDo_Take L d c = Some (dcall (db_Take D cs) c)"
  by (cases "dcall (db_Take D cs) c"; cases "fst (dcall (db_Take D cs) c)")
    (simp_all add: userDo_Take_def run_Take [OF assms] one_user_def)

lemma FindUserByID_eq:
  assumes "plain db"
  shows "gen_FindUserByID L (NewUserRepository L db) ctx c uid = Some (FindUserByID D c uid)"
proof -
  obtain d d' where d: "user_WithContext L ctx (q_User (NewUserRepository L db)) = Some d"
    "userDo_call L (Where [FieldEq (StringField TableName_User ''id'') uid]) d = Some d'"
    "plan d' = Some (all_rows\<lparr>pl_conds := [IdEq uid]\<rparr>)"
    by (rule start_where [OF assms, of "FieldEq (StringField TableName_User ''id'') uid" "IdEq uid"]) simp_all
  show ?thesis
    by (simp add: gen_FindUserByID_def fields d(1,2) Take_run [OF d(3)] FindUserByID_def split: prod.split sum.split sql_error.split)
qed

lemma FindUserByEmail_eq:
  assumes "plain db"
  shows "gen_FindUserByEmail U L (NewUserRepository L db) ctx c email = Some (FindUserByEmail U D c email)"
proof -
  let ?k = "FieldEq (StringField TableName_User ''email'') (normalizeEmail U email)"
  obtain d d' where d: "user_WithContext L ctx (q_User (NewUserRepository L db)) = Some d"
    "userDo_call L (Where [?k]) d = Some d'" "plan d' = Some (all_rows\<lparr>pl_conds := [EmailEq (normalizeEmail U email)]\<rparr>)"
    by (rule start_where [OF assms, of ?k "EmailEq (normalizeEmail U email)"]) simp_all
  show ?thesis
    by (simp add: gen_FindUserByEmail_def fields d(1,2) Take_run [OF d(3)] FindUserByEmail_def split: prod.split sum.split sql_error.split)
qed

lemma CreateUser_eq:
  assumes "plain db"
  shows "gen_CreateUser L (NewUserRepository L db) ctx c row = Some (CreateUser D c row)"
proof -
  obtain d where d: "user_WithContext L ctx (q_User (NewUserRepository L db)) = Some d" "plan d = Some all_rows"
    by (rule start [OF assms])
  show ?thesis by (simp add: gen_CreateUser_def CreateUser_def d(1) userDo_Create_def run_Create [OF d(2)])
qed

lemma after_write_eq:
  "after_write x (\<lambda>c'. Some (k c')) =
     Some (case x of
        (Inl ErrDuplicatedKey, c') \<Rightarrow> (Inl ErrConflict, c')
      | (Inl e, c') \<Rightarrow> (Inl (other_error e), c')
      | (Inr affected, c') \<Rightarrow> if affected = 0 then (Inl ErrNotFound, c') else k c')"
  by (simp add: after_write_def split: prod.split sum.split sql_error.split)

lemma UpdateUser_eq:
  assumes "plain db"
  shows "gen_UpdateUser L (NewUserRepository L db) ctx c row = Some (UpdateUser D c row)"
proof -
  let ?ks = "[Col (StringField TableName_User ''email''), Col (StringField TableName_User ''remark''),
    Col (StringField TableName_User ''password_hash''), Col (StringField TableName_User ''role''),
    Col (TimeField TableName_User ''updated_at'')]"
  obtain d d' where d: "user_WithContext L ctx (q_User (NewUserRepository L db)) = Some d"
    "userDo_call L (Where [FieldEq (StringField TableName_User ''id'') (ID row)]) d = Some d'"
    "plan d' = Some (all_rows\<lparr>pl_conds := [IdEq (ID row)]\<rparr>)"
    by (rule start_where [OF assms, of "FieldEq (StringField TableName_User ''id'') (ID row)" "IdEq (ID row)"]) simp_all
  obtain e where e: "userDo_call L (Select ?ks) d' = Some e"
    "plan e = Some (all_rows\<lparr>pl_conds := [IdEq (ID row)], pl_select := ?ks\<rparr>)"
    by (rule step [OF d(3), of "Select ?ks"]) simp_all
  have "gl_Updates L row e c = dcall (db_Updates D [IdEq (ID row)]
      [SetEmail (Email row), SetRemark (Remark row), SetPasswordHash (PasswordHash row), SetRole (Role row),
       SetUpdatedAt (UpdatedAt row)]) c"
    by (rule run_Updates [OF e(2)]) simp
  then show ?thesis
    by (simp add: gen_UpdateUser_def UpdateUser_def fields d(1,2) e(1) FindUserByID_eq [OF assms] after_write_eq)
qed

lemma SetUserActive_eq:
  assumes "plain db"
  shows "gen_SetUserActive L (NewUserRepository L db) ctx c uid active = Some (SetUserActive D c uid active)"
proof -
  obtain d d' where d: "user_WithContext L ctx (q_User (NewUserRepository L db)) = Some d"
    "userDo_call L (Where [FieldEq (StringField TableName_User ''id'') uid]) d = Some d'"
    "plan d' = Some (all_rows\<lparr>pl_conds := [IdEq uid]\<rparr>)"
    by (rule start_where [OF assms, of "FieldEq (StringField TableName_User ''id'') uid" "IdEq uid"]) simp_all
  have "gl_UpdateSimple L [BoolValue (BoolField TableName_User ''is_active'') active] d' c =
      dcall (db_Updates D [IdEq uid] [SetActive active]) c"
    by (rule run_UpdateSimple [OF d(3)]) simp
  then show ?thesis
    by (simp add: gen_SetUserActive_def SetUserActive_def fields d(1,2) FindUserByID_eq [OF assms] after_write_eq)
qed

lemma DeleteUser_eq:
  assumes "plain db"
  shows "gen_DeleteUser L (NewUserRepository L db) ctx c uid = Some (DeleteUser D c uid)"
proof -
  obtain d d' where d: "user_WithContext L ctx (q_User (NewUserRepository L db)) = Some d"
    "userDo_call L (Where [FieldEq (StringField TableName_User ''id'') uid]) d = Some d'"
    "plan d' = Some (all_rows\<lparr>pl_conds := [IdEq uid]\<rparr>)"
    by (rule start_where [OF assms, of "FieldEq (StringField TableName_User ''id'') uid" "IdEq uid"]) simp_all
  show ?thesis
    by (simp add: gen_DeleteUser_def DeleteUser_def fields d(1,2) userDo_Delete_def run_Delete [OF d(3)] after_write_eq)
qed

text \<open>The listing: up to three conditions, the order, and the two statements of \<open>FindByPage\<close>.\<close>

lemma FindByPage_eq:
  assumes "plan d = Some (all_rows\<lparr>pl_conds := cs, pl_order := [Desc (TimeField TableName_User ''created_at'')]\<rparr>)"
  shows "userDo_FindByPage L offset limit d c = Some (FindByPage D c cs offset limit)"
proof -
  let ?p = "all_rows\<lparr>pl_conds := cs, pl_order := [Desc (TimeField TableName_User ''created_at'')]\<rparr>"
  have window: "\<exists>d1 d2. userDo_call L (Offset m) d = Some d1 \<and> userDo_call L (Limit n) d1 = Some d2 \<and>
      plan d2 = Some (?p\<lparr>pl_offset := m, pl_limit := n\<rparr>)" for m n
    by (rule step [OF assms, of "Offset m"], simp, erule step [of _ _ "Limit n"], simp) blast
  obtain d1 d2 where d: "userDo_call L (Offset offset) d = Some d1" "userDo_call L (Limit limit) d1 = Some d2"
    "plan d2 = Some (?p\<lparr>pl_offset := offset, pl_limit := limit\<rparr>)" using window [of offset limit] by blast
  obtain e1 e2 where e: "userDo_call L (Offset (-1)) d = Some e1" "userDo_call L (Limit (-1)) e1 = Some e2"
    "plan e2 = Some (?p\<lparr>pl_offset := -1, pl_limit := -1\<rparr>)" using window [of "-1" "-1"] by blast
  obtain us where f: "gl_Find L d2 c = apfst (case_sum (\<lambda>e. (DynUsers us, Some e)) (\<lambda>rs. (DynUsers rs, None)))
      (dcall (db_Find D cs offset limit) c)" using run_Find d(3) by fastforce
  have n: "gl_Count L e2 c1 = dcall (db_Count D cs) c1" for c1 using run_Count e(3) by fastforce
  show ?thesis
    by (cases "dcall (db_Find D cs offset limit) c"; cases "fst (dcall (db_Find D cs offset limit) c)")
      (simp_all add: userDo_FindByPage_def FindByPage_def userDo_Find_def d(1,2) e(1,2) f n Let_def)
qed

lemma optional_where:
  assumes "plan d = Some (all_rows\<lparr>pl_conds := cs\<rparr>)" "b \<Longrightarrow> cond_of k = Some x"
  obtains d' where "(if b then userDo_call L (Where [k]) d else Some d) = Some d'"
    "plan d' = Some (all_rows\<lparr>pl_conds := cs @ (if b then [x] else [])\<rparr>)"
  using assms by (cases b) (auto elim: where_step [OF assms(1) assms(2)])

lemma ListUsers_eq:
  assumes "plain db"
  shows "gen_ListUsers U L (NewUserRepository L db) ctx c offset limit email role active =
    Some (ListUsers U D c offset limit email role active)"
proof -
  let ?e = "''%'' @ escapeLikePattern (normalizeEmail U email) @ ''%''"
  let ?k = "FieldLike (StringField TableName_User ''email'') ?e"
  let ?r = "FieldEq (StringField TableName_User ''role'') role"
  let ?a = "FieldIs (BoolField TableName_User ''is_active'') (the active)"
  let ?o = "[Desc (TimeField TableName_User ''created_at'')]"
  obtain d0 where d0: "user_WithContext L ctx (q_User (NewUserRepository L db)) = Some d0" "plan d0 = Some all_rows"
    by (rule start [OF assms])
  from d0(2) have p0: "plan d0 = Some (all_rows\<lparr>pl_conds := []\<rparr>)" by (simp add: all_rows_def)
  obtain d1 where d1: "(if email \<noteq> [] then userDo_call L (Where [?k]) d0 else Some d0) = Some d1"
    and p1: "plan d1 = Some (all_rows\<lparr>pl_conds := [] @ (if email \<noteq> [] then [EmailLike ?e] else [])\<rparr>)"
    by (rule optional_where [OF p0, of "email \<noteq> []" ?k "EmailLike ?e"]) simp_all
  obtain d2 where d2: "(if role \<noteq> [] then userDo_call L (Where [?r]) d1 else Some d1) = Some d2"
    and p2: "plan d2 = Some (all_rows\<lparr>pl_conds := ([] @ (if email \<noteq> [] then [EmailLike ?e] else [])) @ (if role \<noteq> [] then [RoleEq role] else [])\<rparr>)"
    by (rule optional_where [OF p1, of "role \<noteq> []" ?r "RoleEq role"]) simp_all
  obtain d3 where d3: "(if active \<noteq> None then userDo_call L (Where [?a]) d2 else Some d2) = Some d3"
    and p3: "plan d3 = Some (all_rows\<lparr>pl_conds := (([] @ (if email \<noteq> [] then [EmailLike ?e] else [])) @ (if role \<noteq> [] then [RoleEq role] else []))
        @ (if active \<noteq> None then [ActiveIs (the active)] else [])\<rparr>)"
    by (rule optional_where [OF p2, of "active \<noteq> None" ?a "ActiveIs (the active)"]) simp_all
  have cs: "(([] @ (if email \<noteq> [] then [EmailLike ?e] else [])) @ (if role \<noteq> [] then [RoleEq role] else []))
        @ (if active \<noteq> None then [ActiveIs (the active)] else []) = list_conds U email role active"
    by (simp add: list_conds_def split: option.split)
  obtain d4 where d4: "userDo_call L (Order ?o) d3 = Some d4"
    "plan d4 = Some (all_rows\<lparr>pl_conds := list_conds U email role active, pl_order := ?o\<rparr>)"
    by (rule step [OF p3 [unfolded cs], of "Order ?o"]) (simp_all add: all_rows_def)
  have a: "(case active of Some a \<Rightarrow> userDo_call L (Where [FieldIs (BoolField TableName_User ''is_active'') a]) d2 | None \<Rightarrow> Some d2) = Some d3"
    using d3 by (cases active) simp_all
  show ?thesis
    unfolding gen_ListUsers_def ListUsers_def fields d0(1) d1 d2 a d4(1) FindByPage_eq [OF d4(2)] bind.simps
    by (simp split: prod.split sum.split)
qed

lemma EnsureBootstrapAdmin_eq:
  assumes "plain db"
  shows "gen_EnsureBootstrapAdmin B L (NewUserRepository L db) ctx c password salt new_id now =
    Some (EnsureBootstrapAdmin B D c password salt new_id now)"
proof (cases "HashPassword B salt password")
  case None
  then show ?thesis by (simp add: gen_EnsureBootstrapAdmin_def EnsureBootstrapAdmin_def)
next
  case (Some passwordHash)
  let ?k = "FieldEq (StringField TableName_User ''email'') bootstrapAdminEmail"
  let ?vs = "[StringValue (StringField TableName_User ''password_hash'') passwordHash,
    StringValue (StringField TableName_User ''remark'') ''admin'', StringValue (StringField TableName_User ''role'') RoleAdmin,
    BoolValue (BoolField TableName_User ''is_active'') True]"
  obtain d where d: "user_WithContext L ctx (q_User (NewUserRepository L db)) = Some d" "plan d = Some all_rows"
    by (rule start [OF assms])
  from d(2) have p: "plan d = Some (all_rows\<lparr>pl_conds := []\<rparr>)" by (simp add: all_rows_def)
  obtain v where v: "userDo_call L (Where [?k]) d = Some v" "plan v = Some (all_rows\<lparr>pl_conds := [EmailEq bootstrapAdminEmail]\<rparr>)"
    by (rule where_step [OF p, of ?k "EmailEq bootstrapAdminEmail"]) simp_all
  obtain r c1 where r: "dcall (db_Take D [EmailEq bootstrapAdminEmail]) c = (r, c1)" by fastforce
  show ?thesis
  proof (cases r)
    case (Inl e)
    then show ?thesis using Some r
      by (cases e) (simp_all add: gen_EnsureBootstrapAdmin_def EnsureBootstrapAdmin_def fields d(1) v(1) Take_run [OF v(2)] Let_def
          userDo_Create_def run_Create [OF d(2)])
  next
    case (Inr existing)
    obtain w where w: "userDo_call L (Where [FieldEq (StringField TableName_User ''id'') (ID existing)]) d = Some w"
      "plan w = Some (all_rows\<lparr>pl_conds := [IdEq (ID existing)]\<rparr>)"
      by (rule where_step [OF p, of "FieldEq (StringField TableName_User ''id'') (ID existing)" "IdEq (ID existing)"]) simp_all
    have "gl_UpdateSimple L ?vs w c1 = dcall (db_Updates D [IdEq (ID existing)]
        [SetPasswordHash passwordHash, SetRemark ''admin'', SetRole RoleAdmin, SetActive True]) c1"
      by (rule run_UpdateSimple [OF w(2)]) simp
    then show ?thesis using Some r Inr
      by (simp add: gen_EnsureBootstrapAdmin_def EnsureBootstrapAdmin_def fields d(1) v(1) w(1) Take_run [OF v(2)] Let_def)
  qed
qed

end

subsection \<open>An instance\<close>

text \<open>
  A \<open>gen.DO\<close> as the statement it stands for, \<^const>\<open>None\<close> for one that is none of those; the open database is
  the one \<open>*gorm.DB\<close>. The calls the repository does not make are errors.
\<close>

definition no_stmt :: "'c \<Rightarrow> (sql_error + 'a) \<times> 'c" where
  "no_stmt c = (Inl (SqlOther ''no statement''), c)"

definition plan_run :: "(plan \<Rightarrow> 'c \<Rightarrow> (sql_error + 'a) \<times> 'c) \<Rightarrow> plan option \<Rightarrow> 'c \<Rightarrow> (sql_error + 'a) \<times> 'c" where
  "plan_run f d c = (case d of None \<Rightarrow> no_stmt c | Some p \<Rightarrow> f p c)"

definition plan_lib :: "'d db \<Rightarrow> (unit, bool, plan option, 'd dconn) gen_lib" where
  "plan_lib D =
     \<lparr>gl_zero = None, gl_UseDB = (\<lambda>db opts d. if db then Some (all_rows\<lparr>pl_table := []\<rparr>) else None),
      gl_UseModel = (\<lambda>m d. map_option (pl_table_update (\<lambda>_. TableName_User)) d),
      gl_UseTable = (\<lambda>tb d. map_option (pl_table_update (\<lambda>_. tb)) d),
      gl_ReplaceConnPool = (\<lambda>_ d. d), gl_ReplaceDB = (\<lambda>db d. if db then d else None),
      gl_TableName = (\<lambda>d. case d of None \<Rightarrow> TableName_User | Some p \<Rightarrow> pl_table p), gl_Alias = (\<lambda>_. []), gl_Columns = (\<lambda>_ _. ()),
      gl_As = (\<lambda>_ d. IsDO d), gl_call = (\<lambda>k d. IsDO (Option.bind d (plan_step k))),
      gl_First = (\<lambda>_. no_stmt), gl_Take = (\<lambda>d c. apfst (map_sum id DynUser) (plan_run (\<lambda>p. dcall (db_Take D (pl_conds p))) d c)),
      gl_Last = (\<lambda>_. no_stmt), gl_FirstOrInit = (\<lambda>_. no_stmt), gl_FirstOrCreate = (\<lambda>_. no_stmt),
      gl_Find = (\<lambda>d c. apfst (case_sum (\<lambda>e. (DynUsers [], Some e)) (\<lambda>rs. (DynUsers rs, None)))
        (plan_run (\<lambda>p. dcall (db_Find D (pl_conds p) (pl_offset p) (pl_limit p))) d c)),
      gl_Count = plan_run (\<lambda>p. dcall (db_Count D (pl_conds p))), gl_Scan = (\<lambda>_. no_stmt),
      gl_Create = (\<lambda>us. plan_run (\<lambda>p. case us of [row] \<Rightarrow> dcall (db_Create D row) | _ \<Rightarrow> no_stmt)),
      gl_CreateInBatches = (\<lambda>_ _ _. no_stmt), gl_Save = (\<lambda>_ _. no_stmt),
      gl_Delete = (\<lambda>us. plan_run (\<lambda>p. if us = [] then dcall (db_Delete D (pl_conds p)) else no_stmt)),
      gl_UpdateSimple = (\<lambda>vs. plan_run (\<lambda>p. case those (map assign_of vs) of Some as \<Rightarrow> dcall (db_Updates D (pl_conds p) as) | None \<Rightarrow> no_stmt)),
      gl_Updates = (\<lambda>row. plan_run (\<lambda>p. case those (map (select_of row) (pl_select p)) of
        Some as \<Rightarrow> dcall (db_Updates D (pl_conds p) as) | None \<Rightarrow> no_stmt)),
      gl_Read = (), gl_Write = (), gm_nil = False, gm_ConnPool = (\<lambda>_. ()), gm_Clauses = (\<lambda>_ db. db),
      gm_Transaction = (\<lambda>fc opts db c. case fc db c of (None, c') \<Rightarrow> (None, c') | (Some e, c') \<Rightarrow> (Some e, c'\<lparr>d_state := d_state c\<rparr>)),
      gm_Begin = (\<lambda>_ db c. (db, c)), gm_Commit = (\<lambda>db c. (db, c)), gm_Rollback = (\<lambda>db c. (db, c)),
      gm_SavePoint = (\<lambda>_ db c. (db, c)), gm_RollbackTo = (\<lambda>_ db c. (db, c)), gm_Error = (\<lambda>_. None)\<rparr>"

interpretation planned: gen_users "plan_lib D" D "\<lambda>d. d" "\<lambda>db. db" for D :: "'d db"
  by unfold_locales (auto simp: plan_lib_def plan_run_def all_rows_def split: option.split)

text \<open>
  C32 (equivalence). The repository as it is written, a chain of generated calls for each method, is the repository
  over statements of the other theories: whatever \<open>gorm.io/gen\<close> keeping the contract, database and connection
  faults, every method returns (no type assertion of the generated code panics), with the same reply, the same
  error and the same state behind it.
\<close>
theorem generated_repository:
  assumes "gen_users L D plan plain" "plain db"
  shows "gen_FindUserByID L (NewUserRepository L db) ctx c uid = Some (FindUserByID D c uid)
    \<and> gen_FindUserByEmail U L (NewUserRepository L db) ctx c email = Some (FindUserByEmail U D c email)
    \<and> gen_ListUsers U L (NewUserRepository L db) ctx c offset limit email role active =
        Some (ListUsers U D c offset limit email role active)
    \<and> gen_CreateUser L (NewUserRepository L db) ctx c row = Some (CreateUser D c row)
    \<and> gen_UpdateUser L (NewUserRepository L db) ctx c row = Some (UpdateUser D c row)
    \<and> gen_SetUserActive L (NewUserRepository L db) ctx c uid a = Some (SetUserActive D c uid a)
    \<and> gen_DeleteUser L (NewUserRepository L db) ctx c uid = Some (DeleteUser D c uid)
    \<and> gen_EnsureBootstrapAdmin B L (NewUserRepository L db) ctx c password salt new_id now =
        Some (EnsureBootstrapAdmin B D c password salt new_id now)"
  by (intro conjI gen_users.FindUserByID_eq [OF assms] gen_users.FindUserByEmail_eq [OF assms] gen_users.ListUsers_eq [OF assms]
      gen_users.CreateUser_eq [OF assms] gen_users.UpdateUser_eq [OF assms] gen_users.SetUserActive_eq [OF assms]
      gen_users.DeleteUser_eq [OF assms] gen_users.EnsureBootstrapAdmin_eq [OF assms])

text \<open>A user is disabled through the generated calls, whose second statement reads the row back.\<close>

theorem generated_repository_witness:
  "gen_SetUserActive (plan_lib table_db) (NewUserRepository (plan_lib table_db) True) () (demo_db [demo_user ''u1'' ''a@b.c'']) ''U1'' False =
     Some (Inr ((demo_user ''u1'' ''a@b.c'')\<lparr>Active := False\<rparr>), demo_db [(demo_user ''u1'' ''a@b.c'')\<lparr>Active := False\<rparr>])"
proof -
  let ?u = "demo_user ''u1'' ''a@b.c''"
  have "gen_SetUserActive (plan_lib table_db) (NewUserRepository (plan_lib table_db) True) () (demo_db [?u]) ''U1'' False =
      Some (SetUserActive table_db (demo_db [?u]) ''U1'' False)"
    using generated_repository [OF planned.gen_users_axioms, where db = True and c = "demo_db [?u]" and uid = "''U1''" and a = False] by blast
  moreover have "map ascii_lower ''U1'' = ''u1''" by code_simp
  then have "fold_id ''U1'' = Some ''u1''" by (simp add: fold_id_def)
  moreover have "row_ok (?u\<lparr>Active := False\<rparr>)" using demo_table_ok by (simp add: table_ok_def row_ok_def)
  ultimately show ?thesis
    by (simp add: SetUserActive_def FindUserByID_def dcall_def table_db_def tb_Updates_def tb_Take_def assigned_def demo_db_def Let_def)
qed

section \<open>The columns of a table object\<close>

text \<open>What a \<open>query.user\<close> can be made from and turned into, with the name of its table.\<close>

inductive table_object :: "('x, 'g, 'o, 'c) gen_lib \<Rightarrow> string \<Rightarrow> 'o query_user \<Rightarrow> bool" for L :: "('x, 'g, 'o, 'c) gen_lib" where
  new: "table_object L (gl_TableName L (uq_userDo (newUser L db opts))) (newUser L db opts)"
| Table: "table_object L tb u \<Longrightarrow> table_object L tb' (user_Table L tb' u)"
| As: "table_object L tb u \<Longrightarrow> user_As L tb' u = Some u' \<Longrightarrow> table_object L tb' u'"
| clone: "table_object L tb u \<Longrightarrow> table_object L tb (user_clone L db u)"
| replaceDB: "table_object L tb u \<Longrightarrow> table_object L tb (user_replaceDB L db u)"

definition columns_of :: "string \<Rightarrow> 'o query_user \<Rightarrow> bool" where
  "columns_of tb u \<longleftrightarrow>
     uq_fieldMap u = (\<lambda>n. map_option (\<lambda>k. k tb n) (map_of columns_User n))
     \<and> uq_ALL u = Asterisk tb
     \<and> map (\<lambda>(n, k). k tb n) columns_User =
         [uq_ID u, uq_Email u, uq_Remark u, uq_PasswordHash u, uq_Active u, uq_Role u, uq_CreatedAt u, uq_UpdatedAt u]"

lemma columns_newUser: "columns_of (gl_TableName L (uq_userDo (newUser L db opts))) (newUser L db opts)"
  by (auto simp: columns_of_def newUser_def fillFieldMap_def columns_User_def Let_def fun_eq_iff)

lemma columns_updateTableName: "columns_of tb (updateTableName tb u)"
  by (auto simp: columns_of_def updateTableName_def fillFieldMap_def columns_User_def fun_eq_iff)

lemma columns_userDo [simp]: "columns_of tb (u\<lparr>uq_userDo := d\<rparr>) = columns_of tb u"
  by (simp add: columns_of_def)

text \<open>
  Whatever a table object has been through (a new table name, an alias, a clone for another
  connection, another database), its static columns and its lookup by name are those of the entity, with the types the entity
  gives them, in the table it currently has: no stale column of an earlier name, none missing, none besides.
\<close>
lemma table_object_columns:
  assumes "table_object L tb u"
  shows "[uq_ID u, uq_Email u, uq_Remark u, uq_PasswordHash u, uq_Active u, uq_Role u, uq_CreatedAt u, uq_UpdatedAt u] =
      map (\<lambda>(n, k). k tb n) columns_User
    \<and> uq_ALL u = Asterisk tb
    \<and> GetFieldByName is_order u n =
      (case map_of columns_User n of None \<Rightarrow> None | Some k \<Rightarrow> if is_order (k tb n) then Some (k tb n) else None)"
proof -
  have "columns_of tb u" using assms
    by (induction rule: table_object.induct)
      (auto simp: user_Table_def user_As_def user_clone_def user_replaceDB_def columns_newUser columns_updateTableName bind_eq_Some_conv)
  then show ?thesis
    by (auto simp: columns_of_def GetFieldByName_def columns_User_def split: option.split)
qed

lemma table_object_renamed:
  "GetFieldByName (\<lambda>_. True) (user_Table (plan_lib table_db) ''old_users'' (newUser (plan_lib table_db) True [])) ''is_active'' =
     Some (BoolField ''old_users'' ''is_active'')"
  using table_object_columns [OF table_object.Table [OF table_object.new [of "plan_lib table_db" True "[]"], of "''old_users''"],
      of "\<lambda>_. True" "''is_active''"]
  by (simp add: columns_User_def)

end
