(* ===== verification/Spec2Isabelle.thy ===== *)
theory Spec2Isabelle
  imports SessionProps CaptchaStore Config Digest Tokens Http Middleware Database UserRepo DigestVectors
    AuthService Services AuthProps UserService UserProps UserListing UserExamples
    Server ServerProps ServerExamples Startup StartupExamples Migrate
    Accounts System SystemExamples Races Query QueryRepo
begin

text \<open>
  A verification development for the springhere gin server, a Go backend with password login,
  refresh token rotation and user administration.

  \<^bold>\<open>The program.\<close> A request enters the gin engine of \<open>internal/server.go\<close>, passes the middleware of
  \<open>pkg/middleware\<close> and reaches, by the route tables of \<open>internal/router\<close>, a handler of
  \<open>internal/service\<close>. Handlers keep accounts in PostgreSQL through \<open>internal/data/user.go\<close> and
  sessions and captchas in Redis through \<open>internal/data/auth_session.go\<close>,
  \<open>auth_session_scripts.go\<close> and \<open>captcha.go\<close>. Access tokens are JWTs, refresh tokens are random and
  only their SHA-256 digests are stored (\<open>pkg/utils\<close>). \<open>pkg/app\<close> starts the server from
  the configuration of \<open>pkg/config\<close>; \<open>cmd/migrate\<close> brings the tables up to date.

  \<^bold>\<open>Conventions.\<close> A Go string is a list of bytes (\<open>string\<close>), a duration or an instant an integer
  number of nanoseconds, \<open>(T, error)\<close> a sum with \<open>Inl\<close> the error. Go structs are records
  with the source's field names (a prefix where two records share a name), constants and functions keep
  their names. Integers are unbounded where the code only compares them; the page offset is
  computed in 64 bits with \<open>go_int\<close>. State is passed explicitly: a \<open>conn\<close> is a
  connection to a Redis server with its clock and the faults that lie ahead (a lost request or a lost
  reply for any round trip), a \<open>dconn\<close> the same for the database, a \<open>world\<close> both. Random bytes,
  UUIDs, salts, clock readings and the outcome of request binding are arguments.

  \<^bold>\<open>Theories, from the bottom.\<close>
  \<^item> \<open>Prelude\<close>: scalar types, fallible sequencing, lemmas on lists and maps.
  \<^item> \<open>GoText\<close>, \<open>GoJson\<close>, \<open>Digest\<close>: what the code uses of \<open>unicode/utf8\<close>, \<open>strings\<close>,
    \<open>encoding/json\<close>, \<open>crypto/sha256\<close>, \<open>encoding/hex\<close> and \<open>encoding/base64\<close>, executable;
    \<open>DigestVectors\<close> evaluates SHA-256 on two messages.
  \<^item> \<open>Entity\<close>: \<open>pkg/constant\<close>, \<open>internal/model\<close>, \<open>internal/entity\<close>, \<open>pkg/response\<close>.
  \<^item> \<open>Redis\<close>: the commands as a record of functions, scripts and pipelines over them, and the
    contract \<open>redis_server\<close>: a server simulates a keyspace of strings and sorted sets with
    expiry. \<open>Database\<close>: the same for GORM on the users table (\<open>user_db\<close>), with conditions
    and assignments as data.
  \<^item> \<open>SessionStore\<close>: \<open>RedisAuthSessionStore\<close> with its Lua scripts. \<open>SessionInvariant\<close> has the abstract
    specification, a table from session ids to records with expiry, and the invariant
    \<open>session_inv\<close> that ties the session, refresh and index keys to it; \<open>SessionCreate\<close>,
    \<open>SessionOps\<close> and \<open>OnlineState\<close> show what each operation does to the table, whatever
    faults happen; \<open>SessionMachine\<close> makes the operations steps of a relation in which
    clients interleave and time passes; \<open>SessionProps\<close> has the refinement and safety
    theorems.
  \<^item> \<open>CaptchaStore\<close>: \<open>RedisCaptchaStore\<close>. \<open>UserRepo\<close>: \<open>UserRepository\<close> over statements with
    the generated \<open>FindByPage\<close>. \<open>Query\<close>: the generated query objects of \<open>internal/model/query\<close>, over a parameter for
    \<open>gorm.io/gen\<close>. \<open>QueryRepo\<close>: the methods of \<open>UserRepository\<close> as the chains of generated calls they are written
    in, equal to those of \<open>UserRepo\<close> under the contract \<open>gen_users\<close>.
  \<^item> \<open>Config\<close>: \<open>pkg/config\<close>. \<open>Tokens\<close>: \<open>pkg/utils\<close>, with the contracts \<open>jwt_library\<close> and
    \<open>bcrypt_library\<close>. \<open>Http\<close>: the gin context. \<open>Middleware\<close>: \<open>pkg/middleware\<close>.
  \<^item> \<open>AuthService\<close> and \<open>UserService\<close>: the handlers. \<open>Services\<close> joins the contracts they rely on
    (locale \<open>services\<close>) and gives one working instance. \<open>AuthProps\<close>, \<open>UserProps\<close> and \<open>UserListing\<close>
    have the end-to-end theorems, \<open>UserExamples\<close> runs them on small tables.
  \<^item> \<open>Server\<close>: the routers and \<open>NewServer\<close>, and a request running through the engine; gin's choice
    of a route is a parameter with the contract \<open>gin_router\<close>. \<open>ServerProps\<close>: what holds of
    every request. \<open>ServerExamples\<close>: concrete requests.
  \<^item> \<open>Startup\<close>: \<open>pkg/app\<close>, \<open>pkg/component\<close>, \<open>cmd/server\<close> and \<open>Run\<close>; \<open>StartupExamples\<close>. \<open>Migrate\<close>:
    \<open>cmd/migrate\<close>, with the contracts \<open>migration_source\<close> and \<open>migrator\<close>.

  \<^item> \<open>Accounts\<close>: the abstract specification of the whole, a machine of accounts and sessions, and its
    invariant \<open>mirrors\<close>. \<open>Moves\<close> and \<open>HandlerMoves\<close> show that every component call and every
    handler is a sequence of its steps, \<open>System\<close> that every served request is and what follows for
    runs of the server; \<open>SystemExamples\<close> has a run. \<open>Races\<close> cuts \<open>Update\<close> between its two round
    trips.

  \<^bold>\<open>What the theorems show.\<close> The session store refines its table under interleaving and faults: a
  refresh token works once, racing rotations have one winner, revoking removes every session
  of a user with time left. On top of it a login needs the credentials, its token opens the
  doors of the account's role and no others, refresh and logout close what they should,
  changes to an account (by the id the database has) revoke its sessions, an administrator cannot lock the own
  account out by the own id, each repository operation writes the one row it should or nothing, and
  the listing is the page it claims to be. On top of that every request is answered
  and logged once, the administration is closed to everyone else, foreign sites can use
  neither the cookie routes nor CORS, a started server has an administrator with the
  printed password, and a migration run that reports success is complete. The whole server refines
  the account machine: as long as requests do not overlap and paths spell ids as the database does,
  every session with time left mirrors an enabled account with its present role, through all
  connection faults, and no token passes with a role the account has lost.
  The theorems \<open>self_delete_by_alias\<close> and \<open>stale_role_race\<close> show that both
  provisos are needed, \<open>kick_by_alias\<close> that the first is needed for revoking, and \<open>list_page_wraps\<close> gives the page
  numbers on which the listing is wrong.

  \<^bold>\<open>Termination and fuel.\<close> All loops but one are recursion on their data. The functions
  of \<open>GoText\<close> recurse on the length of what is left. The JSON parser of \<open>GoJson\<close>, a part of the standard
  library, has the only fuel: one unit for each value or element, twice the length of the text plus two at the start, more than a text
  of that length can have. The loop of
  \<open>pendingUp\<close> follows the source driver and ends only by its contract: it is a partial function, and
  \<open>pendingUp_ends\<close> proves that it returns.

  \<^bold>\<open>Taken for granted.\<close> Lifetimes of sessions are whole seconds in the theorems on creating them (the index key's lifetime is
  rounded down to seconds, see \<open>store_step\<close>), the clocks of the server and of Redis agree when a session is created or the online flags are
  read, and drawn ids and digests are fresh: each theorem has these as hypotheses or in the step relation it is about. The
  configured name of the refresh cookie is a valid cookie name (\<open>net/http\<close> would drop the cookie otherwise).

  \<^bold>\<open>Not modelled.\<close> Third-party code is a parameter: Redis and its client, PostgreSQL, GORM, the JWT,
  bcrypt, captcha and UUID packages, gin's router and binder, the migration library, YAML
  and environment. Contexts and timeouts show as faults of a connection. Log lines other than the
  access log are left out, as are sockets, signals and goroutines of \<open>Run\<close> beyond the event it
  waits for. The instant and the server's clock stand still within one handler unless a draw says
  otherwise; \<open>d.Seconds()\<close> is taken without the rounding of its floating-point
  result. A request runs in one piece in \<open>System\<close>; the interleaving of concurrent operations on the session store
  is in \<open>SessionMachine\<close>, and of two handlers in \<open>Races\<close>. In \<open>Query\<close> an argument of
  \<open>gorm.io/gen\<close> or \<open>gorm\<close> that the code only hands on is opaque, and a panic of a callback is left out; the methods promoted from
  \<open>gen.DO\<close> have no code in the repository. \<open>cmd/gormgen\<close> only calls the generator.
\<close>

end
